(* ===== verification/Prelude.thy ===== *)
theory Prelude
  imports Main "HOL-Library.Word" "HOL-Library.Char_ord" "HOL-Library.List_Lexorder"
begin

text \<open>
  What every component of the development shares: the outcome of an operation of the code
  (a value, or the way it fails), the character classification functions of the C
  library in the C locale, joining and tokenising strings, and association lists that
  stand for \<^verbatim>\<open>std::unordered_map\<close>.
\<close>

section \<open>Outcomes\<close>

text \<open>
  \<open>UB\<close> is an execution with undefined behaviour (a read of an indeterminate value, an
  access outside an object, a null dereference, flowing off the end of a function that
  returns a value). The others are exceptions of the standard library.
\<close>

datatype fault = UB | Out_Of_Range | Invalid_Argument | Type_Error

type_synonym 'a res = "fault + 'a"

named_theorems res_simps "unfolding of outcome combinators"

definition rbind :: "'a res \<Rightarrow> ('a \<Rightarrow> 'b res) \<Rightarrow> 'b res" where
  "rbind m f = (case m of Inl e \<Rightarrow> Inl e | Inr x \<Rightarrow> f x)"

definition rmap :: "('a \<Rightarrow> 'b) \<Rightarrow> 'a res \<Rightarrow> 'b res" where
  "rmap f m = rbind m (\<lambda>x. Inr (f x))"

lemma rbind_Inr [simp, res_simps]: "rbind (Inr x) f = f x"
  by (simp add: rbind_def)

lemma rbind_Inl [simp, res_simps]: "rbind (Inl e) f = Inl e"
  by (simp add: rbind_def)

lemma rbind_eq_Inr_iff: "rbind m f = Inr y \<longleftrightarrow> (\<exists>x. m = Inr x \<and> f x = Inr y)"
  by (cases m) auto

lemma rbind_assoc: "rbind (rbind m f) g = rbind m (\<lambda>x. rbind (f x) g)"
  by (cases m) auto

lemma rmap_Inr [simp, res_simps]: "rmap f (Inr x) = Inr (f x)"
  by (simp add: rmap_def)

lemma rmap_Inl [simp, res_simps]: "rmap f (Inl e) = Inl e"
  by (simp add: rmap_def)

lemma rmap_eq_Inr_iff: "rmap f m = Inr y \<longleftrightarrow> (\<exists>x. m = Inr x \<and> y = f x)"
  by (cases m) auto

text \<open>A loop over a list whose body may fail: it stops at the first fault.\<close>

fun rfold :: "('a \<Rightarrow> 's \<Rightarrow> 's res) \<Rightarrow> 'a list \<Rightarrow> 's \<Rightarrow> 's res" where
  "rfold f [] s = Inr s"
| "rfold f (x # xs) s = rbind (f x s) (rfold f xs)"

lemma rfold_append: "rfold f (xs @ ys) s = rbind (rfold f xs s) (rfold f ys)"
  by (induction xs arbitrary: s) (auto simp: rbind_def split: sum.splits)

lemma rfold_total:
  "(\<And>x s. x \<in> set xs \<Longrightarrow> f x s = Inr (g x s)) \<Longrightarrow> rfold f xs s = Inr (fold g xs s)"
  by (induction xs arbitrary: s) auto

text \<open>Mapping with faults.\<close>

fun rmapM :: "('a \<Rightarrow> 'b res) \<Rightarrow> 'a list \<Rightarrow> 'b list res" where
  "rmapM f [] = Inr []"
| "rmapM f (x # xs) = rbind (f x) (\<lambda>y. rmap ((#) y) (rmapM f xs))"

lemma rmapM_app: "rmapM f (xs @ ys) = rbind (rmapM f xs) (\<lambda>us. rmap (\<lambda>vs. us @ vs) (rmapM f ys))"
proof (induction xs)
  case Nil
  show ?case by (cases "rmapM f ys") simp_all
next
  case (Cons x xs)
  then show ?case by (cases "f x"; cases "rmapM f xs"; cases "rmapM f ys") simp_all
qed

lemma rmapM_total: "(\<And>x. x \<in> set xs \<Longrightarrow> f x = Inr (g x)) \<Longrightarrow> rmapM f xs = Inr (map g xs)"
  by (induction xs) auto

lemma rmapM_Inr_all2: "rmapM f xs = Inr ys \<Longrightarrow> list_all2 (\<lambda>x y. f x = Inr y) xs ys"
  by (induction xs arbitrary: ys) (auto simp: rbind_eq_Inr_iff rmap_eq_Inr_iff)

lemma rmapM_Inr_mem:
  assumes "rmapM f xs = Inr ys"
  shows "x \<in> set xs \<Longrightarrow> \<exists>y \<in> set ys. f x = Inr y" and "y \<in> set ys \<Longrightarrow> \<exists>x \<in> set xs. f x = Inr y"
proof -
  note all2 = rmapM_Inr_all2[OF assms, unfolded list_all2_conv_all_nth]
  show "x \<in> set xs \<Longrightarrow> \<exists>y \<in> set ys. f x = Inr y"
    using all2 by (auto simp: in_set_conv_nth)
  show "y \<in> set ys \<Longrightarrow> \<exists>x \<in> set xs. f x = Inr y"
    using all2 by (metis in_set_conv_nth)
qed

section \<open>Characters (C locale)\<close>

definition chr_code :: "char \<Rightarrow> nat" where
  "chr_code c = of_char c"

definition isspace :: "char \<Rightarrow> bool" where
  "isspace c \<longleftrightarrow> chr_code c = 32 \<or> (9 \<le> chr_code c \<and> chr_code c \<le> 13)"

definition isupper :: "char \<Rightarrow> bool" where
  "isupper c \<longleftrightarrow> 65 \<le> chr_code c \<and> chr_code c \<le> 90"

definition islower :: "char \<Rightarrow> bool" where
  "islower c \<longleftrightarrow> 97 \<le> chr_code c \<and> chr_code c \<le> 122"

definition isdigit :: "char \<Rightarrow> bool" where
  "isdigit c \<longleftrightarrow> 48 \<le> chr_code c \<and> chr_code c \<le> 57"

definition tolower :: "char \<Rightarrow> char" where
  "tolower c = (if isupper c then char_of (chr_code c + 32) else c)"

definition toupper :: "char \<Rightarrow> char" where
  "toupper c = (if islower c then char_of (chr_code c - 32) else c)"

lemma chr_code_lt [simp]: "chr_code c < 256"
  by (simp add: chr_code_def)

lemma chr_code_char_of [simp]: "chr_code (char_of n) = n mod 256"
  by (simp add: chr_code_def)

lemma char_of_chr_code [simp]: "char_of (chr_code c) = c"
  by (simp add: chr_code_def)

lemma chr_code_inject [simp]: "chr_code a = chr_code b \<longleftrightarrow> a = b"
  by (metis char_of_chr_code)

lemma islower_tolower: "isupper c \<Longrightarrow> islower (tolower c)"
  by (simp add: tolower_def isupper_def islower_def)

lemma not_isupper_tolower [simp]: "\<not> isupper (tolower c)"
  by (simp add: tolower_def isupper_def)

lemma tolower_id [simp]: "\<not> isupper c \<Longrightarrow> tolower c = c"
  by (simp add: tolower_def)

lemma tolower_idem [simp]: "tolower (tolower c) = tolower c"
  by simp

lemma toupper_tolower: "isupper c \<Longrightarrow> toupper (tolower c) = c"
  by (simp add: toupper_def tolower_def isupper_def islower_def)

lemma chr_code_toupper: "islower c \<Longrightarrow> chr_code (toupper c) = chr_code c - 32"
proof -
  have "chr_code c - 32 < 256"
    using chr_code_lt[of c] by arith
  then show "islower c \<Longrightarrow> chr_code (toupper c) = chr_code c - 32"
    by (simp add: toupper_def)
qed

lemma isupper_toupper: "islower c \<Longrightarrow> isupper (toupper c)"
  by (auto simp: isupper_def chr_code_toupper) (auto simp: islower_def)

lemma tolower_toupper:
  assumes "islower c"
  shows "tolower (toupper c) = c"
proof -
  have "chr_code c - 32 + 32 = chr_code c"
    using assms by (simp add: islower_def)
  with assms show ?thesis
    by (simp add: tolower_def isupper_toupper chr_code_toupper)
qed

lemma islower_not_isupper: "islower c \<Longrightarrow> \<not> isupper c"
  by (simp add: isupper_def islower_def)

text \<open>The value of a signed 8-bit \<^verbatim>\<open>char\<close>.\<close>

definition schar :: "char \<Rightarrow> int" where
  "schar c = (if chr_code c < 128 then int (chr_code c) else int (chr_code c) - 256)"

lemma schar_small [simp]: "n < 128 \<Longrightarrow> schar (char_of n) = int n"
  by (simp add: schar_def)

section \<open>Joining and tokenising strings\<close>

fun join :: "string \<Rightarrow> string list \<Rightarrow> string" where
  "join sep [] = []"
| "join sep [x] = x"
| "join sep (x # y # zs) = x @ sep @ join sep (y # zs)"

lemma join_Cons: "ys \<noteq> [] \<Longrightarrow> join sep (x # ys) = x @ sep @ join sep ys"
  by (cases ys) auto

lemma join_snoc: "xs \<noteq> [] \<Longrightarrow> join sep (xs @ [y]) = join sep xs @ sep @ y"
  by (induction sep xs rule: join.induct) auto

lemma set_join: "set (join sep xs) \<subseteq> set sep \<union> \<Union> (set ` set xs)"
  by (induction sep xs rule: join.induct) auto

text \<open>
  The tokens of a string: the maximal runs of characters that are no separators. This
  is the reference against which the code's index-based splitting is verified.
\<close>

function tokens :: "(char \<Rightarrow> bool) \<Rightarrow> string \<Rightarrow> string list" where
  "tokens p [] = []"
| "tokens p (c # cs) =
     (if p c then tokens p cs
      else (c # takeWhile (\<lambda>x. \<not> p x) cs) # tokens p (dropWhile (\<lambda>x. \<not> p x) cs))"
  by pat_completeness auto
termination
  by (relation "measure (\<lambda>(p, s). length s)") (auto simp: le_imp_less_Suc length_dropWhile_le)

lemma tokens_dropWhile: "tokens p (dropWhile p s) = tokens p s"
  by (induction s) auto

lemma tokens_single: "s \<noteq> [] \<Longrightarrow> (\<forall>c \<in> set s. \<not> p c) \<Longrightarrow> tokens p s = [s]"
  by (cases s) (auto simp: takeWhile_eq_all_conv[THEN iffD2] dropWhile_eq_Nil_conv[THEN iffD2])

lemma tokens_sep_append:
  assumes "x \<noteq> []" "\<forall>c \<in> set x. \<not> p c" "p d"
  shows "tokens p (x @ d # rest) = x # tokens p rest"
proof -
  obtain c cs where x: "x = c # cs" using assms(1) by (cases x) auto
  have "takeWhile (\<lambda>y. \<not> p y) (cs @ d # rest) = cs"
    and "dropWhile (\<lambda>y. \<not> p y) (cs @ d # rest) = d # rest"
    using assms x by (auto simp: takeWhile_append dropWhile_append)
  with assms x show ?thesis by simp
qed

lemma tokens_join:
  assumes "\<forall>x \<in> set xs. x \<noteq> [] \<and> (\<forall>c \<in> set x. \<not> p c)" "p d"
  shows "tokens p (join [d] xs) = xs"
  using assms
proof (induction "[d]" xs rule: join.induct)
  case (3 x y zs)
  then show ?case by (simp add: tokens_sep_append)
qed (auto simp: tokens_single)

lemma tokens_nonempty: "t \<in> set (tokens p s) \<Longrightarrow> t \<noteq> [] \<and> (\<forall>c \<in> set t. \<not> p c)"
proof (induction p s rule: tokens.induct)
  case (2 p c cs)
  show ?case
  proof (cases "p c")
    case True
    with 2 show ?thesis by simp
  next
    case False
    with "2.prems" consider "t = c # takeWhile (\<lambda>x. \<not> p x) cs"
      | "t \<in> set (tokens p (dropWhile (\<lambda>x. \<not> p x) cs))"
      by auto
    then show ?thesis
    proof cases
      case 1
      with False show ?thesis by (auto dest: set_takeWhileD)
    next
      case 2
      then show ?thesis by (rule "2.IH"(2)[OF False])
    qed
  qed
qed simp

section \<open>Unordered maps\<close>

text \<open>
  \<^verbatim>\<open>std::unordered_map\<close> as the list of its entries in iteration order. An update keeps
  the place of a key; where a new key appears in the iteration order is not specified
  by the language, here it is the end. Facts are stated through \<open>map_of\<close> and sets of
  entries, or for an arbitrary list of entries, so that they do not depend on it.
\<close>

type_synonym 'v umap = "(string \<times> 'v) list"

fun uput :: "string \<Rightarrow> 'v \<Rightarrow> 'v umap \<Rightarrow> 'v umap" where
  "uput k v [] = [(k, v)]"
| "uput k v ((k', v') # m) = (if k' = k then (k, v) # m else (k', v') # uput k v m)"

definition uget :: "'v umap \<Rightarrow> string \<Rightarrow> 'v option" where
  "uget m k = map_of m k"

lemma map_of_uput [simp]: "map_of (uput k v m) = (map_of m)(k \<mapsto> v)"
  by (induction m) (auto simp: fun_eq_iff)

lemma uget_uput [simp]: "uget (uput k v m) j = (if j = k then Some v else uget m j)"
  by (simp add: uget_def)

lemma map_fst_uput: "map fst (uput k v m) = (if k \<in> fst ` set m then map fst m else map fst m @ [k])"
  by (induction m) (force simp: image_iff split: if_splits)+

lemma fst_set_uput [simp]: "fst ` set (uput k v m) = insert k (fst ` set m)"
proof -
  have "set (map fst (uput k v m)) = insert k (set (map fst m))"
    by (simp add: map_fst_uput) auto
  then show ?thesis by simp
qed

lemma distinct_uput [simp]: "distinct (map fst m) \<Longrightarrow> distinct (map fst (uput k v m))"
  by (simp add: map_fst_uput)

lemma uput_fresh: "k \<notin> fst ` set m \<Longrightarrow> uput k v m = m @ [(k, v)]"
  by (induction m) auto

lemma fold_uput_distinct:
  "distinct (map fst m @ map fst kvs) \<Longrightarrow>
   fold (\<lambda>(k, v). uput k v) kvs m = m @ kvs"
proof (induction kvs arbitrary: m)
  case (Cons kv kvs)
  obtain k v where kv: "kv = (k, v)" by (cases kv)
  have "uput k v m = m @ [(k, v)]"
    using Cons.prems kv by (intro uput_fresh) auto
  with Cons.IH[of "m @ [(k, v)]"] Cons.prems kv show ?case by simp
qed simp

end
