(* ===== verification/Str_Util.thy ===== *)
theory Str_Util
  imports Prelude
begin

text \<open>
  \<^verbatim>\<open>tinyorm/mysql4cpp/common.cpp\<close>, class \<^verbatim>\<open>Util\<close>: \<^verbatim>\<open>strip\<close>, \<^verbatim>\<open>split\<close>,
  \<^verbatim>\<open>toLowerCase\<close> and \<^verbatim>\<open>toUpperCase\<close>, as index loops the way the code writes them, with
  reference characterisations. Sizes are below \<open>2 ^ 31\<close>, so that the \<^verbatim>\<open>int\<close> indices of
  \<^verbatim>\<open>strip\<close> hold them.
\<close>

section \<open>Searching\<close>

text \<open>\<^verbatim>\<open>std::string::find_first_of\<close> and \<^verbatim>\<open>find_last_of\<close>; \<open>None\<close> is \<^verbatim>\<open>npos\<close>.\<close>

definition find_first_of :: "string \<Rightarrow> string \<Rightarrow> nat \<Rightarrow> nat option" where
  "find_first_of s seps l = find (\<lambda>i. s ! i \<in> set seps) [l..<length s]"

definition find_last_of :: "string \<Rightarrow> string \<Rightarrow> nat option" where
  "find_last_of s seps = find (\<lambda>i. s ! i \<in> set seps) (rev [0..<length s])"

lemma find_upt_NoneD: "find P [l..<n] = None \<Longrightarrow> l \<le> i \<Longrightarrow> i < n \<Longrightarrow> \<not> P i"
  by (auto simp: find_None_iff)

lemma find_upt_SomeD:
  assumes "find P [l..<n] = Some r"
  shows "l \<le> r \<and> r < n \<and> P r \<and> (\<forall>i. l \<le> i \<and> i < r \<longrightarrow> \<not> P i)"
proof -
  from assms obtain k where k: "k < length [l..<n]" "P ([l..<n] ! k)" "r = [l..<n] ! k"
    "\<forall>j<k. \<not> P ([l..<n] ! j)"
    by (auto simp: find_Some_iff)
  then have r: "r = l + k" by simp
  have "\<not> P i" if "l \<le> i" "i < r" for i
  proof -
    have "i - l < k" using that r by simp
    with k(4) have "\<not> P ([l..<n] ! (i - l))" by blast
    with that r k(1) show ?thesis by simp
  qed
  with k r show ?thesis by auto
qed

lemma find_first_of_None:
  "find_first_of s seps l = None \<Longrightarrow> \<forall>c \<in> set (drop l s). c \<notin> set seps"
  by (fastforce simp: find_first_of_def find_None_iff in_set_conv_nth[of _ "drop l s"])

lemma find_first_of_Some:
  assumes "find_first_of s seps l = Some r"
  shows "l \<le> r" "r < length s" "s ! r \<in> set seps" "\<forall>c \<in> set (take (r - l) (drop l s)). c \<notin> set seps"
proof -
  from assms have *: "l \<le> r \<and> r < length s \<and> s ! r \<in> set seps
      \<and> (\<forall>i. l \<le> i \<and> i < r \<longrightarrow> s ! i \<notin> set seps)"
    unfolding find_first_of_def by (rule find_upt_SomeD)
  then show "l \<le> r" "r < length s" "s ! r \<in> set seps" by auto
  show "\<forall>c \<in> set (take (r - l) (drop l s)). c \<notin> set seps"
    using * by (auto simp: in_set_conv_nth[of _ "take (r - l) (drop l s)"])
qed

lemma find_first_of_eq_None_iff:
  "find_first_of s seps 0 = None \<longleftrightarrow> (\<forall>c \<in> set s. c \<notin> set seps)"
  by (fastforce simp: find_first_of_def find_None_iff in_set_conv_nth[of _ s])

section \<open>strip\<close>

text \<open>
  The two \<^verbatim>\<open>while\<close> loops of \<^verbatim>\<open>Util::strip\<close>. The indices stay inside the string, so
  \<^verbatim>\<open>str.at\<close> does not throw.
\<close>

function strip_left :: "string \<Rightarrow> nat \<Rightarrow> nat \<Rightarrow> nat" where
  "strip_left s i j = (if i < j \<and> isspace (s ! i) then strip_left s (i + 1) j else i)"
  by pat_completeness auto
termination
  by (relation "measure (\<lambda>(s, i, j). j - i)") auto

fun strip_right :: "string \<Rightarrow> nat \<Rightarrow> nat \<Rightarrow> nat" where
  "strip_right s i j = (if j > i \<and> isspace (s ! j) then strip_right s i (j - 1) else j)"

declare strip_left.simps [simp del] strip_right.simps [simp del]

definition strip :: "string \<Rightarrow> string" where
  "strip str =
     (if length str = 0 then []
      else let i = strip_left str 0 (length str - 1)
           in if i = length str - 1 then []
              else let j = strip_right str i (length str - 1)
                   in take (j - i + 1) (drop i str))"

text \<open>What trimming white space on both sides means.\<close>

definition trim :: "string \<Rightarrow> string" where
  "trim s = rev (dropWhile isspace (rev (dropWhile isspace s)))"

lemma strip_left_spec:
  "i \<le> j \<Longrightarrow> i \<le> strip_left s i j \<and> strip_left s i j \<le> j
     \<and> (\<forall>k. i \<le> k \<and> k < strip_left s i j \<longrightarrow> isspace (s ! k))
     \<and> (strip_left s i j < j \<longrightarrow> \<not> isspace (s ! strip_left s i j))"
proof (induction s i j rule: strip_left.induct)
  case (1 s i j)
  show ?case
  proof (cases "i < j \<and> isspace (s ! i)")
    case True
    with 1 have IH: "i + 1 \<le> strip_left s (i + 1) j \<and> strip_left s (i + 1) j \<le> j
      \<and> (\<forall>k. i + 1 \<le> k \<and> k < strip_left s (i + 1) j \<longrightarrow> isspace (s ! k))
      \<and> (strip_left s (i + 1) j < j \<longrightarrow> \<not> isspace (s ! strip_left s (i + 1) j))"
      by simp
    have eq: "strip_left s i j = strip_left s (i + 1) j"
      using True by (simp add: strip_left.simps[of s i j])
    have "isspace (s ! k)" if "i \<le> k" "k < strip_left s (i + 1) j" for k
      using that IH True by (cases "k = i") auto
    with IH eq show ?thesis by auto
  next
    case False
    with 1 show ?thesis by (auto simp: strip_left.simps[of s i j])
  qed
qed

lemma strip_right_spec:
  "i \<le> j \<Longrightarrow> i \<le> strip_right s i j \<and> strip_right s i j \<le> j
     \<and> (\<forall>k. strip_right s i j < k \<and> k \<le> j \<longrightarrow> isspace (s ! k))
     \<and> (i < strip_right s i j \<longrightarrow> \<not> isspace (s ! strip_right s i j))"
proof (induction s i j rule: strip_right.induct)
  case (1 s i j)
  show ?case
  proof (cases "j > i \<and> isspace (s ! j)")
    case True
    then have "i < j" ..
    then have "i \<le> j - 1" by arith
    with "1.IH" True have IH: "i \<le> strip_right s i (j - 1) \<and> strip_right s i (j - 1) \<le> j - 1
      \<and> (\<forall>k. strip_right s i (j - 1) < k \<and> k \<le> j - 1 \<longrightarrow> isspace (s ! k))
      \<and> (i < strip_right s i (j - 1) \<longrightarrow> \<not> isspace (s ! strip_right s i (j - 1)))"
      by blast
    have eq: "strip_right s i j = strip_right s i (j - 1)"
      using True by (simp add: strip_right.simps[of s i j])
    have "isspace (s ! k)" if "strip_right s i (j - 1) < k" "k \<le> j" for k
      using that IH True by (cases "k = j") auto
    with IH eq show ?thesis by auto
  next
    case False
    with 1 show ?thesis by (auto simp: strip_right.simps[of s i j])
  qed
qed

lemma dropWhile_eq_drop:
  assumes "n \<le> length s" "\<forall>k < n. P (s ! k)" "n < length s \<Longrightarrow> \<not> P (s ! n)"
  shows "dropWhile P s = drop n s"
  using assms
proof (induction n arbitrary: s)
  case 0
  then show ?case by (cases s) auto
next
  case (Suc n)
  then obtain c cs where s: "s = c # cs" by (cases s) auto
  with Suc.prems have "P c" and IH: "\<forall>k < n. P (cs ! k)" "n \<le> length cs"
    by force+
  with Suc.IH[of cs] Suc.prems s show ?case by simp
qed

lemma rev_dropWhile_eq_take:
  assumes "n \<le> length s" "\<forall>k. n \<le> k \<and> k < length s \<longrightarrow> P (s ! k)" "0 < n \<Longrightarrow> \<not> P (s ! (n - 1))"
  shows "rev (dropWhile P (rev s)) = take n s"
proof -
  have "dropWhile P (rev s) = drop (length s - n) (rev s)"
  proof (rule dropWhile_eq_drop)
    show "\<forall>k < length s - n. P (rev s ! k)"
    proof (intro allI impI)
      fix k assume "k < length s - n"
      then have "n \<le> length s - Suc k" "length s - Suc k < length s" by arith+
      with assms(2) \<open>k < length s - n\<close> show "P (rev s ! k)" by (simp add: rev_nth)
    qed
    show "\<not> P (rev s ! (length s - n))" if "length s - n < length (rev s)"
      using that assms by (simp add: rev_nth Suc_diff_Suc)
  qed simp
  then show ?thesis using assms(1) by (simp add: drop_rev)
qed

text \<open>
  \<^verbatim>\<open>strip\<close> is trimming, except that it returns the empty string whenever every character
  but the last is white space: a string that ends in its only significant character
  loses it.
\<close>

lemma strip_eq_trim:
  "strip s = (if \<forall>c \<in> set (butlast s). isspace c then [] else trim s)"
proof (cases "s = []")
  case True
  then show ?thesis by (simp add: strip_def)
next
  case ne: False
  define n where "n = length s - 1"
  define i where "i = strip_left s 0 n"
  have len: "length s = Suc n" using ne by (simp add: n_def)
  have i: "i \<le> n" "\<forall>k < i. isspace (s ! k)" "i < n \<Longrightarrow> \<not> isspace (s ! i)"
    using strip_left_spec[of 0 n s] by (auto simp: i_def)
  show ?thesis
  proof (cases "i = n")
    case True
    have "\<forall>c \<in> set (butlast s). isspace c"
      using i(2) True len by (auto simp: in_set_conv_nth nth_butlast)
    with True show ?thesis by (simp add: strip_def Let_def i_def n_def)
  next
    case False
    then have lt: "i < n" using i(1) by simp
    define j where "j = strip_right s i n"
    have j: "i \<le> j" "j \<le> n" "\<forall>k. j < k \<and> k \<le> n \<longrightarrow> isspace (s ! k)" "i < j \<Longrightarrow> \<not> isspace (s ! j)"
      using strip_right_spec[of i n s] lt by (auto simp: j_def)
    have nsp: "\<not> isspace (s ! i)" using i(3) lt by simp
    have "s ! i \<in> set (butlast s)"
      using lt len by (auto simp: in_set_conv_nth nth_butlast intro!: exI[of _ i])
    with nsp have nall: "\<not> (\<forall>c \<in> set (butlast s). isspace c)" by blast
    have dw: "dropWhile isspace s = drop i s"
      using i lt len by (intro dropWhile_eq_drop) auto
    have "rev (dropWhile isspace (rev (drop i s))) = take (j - i + 1) (drop i s)"
    proof (rule rev_dropWhile_eq_take)
      show "\<forall>k. j - i + 1 \<le> k \<and> k < length (drop i s) \<longrightarrow> isspace (drop i s ! k)"
      proof (intro allI impI)
        fix k assume "j - i + 1 \<le> k \<and> k < length (drop i s)"
        then have "j < i + k" "i + k \<le> n" using j(1) len by auto
        with j(3) show "isspace (drop i s ! k)" using len by simp
      qed
      show "\<not> isspace (drop i s ! (j - i + 1 - 1))"
        using j nsp len by (cases "i = j") auto
    qed (use j len in auto)
    then have "trim s = take (j - i + 1) (drop i s)" by (simp add: trim_def dw)
    with False ne have "strip s = trim s"
      by (simp add: strip_def Let_def i_def j_def n_def)
    then show ?thesis by (simp only: if_not_P[OF nall])
  qed
qed

lemma strip_id:
  assumes "2 \<le> length s" "\<not> isspace (hd s)" "\<not> isspace (last s)"
  shows "strip s = s"
proof -
  from assms(1) obtain c d cs where s: "s = c # d # cs"
    by (cases s; cases "tl s") auto
  then have "c \<in> set (butlast s)" by simp
  moreover have "\<not> isspace c" using assms(2) s by simp
  ultimately have nall: "\<not> (\<forall>x \<in> set (butlast s). isspace x)" by blast
  have "trim s = s"
  proof -
    have "dropWhile isspace s = s" using assms(2) s by simp
    moreover have "dropWhile isspace (rev s) = rev s"
      using assms(3) s by (cases "rev s") (auto simp: hd_rev[symmetric])
    ultimately show ?thesis by (simp add: trim_def)
  qed
  then show ?thesis by (simp only: strip_eq_trim if_not_P[OF nall])
qed

section \<open>split\<close>

text \<open>
  The loop of \<^verbatim>\<open>Util::split\<close> with its local \<^verbatim>\<open>l\<close> and its accumulator \<^verbatim>\<open>arr\<close>; every
  branch either ends the loop or moves \<^verbatim>\<open>l\<close> to the right.
\<close>

function split_loop :: "string \<Rightarrow> string \<Rightarrow> nat \<Rightarrow> string list \<Rightarrow> string list" where
  "split_loop str seps l arr =
     (if l < length str then
        (case find_first_of str seps l of
           Some r \<Rightarrow>
             (if r = l then split_loop str seps (l + 1) arr
              else split_loop str seps (r + 1) (arr @ [take (r - l) (drop l str)]))
         | None \<Rightarrow> arr @ [drop l str])
      else arr)"
  by pat_completeness auto
termination
  by (relation "measure (\<lambda>(str, seps, l, arr). length str - l)")
     (auto dest: find_first_of_Some)

declare split_loop.simps [simp del]

definition split :: "string \<Rightarrow> string \<Rightarrow> string list" where
  "split str seps = split_loop str seps 0 []"

lemma split_loop_tokens:
  "split_loop str seps l arr = arr @ tokens (\<lambda>c. c \<in> set seps) (drop l str)"
proof (induction str seps l arr rule: split_loop.induct)
  case (1 str seps l arr)
  show ?case
  proof (cases "l < length str")
    case False
    then show ?thesis by (simp add: split_loop.simps[of str seps l])
  next
    case lt: True
    then have drop: "drop l str = str ! l # drop (l + 1) str"
      by (simp add: Cons_nth_drop_Suc)
    show ?thesis
    proof (cases "find_first_of str seps l")
      case None
      then have "\<forall>c \<in> set (drop l str). \<not> c \<in> set seps" by (rule find_first_of_None)
      then have "tokens (\<lambda>c. c \<in> set seps) (drop l str) = [drop l str]"
        using lt by (intro tokens_single) auto
      with lt None show ?thesis by (simp add: split_loop.simps[of str seps l])
    next
      case (Some r)
      note r = find_first_of_Some[OF Some]
      show ?thesis
      proof (cases "r = l")
        case True
        with 1 lt Some have "split_loop str seps (l + 1) arr
            = arr @ tokens (\<lambda>c. c \<in> set seps) (drop (l + 1) str)" by simp
        with True r(3) drop lt Some show ?thesis
          by (simp add: split_loop.simps[of str seps l])
      next
        case False
        define x where "x = take (r - l) (drop l str)"
        have IH: "split_loop str seps (r + 1) (arr @ [x])
            = (arr @ [x]) @ tokens (\<lambda>c. c \<in> set seps) (drop (r + 1) str)"
          using 1 lt Some False x_def by simp
        have "drop l str = x @ drop r str"
          using r(1) unfolding x_def by (metis append_take_drop_id drop_drop le_add_diff_inverse2)
        also have "drop r str = str ! r # drop (r + 1) str"
          using r(2) by (simp add: Cons_nth_drop_Suc)
        finally have eq: "drop l str = x @ str ! r # drop (r + 1) str" .
        have "x \<noteq> []" "\<forall>c \<in> set x. \<not> c \<in> set seps"
          using r False by (auto simp: x_def)
        then have "tokens (\<lambda>c. c \<in> set seps) (drop l str)
            = x # tokens (\<lambda>c. c \<in> set seps) (drop (r + 1) str)"
          unfolding eq using r(3) by (rule tokens_sep_append)
        with IH lt Some False show ?thesis
          by (simp add: split_loop.simps[of str seps l] x_def)
      qed
    qed
  qed
qed

lemma split_eq_tokens: "split str seps = tokens (\<lambda>c. c \<in> set seps) str"
  by (simp add: split_def split_loop_tokens)

lemma split_nonempty:
  "t \<in> set (split str seps) \<Longrightarrow> t \<noteq> [] \<and> (\<forall>c \<in> set t. c \<notin> set seps)"
  unfolding split_eq_tokens by (rule tokens_nonempty)

lemma split_join:
  "\<forall>x \<in> set xs. x \<noteq> [] \<and> d \<notin> set x \<Longrightarrow> split (join [d] xs) [d] = xs"
  unfolding split_eq_tokens by (rule tokens_join) auto

lemma split_pair:
  "a \<noteq> [] \<Longrightarrow> b \<noteq> [] \<Longrightarrow> d \<notin> set a \<Longrightarrow> d \<notin> set b \<Longrightarrow> split (a @ d # b) [d] = [a, b]"
  using split_join[of "[a, b]" d] by auto

section \<open>Case conversion\<close>

definition toLowerCase :: "string \<Rightarrow> string" where
  "toLowerCase str = map tolower str"

definition toUpperCase :: "string \<Rightarrow> string" where
  "toUpperCase str = map toupper str"

lemma length_toLowerCase [simp]: "length (toLowerCase s) = length s"
  by (simp add: toLowerCase_def)

lemma toLowerCase_idem [simp]: "toLowerCase (toLowerCase s) = toLowerCase s"
  by (simp add: toLowerCase_def)

lemma toLowerCase_append [simp]: "toLowerCase (a @ b) = toLowerCase a @ toLowerCase b"
  by (simp add: toLowerCase_def)

lemma toLowerCase_id: "\<forall>c \<in> set s. \<not> isupper c \<Longrightarrow> toLowerCase s = s"
  by (simp add: toLowerCase_def map_idI)

end
