(* ===== verification/Config_Rules.thy ===== *)
theory Config_Rules
  imports Str_Util
begin

text \<open>
  \<^verbatim>\<open>tinyorm/conf.h\<close>: the \<^verbatim>\<open>Config\<close> singleton that holds the parsed \<^verbatim>\<open>rules.json\<close>, and
  the rule file itself (\<^verbatim>\<open>tinyorm/rules.json\<close>). Parsing JSON text is the vendored
  nlohmann library; what is modelled of it is the value type and the two operations
  the sources use, \<^verbatim>\<open>operator[]\<close> on a mutable value and \<^verbatim>\<open>get\<close>, as its manual
  documents them.
\<close>

datatype json =
    JNull
  | JString string
  | JArray "json list"
  | JObject "(string \<times> json) list"
  | JOther

text \<open>
  \<^verbatim>\<open>operator[](key)\<close>: a missing key of an object, or any key of null, is inserted with
  the value null; on a value of another kind it throws \<^verbatim>\<open>type_error\<close>.
\<close>

fun json_at :: "json \<Rightarrow> string \<Rightarrow> json res" where
  "json_at (JObject m) k = Inr (case map_of m k of None \<Rightarrow> JNull | Some v \<Rightarrow> v)"
| "json_at JNull k = Inr JNull"
| "json_at _ k = Inl Type_Error"

fun json_touch :: "json \<Rightarrow> string \<Rightarrow> json" where
  "json_touch (JObject m) k = JObject (if k \<in> fst ` set m then m else m @ [(k, JNull)])"
| "json_touch JNull k = JObject [(k, JNull)]"
| "json_touch j k = j"

text \<open>\<^verbatim>\<open>get<std::string>\<close> and \<^verbatim>\<open>get<std::vector<std::string>>\<close>.\<close>

fun json_string :: "json \<Rightarrow> string res" where
  "json_string (JString s) = Inr s"
| "json_string _ = Inl Type_Error"

fun json_strings :: "json \<Rightarrow> string list res" where
  "json_strings (JArray js) = rmapM json_string js"
| "json_strings _ = Inl Type_Error"

text \<open>
  The class \<^verbatim>\<open>Config\<close>: a static pointer \<^verbatim>\<open>instance\<close>, set by the first \<^verbatim>\<open>getInstance\<close>
  to an object holding what \<^verbatim>\<open>json::parse\<close> returns for the rule file. \<open>parsed\<close> is that
  result (a fault when parsing throws); the double check under the lock makes the
  function atomic for concurrent callers.
\<close>

record config =
  config_json :: json

definition Config_getInstance :: "json res \<Rightarrow> config option \<Rightarrow> (config \<times> config option) res" where
  "Config_getInstance parsed inst =
     (case inst of
        Some c \<Rightarrow> Inr (c, inst)
      | None \<Rightarrow> rbind parsed (\<lambda>j. let c = \<lparr>config_json = j\<rparr> in Inr (c, Some c)))"

text \<open>\<^verbatim>\<open>Config::operator[]\<close> returns a copy of the entry and may insert a null.\<close>

definition config_index :: "config \<Rightarrow> string \<Rightarrow> (json \<times> config) res" where
  "config_index c key =
     rmap (\<lambda>v. (v, c\<lparr>config_json := json_touch (config_json c) key\<rparr>)) (json_at (config_json c) key)"

lemma getInstance_once:
  "Config_getInstance parsed inst = Inr (c, inst') \<Longrightarrow> Config_getInstance parsed' inst' = Inr (c, inst')"
  by (auto simp: Config_getInstance_def rbind_eq_Inr_iff Let_def split: option.splits)

lemma json_touch_at: "json_at j k = Inr v \<Longrightarrow> json_at (json_touch j k) k' = Inr v' \<Longrightarrow>
    json_at j k' = Inr v'"
  by (cases j) (auto simp: map_add_def split: if_splits option.splits)

text \<open>
  The path \<^verbatim>\<open>(*conf)["mysql"][section][key]\<close> that every lookup of the naming functions
  follows.
\<close>

definition rule_at :: "json \<Rightarrow> string \<Rightarrow> string \<Rightarrow> json res" where
  "rule_at conf section key =
     rbind (json_at conf ''mysql'') (\<lambda>m. rbind (json_at m section) (\<lambda>s. json_at s key))"

section \<open>The rule file\<close>

definition same_types_rules :: "(string \<times> string list) list" where
  "same_types_rules =
    [(''int'', [''integer'', ''int'', ''int(11)'']),
     (''tin'', [''tinyint'', ''tinyint(4)'']),
     (''sma'', [''smallint'', ''smallint(6)'']),
     (''med'', [''mediumint'', ''mediumint(9)'']),
     (''big'', [''bigint'', ''bigint(20)'']),
     (''yea'', [''year'', ''year(4)''])]"

definition default_types_rules :: "(string \<times> string) list" where
  "default_types_rules =
    [(''bool'', ''tinyint''),
     (''short'', ''smallint''),
     (''int'', ''integer''),
     (''long long'', ''bigint''),
     (''float'', ''float''),
     (''double'', ''double''),
     (''char'', ''char''),
     (''string'', ''varchar(255)''),
     (''std::string'', ''varchar(255)''),
     (''Timestamp'', ''timestamp'')]"

definition db_cpp_types_rules :: "(string \<times> string) list" where
  "db_cpp_types_rules =
    [(''timestamp'', ''Timestamp''),
     (''datetime'', ''Timestamp''),
     (''time'', ''Timestamp''),
     (''date'', ''Timestamp''),
     (''year'', ''Timestamp''),
     (''tinytext'', ''std::string''),
     (''mediumtext'', ''std::string''),
     (''text'', ''std::string''),
     (''longtext'', ''std::string''),
     (''tinyblob'', ''std::string''),
     (''mediumblob'', ''std::string''),
     (''blob'', ''std::string''),
     (''longblob'', ''std::string''),
     (''varchar'', ''std::string''),
     (''int'', ''int''),
     (''mediumint'', ''int''),
     (''tinyint'', ''bool''),
     (''smallint'', ''short''),
     (''bigint'', ''long long''),
     (''float'', ''float''),
     (''double'', ''double''),
     (''decimal'', ''double''),
     (''char'', ''char'')]"

definition rules_json :: json where
  "rules_json = JObject [(''mysql'', JObject
     [(''same_types'', JObject (map (\<lambda>(k, ts). (k, JArray (map JString ts))) same_types_rules)),
      (''default_types'', JObject (map (\<lambda>(k, t). (k, JString t)) default_types_rules)),
      (''db_cpp_types'', JObject (map (\<lambda>(k, t). (k, JString t)) db_cpp_types_rules))])]"

lemma map_of_map_value: "map_of (map (\<lambda>(k, v). (k, f v)) m) k = map_option f (map_of m k)"
  by (induction m) auto

lemma rules_same_types:
  "rule_at rules_json ''same_types'' k =
     Inr (case map_of same_types_rules k of None \<Rightarrow> JNull | Some ts \<Rightarrow> JArray (map JString ts))"
  by (simp add: rule_at_def rules_json_def map_of_map_value split: option.splits)

lemma rules_default_types:
  "rule_at rules_json ''default_types'' k =
     Inr (case map_of default_types_rules k of None \<Rightarrow> JNull | Some t \<Rightarrow> JString t)"
  by (simp add: rule_at_def rules_json_def map_of_map_value split: option.splits)

lemma rules_db_cpp_types:
  "rule_at rules_json ''db_cpp_types'' k =
     Inr (case map_of db_cpp_types_rules k of None \<Rightarrow> JNull | Some t \<Rightarrow> JString t)"
  by (simp add: rule_at_def rules_json_def map_of_map_value split: option.splits)

lemma rmapM_JString [simp]: "rmapM json_string (map JString ts) = Inr ts"
  by (induction ts) auto

lemma json_strings_JString: "json_strings (JArray (map JString ts)) = Inr ts"
  by simp

end
