(* ===== verification/Naming.thy ===== *)
theory Naming
  imports Config_Rules
begin

text \<open>
  \<^verbatim>\<open>tinyorm/naming.h\<close>: conversions between the names of C++ members and of columns,
  and the type tables. Functions that read the rule file take its JSON value.
\<close>

section \<open>cppToDb\<close>

text \<open>
  The loop of \<^verbatim>\<open>cppToDb\<close> with its locals \<^verbatim>\<open>i\<close>, \<^verbatim>\<open>flag\<close>, \<^verbatim>\<open>l\<close> and \<^verbatim>\<open>res\<close>;
  it returns \<^verbatim>\<open>l\<close> and \<^verbatim>\<open>res\<close> for the code after the loop.
\<close>

function cppToDb_loop :: "string \<Rightarrow> nat \<Rightarrow> bool \<Rightarrow> nat \<Rightarrow> string \<Rightarrow> nat \<times> string" where
  "cppToDb_loop name i flag l res =
     (if i < length name then
        let flag = (if \<not> isupper (name ! i) then False else flag)
        in if \<not> flag \<and> isupper (name ! i) then
             let sub = toLowerCase (take (i - l) (drop l name));
                 res = (if length res > 0 then res @ ''_'' else res)
             in cppToDb_loop name (i + 1) True i (res @ sub)
           else cppToDb_loop name (i + 1) flag l res
      else (l, res))"
  by pat_completeness auto
termination
  by (relation "measure (\<lambda>(name, i, flag, l, res). length name - i)") auto

declare cppToDb_loop.simps [simp del]

definition cppToDb :: "string \<Rightarrow> string" where
  "cppToDb name =
     (if length name = 0 then []
      else let (l, res) = cppToDb_loop name 0 True 0 [];
               sub = toLowerCase (drop l name);
               res = (if length res > 0 then res @ ''_'' else res)
           in res @ sub)"

text \<open>
  The reference: every letter is lowered, and an underscore is put before an upper-case
  letter whose predecessor is not upper case. The flag says whether the previous
  character exists and is not upper case.
\<close>

fun snake :: "bool \<Rightarrow> string \<Rightarrow> string" where
  "snake p [] = []"
| "snake p (c # cs) = (if p \<and> isupper c then ''_'' else []) @ tolower c # snake (\<not> isupper c) cs"

lemma snake_append_nonupper:
  "snake p (x @ y) = snake p x @ snake (if x = [] then p else \<not> isupper (last x)) y"
  by (induction p x rule: snake.induct) auto

definition glue :: "string \<Rightarrow> string" where
  "glue res = (if length res > 0 then res @ ''_'' else res)"

lemma cppToDb_loop_snake:
  assumes "l \<le> i" "i \<le> length name" "\<not> flag \<Longrightarrow> l < i"
  shows "(let (l', res') = cppToDb_loop name i flag l res in glue res' @ toLowerCase (drop l' name))
     = glue res @ toLowerCase (take (i - l) (drop l name)) @ snake (\<not> flag) (drop i name)"
  using assms
proof (induction name i flag l res rule: cppToDb_loop.induct)
  case (1 name i flag l res)
  show ?case
  proof (cases "i < length name")
    case False
    with 1 have "i = length name" by simp
    then show ?thesis by (simp add: cppToDb_loop.simps[of name "length name"])
  next
    case lt: True
    define c where "c = name ! i"
    define rest where "rest = drop (i + 1) name"
    have drop_i: "drop i name = c # rest"
      using lt by (simp add: c_def rest_def Cons_nth_drop_Suc)
    have take_Suc: "take (i + 1 - l) (drop l name) = take (i - l) (drop l name) @ [c]"
      using 1(3) lt by (simp add: Suc_diff_le take_Suc_conv_app_nth c_def)
    show ?thesis
    proof (cases "\<not> flag \<and> isupper c")
      case True
      define sub where "sub = toLowerCase (take (i - l) (drop l name))"
      have "sub \<noteq> []" using True 1(5) lt by (auto simp: sub_def toLowerCase_def)
      have step: "cppToDb_loop name i flag l res = cppToDb_loop name (i + 1) True i (glue res @ sub)"
        using True lt by (simp add: cppToDb_loop.simps[of name i] Let_def glue_def sub_def c_def)
      have "(let (l', res') = cppToDb_loop name (i + 1) True i (glue res @ sub)
             in glue res' @ toLowerCase (drop l' name))
        = glue (glue res @ sub) @ toLowerCase (take (i + 1 - i) (drop i name)) @ snake (\<not> True) rest"
        using "1.IH"(1)[OF lt refl _ refl refl, folded c_def glue_def sub_def] True "1.prems" lt
        by (simp add: rest_def)
      also have "\<dots> = glue res @ sub @ snake (\<not> flag) (drop i name)"
        using True \<open>sub \<noteq> []\<close> drop_i by (simp add: glue_def toLowerCase_def)
      finally show ?thesis by (simp only: step sub_def)
    next
      case False
      define flag' where "flag' = (if \<not> isupper c then False else flag)"
      have step: "cppToDb_loop name i flag l res = cppToDb_loop name (i + 1) flag' l res"
        using False lt by (auto simp: cppToDb_loop.simps[of name i] Let_def c_def flag'_def)
      have "(let (l', res') = cppToDb_loop name (i + 1) flag' l res
             in glue res' @ toLowerCase (drop l' name))
        = glue res @ toLowerCase (take (i + 1 - l) (drop l name)) @ snake (\<not> flag') rest"
        using 1(2)[OF lt refl, folded c_def, folded flag'_def] False lt 1(3,4)
        by (auto simp: flag'_def rest_def)
      also have "\<dots> = glue res @ toLowerCase (take (i - l) (drop l name)) @ snake (\<not> flag) (drop i name)"
        unfolding take_Suc drop_i using False by (auto simp: toLowerCase_def flag'_def)
      finally show ?thesis by (simp only: step)
    qed
  qed
qed

lemma cppToDb_snake: "cppToDb name = snake False name"
  using cppToDb_loop_snake[of 0 0 name True "[]"]
  by (cases name) (auto simp: cppToDb_def glue_def Let_def toLowerCase_def split: prod.splits)

lemma not_isupper_underscore [simp]: "\<not> isupper (CHR ''_'')"
  by (simp add: isupper_def chr_code_def)

lemma snake_not_upper: "\<forall>c \<in> set (snake p s). \<not> isupper c"
  by (induction p s rule: snake.induct) auto

section \<open>dbToCpp\<close>

text \<open>\<^verbatim>\<open>res.replace(0, 1, std::string(1, res.at(0) - 32))\<close> on a lower-case first letter.\<close>

definition capitalize :: "string \<Rightarrow> string" where
  "capitalize str =
     (if length str = 0 then []
      else if islower (hd str) then char_of (chr_code (hd str) - 32) # tl str else str)"

fun dbToCpp_loop :: "bool \<Rightarrow> nat \<Rightarrow> string list \<Rightarrow> string \<Rightarrow> string" where
  "dbToCpp_loop cap_ini i [] res = res"
| "dbToCpp_loop cap_ini i (w # v) res =
     dbToCpp_loop cap_ini (i + 1) v (res @ (if cap_ini \<or> i > 0 then capitalize w else w))"

definition dbToCpp :: "string \<Rightarrow> bool \<Rightarrow> string" where
  "dbToCpp name cap_ini =
     (if length name = 0 then [] else dbToCpp_loop cap_ini 0 (split name ''_'') [])"

text \<open>The reference: underscores are dropped and the letter after one is raised.\<close>

fun camel :: "bool \<Rightarrow> string \<Rightarrow> string" where
  "camel up [] = []"
| "camel up (c # cs) = (if c = CHR ''_'' then camel True cs
     else (if up then toupper c else c) # camel False cs)"

lemma capitalize_Cons: "capitalize (c # cs) = toupper c # cs"
  by (simp add: capitalize_def toupper_def)

lemma dbToCpp_loop_append:
  "dbToCpp_loop cap i v res = res @ dbToCpp_loop cap i v []"
proof (induction v arbitrary: i res)
  case (Cons w v)
  show ?case
    using Cons[of "i + 1" "res @ (if cap \<or> i > 0 then capitalize w else w)"]
      Cons[of "i + 1" "if cap \<or> i > 0 then capitalize w else w"] by simp
qed simp

lemma camel_no_sep: "CHR ''_'' \<notin> set w \<Longrightarrow> camel False (w @ s) = w @ camel False s"
  by (induction w) auto

lemma underscore_split:
  assumes "c \<noteq> CHR ''_''"
  obtains w r where
    "tokens (\<lambda>c. c = CHR ''_'') (c # cs) = (c # w) # tokens (\<lambda>c. c = CHR ''_'') r"
    "camel up (c # cs) = (if up then toupper c else c) # w @ camel True r"
    "r = dropWhile (\<lambda>x. x \<noteq> CHR ''_'') cs"
proof -
  define w where "w = takeWhile (\<lambda>x. x \<noteq> CHR ''_'') cs"
  define r where "r = dropWhile (\<lambda>x. x \<noteq> CHR ''_'') cs"
  have "CHR ''_'' \<notin> set w" by (auto simp: w_def dest: set_takeWhileD)
  then have "camel False cs = w @ camel False r"
    using camel_no_sep[of w r] by (simp add: w_def r_def)
  moreover have "camel False r = camel True r"
  proof (cases r)
    case (Cons a as)
    then have "dropWhile (\<lambda>x. x \<noteq> CHR ''_'') cs \<noteq> []" by (simp add: r_def)
    from hd_dropWhile[OF this] Cons have "a = CHR ''_''" by (simp add: r_def[symmetric])
    with Cons show ?thesis by simp
  qed simp
  ultimately have "camel up (c # cs) = (if up then toupper c else c) # w @ camel True r"
    using assms by simp
  moreover have "tokens (\<lambda>c. c = CHR ''_'') (c # cs) = (c # w) # tokens (\<lambda>c. c = CHR ''_'') r"
    using assms by (simp add: w_def r_def)
  ultimately show thesis using that r_def by blast
qed

lemma dbToCpp_loop_camel:
  "0 < i \<or> cap \<Longrightarrow> dbToCpp_loop cap i (tokens (\<lambda>c. c = CHR ''_'') s) [] = camel True s"
proof (induction "\<lambda>c. c = CHR ''_''" s arbitrary: i rule: tokens.induct)
  case (2 c cs)
  show ?case
  proof (cases "c = CHR ''_''")
    case True
    with 2 show ?thesis by simp
  next
    case False
    from False obtain w r where wr:
      "tokens (\<lambda>c. c = CHR ''_'') (c # cs) = (c # w) # tokens (\<lambda>c. c = CHR ''_'') r"
      "camel True (c # cs) = toupper c # w @ camel True r"
      "r = dropWhile (\<lambda>x. x \<noteq> CHR ''_'') cs"
      by (rule underscore_split[of c cs True]) auto
    have IH: "dbToCpp_loop cap (i + 1) (tokens (\<lambda>c. c = CHR ''_'') r) [] = camel True r"
      using 2(2)[OF False, of "i + 1"] by (simp add: wr(3))
    have "dbToCpp_loop cap i ((c # w) # tokens (\<lambda>c. c = CHR ''_'') r) []
        = capitalize (c # w) @ dbToCpp_loop cap (i + 1) (tokens (\<lambda>c. c = CHR ''_'') r) []"
      using 2(3) dbToCpp_loop_append[of cap "i + 1" _ "capitalize (c # w)"] by auto
    then show ?thesis using IH wr by (simp add: capitalize_Cons)
  qed
qed simp

lemma dbToCpp_camel:
  assumes "cap \<or> name = [] \<or> hd name \<noteq> CHR ''_''"
  shows "dbToCpp name cap = camel cap name"
proof (cases "name = [] \<or> cap")
  case True
  then show ?thesis
    using dbToCpp_loop_camel[of 0 cap name] by (auto simp: dbToCpp_def split_eq_tokens)
next
  case False
  then obtain c cs where name: "name = c # cs" "c \<noteq> CHR ''_''" "\<not> cap"
    using assms by (cases name) auto
  from name(2) obtain w r where wr:
    "tokens (\<lambda>c. c = CHR ''_'') (c # cs) = (c # w) # tokens (\<lambda>c. c = CHR ''_'') r"
    "camel False (c # cs) = c # w @ camel True r"
    by (rule underscore_split[of c cs False]) auto
  have "dbToCpp_loop cap 0 ((c # w) # tokens (\<lambda>c. c = CHR ''_'') r) [] = (c # w) @ camel True r"
    using dbToCpp_loop_append[of cap 1 _ "c # w"] dbToCpp_loop_camel[of 1 cap r] name(3) by simp
  with wr name show ?thesis by (simp add: dbToCpp_def split_eq_tokens)
qed

section \<open>Round trips between the two namings\<close>

text \<open>
  Names in camel case: no underscore, and an upper-case letter only directly after a
  character that is not upper case.
\<close>

fun humped :: "bool \<Rightarrow> string \<Rightarrow> bool" where
  "humped p [] = True"
| "humped p (c # cs) = (c \<noteq> CHR ''_'' \<and> (isupper c \<longrightarrow> p) \<and> humped (\<not> isupper c) cs)"

text \<open>
  Column names in snake case: no upper-case letter, every underscore is followed by a
  lower-case letter, and two underscores are at least three characters apart. The flag
  says that the previous character is the letter after an underscore.
\<close>

fun snaked :: "bool \<Rightarrow> string \<Rightarrow> bool" where
  "snaked q [] = True"
| "snaked q [c] = (c \<noteq> CHR ''_'' \<and> \<not> isupper c)"
| "snaked q (c # d # cs) =
     (if c = CHR ''_'' then \<not> q \<and> islower d \<and> snaked True cs
      else \<not> isupper c \<and> snaked False (d # cs))"

lemma islower_not_underscore: "islower c \<Longrightarrow> c \<noteq> CHR ''_''"
  by (auto simp: islower_def chr_code_def)

lemma camel_snake: "humped p s \<Longrightarrow> camel False (snake p s) = s"
  by (induction p s rule: snake.induct)
    (auto simp: toupper_tolower dest: islower_tolower islower_not_underscore)

lemma snake_camel: "snaked q s \<Longrightarrow> snake (\<not> q) (camel False s) = s"
proof (induction q s rule: snaked.induct)
  case (3 q c d cs)
  then show ?case
    by (auto simp: isupper_toupper tolower_toupper dest: islower_not_underscore split: if_splits)
qed auto

section \<open>The type tables\<close>

definition isSameDbType :: "json \<Rightarrow> string \<Rightarrow> string \<Rightarrow> bool" where
  "isSameDbType conf type1 type2 =
     (case rbind (rule_at conf ''same_types'' (take 3 type1)) json_strings of
        Inl _ \<Rightarrow> type1 = type2
      | Inr types \<Rightarrow>
          if List.member types type1 then List.member types type2 else type1 = type2)"

text \<open>
  \<^verbatim>\<open>isSame\<close>: the last \<^verbatim>\<open>if\<close> has no \<^verbatim>\<open>else\<close>, and the function then flows off its end,
  which is undefined behaviour for a function that returns \<^verbatim>\<open>bool\<close>.
\<close>

definition isSame :: "string \<Rightarrow> string \<Rightarrow> bool res" where
  "isSame s1 s2 =
     (let l1 = toLowerCase s1; l2 = toLowerCase s2
      in if s1 = s2 then Inr True
         else if l1 = ''now()'' then Inr (l2 = ''current_timestamp'')
         else if l2 = ''now()'' then Inr (l1 = ''current_timestamp'')
         else Inl UB)"

definition cppTypeToDbType :: "json \<Rightarrow> string \<Rightarrow> string" where
  "cppTypeToDbType conf cppType =
     (case rbind (rule_at conf ''default_types'' cppType) json_string of
        Inl _ \<Rightarrow> cppType
      | Inr t \<Rightarrow> t)"

definition dbTypeToCppType :: "json \<Rightarrow> string \<Rightarrow> string" where
  "dbTypeToCppType conf dbType =
     (let type = (case find_first_of dbType ''('' 0 of None \<Rightarrow> dbType | Some i \<Rightarrow> take i dbType)
      in case rbind (rule_at conf ''db_cpp_types'' type) json_string of
           Inl _ \<Rightarrow> []
         | Inr t \<Rightarrow> t)"

lemma isSame_refl [simp]: "isSame s s = Inr True"
  by (simp add: isSame_def Let_def)

lemma isSameDbType_refl [simp]: "isSameDbType conf t t"
  by (simp add: isSameDbType_def split: sum.splits)

lemma isSameDbType_rules:
  "isSameDbType rules_json t1 t2 \<longleftrightarrow>
     t1 = t2 \<or> (\<exists>ts. map_of same_types_rules (take 3 t1) = Some ts \<and> t1 \<in> set ts \<and> t2 \<in> set ts)"
  by (auto simp: isSameDbType_def rules_same_types split: option.splits)

text \<open>Every type of a class of the rule file starts with the key of the class.\<close>

lemma same_types_key:
  "map_of same_types_rules k = Some ts \<Longrightarrow> t \<in> set ts \<Longrightarrow> take 3 t = k"
  by (auto simp: same_types_rules_def split: if_splits)

end
