(* ===== verification/Datatypes.thy ===== *)
theory Datatypes
  imports Naming
begin

text \<open>
  \<^verbatim>\<open>tinyorm/datatype.h\<close>: the raw metadata a \<^verbatim>\<open>column\<close> declaration registers, the
  description of an index, and \<^verbatim>\<open>FieldMeta\<close>, which its constructor extracts from the tag
  text of the declaration.
\<close>

record metadata =
  meta_type :: string
  meta_offset :: int
  meta_tag :: string

section \<open>Index\<close>

text \<open>
  The three enumerators, any other value a byte of the data file is cast to, and the
  indeterminate value of a default-constructed index.
\<close>

datatype index_type = INDEX_TYPE_UNI | INDEX_TYPE_MUL | INDEX_TYPE_PRI
  | INDEX_TYPE_CODE int | INDEX_TYPE_UNSET

record index_info =
  ix_type :: index_type
  ix_name :: string
  ix_columns :: "string list"

definition Index_of :: "string \<Rightarrow> index_type \<Rightarrow> index_info" where
  "Index_of name t = \<lparr>ix_type = t, ix_name = name, ix_columns = []\<rparr>"

definition Index_default :: index_info where
  "Index_default = \<lparr>ix_type = INDEX_TYPE_UNSET, ix_name = [], ix_columns = []\<rparr>"

text \<open>
  The move constructor and the move assignment: the name is taken, the columns are
  swapped with those of the target (\<open>dst\<close>). A moved-from \<^verbatim>\<open>std::string\<close> is empty.
\<close>

definition Index_move :: "index_info \<Rightarrow> index_info \<Rightarrow> index_info \<times> index_info" where
  "Index_move dst src = (src, src\<lparr>ix_name := [], ix_columns := ix_columns dst\<rparr>)"

text \<open>
  \<^verbatim>\<open>operator==\<close>: \<^verbatim>\<open>s\<close> is the \<^verbatim>\<open>unordered_set\<close> of the columns of both sides, of which
  only the size is used.
\<close>

definition index_eq :: "index_info \<Rightarrow> index_info \<Rightarrow> bool" where
  "index_eq a b =
     (if ix_name a \<noteq> ix_name b \<or> ix_type a \<noteq> ix_type b then False
      else let s = remdups (ix_columns a @ ix_columns b)
           in if length s \<noteq> length (ix_columns a) \<or> length s \<noteq> length (ix_columns b) then False
              else True)"

lemma length_remdups_union: "length (remdups (xs @ ys)) = card (set xs \<union> set ys)"
  by (simp add: length_remdups_card_conv del: remdups_append2)

lemma union_card_both:
  assumes "distinct xs" "distinct ys"
  shows "card (set xs \<union> set ys) = length xs \<and> card (set xs \<union> set ys) = length ys
     \<longleftrightarrow> set xs = set ys"
proof
  assume L: "card (set xs \<union> set ys) = length xs \<and> card (set xs \<union> set ys) = length ys"
  have "set xs = set xs \<union> set ys"
    by (rule card_subset_eq) (use L assms in \<open>auto simp: distinct_card\<close>)
  moreover have "set ys = set xs \<union> set ys"
    by (rule card_subset_eq) (use L assms in \<open>auto simp: distinct_card\<close>)
  ultimately show "set xs = set ys" by simp
next
  assume "set xs = set ys"
  moreover from this have "length xs = length ys" using assms by (metis distinct_card)
  ultimately show "card (set xs \<union> set ys) = length xs \<and> card (set xs \<union> set ys) = length ys"
    using assms by (simp add: distinct_card)
qed

text \<open>For column lists without repetitions the comparison is that of the sets of columns.\<close>

lemma index_eq_distinct:
  assumes "distinct (ix_columns a)" "distinct (ix_columns b)"
  shows "index_eq a b \<longleftrightarrow>
    ix_name a = ix_name b \<and> ix_type a = ix_type b \<and> set (ix_columns a) = set (ix_columns b)"
  unfolding index_eq_def Let_def length_remdups_union using union_card_both[OF assms] by auto

lemma index_eq_refl_iff: "index_eq a a \<longleftrightarrow> distinct (ix_columns a)"
  by (auto simp: index_eq_def Let_def length_remdups_card_conv intro: card_distinct simp: distinct_card)

section \<open>FieldMeta\<close>

text \<open>
  The members of \<^verbatim>\<open>FieldMeta\<close>. \<open>fieldOffset\<close> is \<open>None\<close> when the constructor leaves
  \<^verbatim>\<open>offset\<close> uninitialised.
\<close>

record field_meta =
  fieldName :: string
  cppType :: string
  columnType :: "string option"
  columnName :: "string option"
  extra :: string
  isPk :: bool
  autoInc :: bool
  hasIndex :: bool
  notNull :: bool
  defaultVal :: string
  fieldIndex :: index_info
  fieldOffset :: "int option"
  ignored :: bool

definition FieldMeta_default :: field_meta where
  "FieldMeta_default = \<lparr>fieldName = [], cppType = [], columnType = None, columnName = None,
     extra = [], isPk = False, autoInc = False, hasIndex = False, notNull = False,
     defaultVal = [], fieldIndex = Index_default, fieldOffset = None, ignored = False\<rparr>"

definition getColumnName :: "field_meta \<Rightarrow> string" where
  "getColumnName f = (case columnName f of Some n \<Rightarrow> n | None \<Rightarrow> cppToDb (fieldName f))"

definition getColumnType :: "json \<Rightarrow> field_meta \<Rightarrow> string" where
  "getColumnType conf f =
     (case columnType f of Some t \<Rightarrow> t | None \<Rightarrow> cppTypeToDbType conf (cppType f))"

subsection \<open>Parsing the tag\<close>

text \<open>
  The body of the loop over the words of an item without \<^verbatim>\<open>=\<close>, with the two flags
  \<^verbatim>\<open>checkNotNull\<close> and \<^verbatim>\<open>checkDefault\<close>. A word is lowered before it is looked at, except
  after \<^verbatim>\<open>default\<close>.
\<close>

definition add_index :: "index_type \<Rightarrow> field_meta \<Rightarrow> field_meta" where
  "add_index t f = f\<lparr>hasIndex := True,
     fieldIndex := (fieldIndex f)\<lparr>ix_type := t,
       ix_columns := ix_columns (fieldIndex f) @ [getColumnName f]\<rparr>\<rparr>"

definition ext_step :: "string \<Rightarrow> field_meta \<times> bool \<times> bool \<Rightarrow> field_meta \<times> bool \<times> bool" where
  "ext_step word st =
     (let (f, checkNotNull, checkDefault) = st in
      if checkDefault then (f\<lparr>defaultVal := word\<rparr>, checkNotNull, checkDefault)
      else let ext = toLowerCase word in
        if checkNotNull \<and> ext = ''null'' then (f\<lparr>notNull := True\<rparr>, False, checkDefault)
        else if ext = ''pk'' \<or> ext = ''primary_key'' \<or> ext = ''primary key'' then
          (add_index INDEX_TYPE_PRI (f\<lparr>isPk := True\<rparr>), checkNotNull, checkDefault)
        else if ext = ''auto_increment'' \<or> ext = ''auto increment'' then
          (f\<lparr>autoInc := True\<rparr>, checkNotNull, checkDefault)
        else if ext = ''ignore'' then (f\<lparr>ignored := True\<rparr>, checkNotNull, checkDefault)
        else if ext = ''index'' then (add_index INDEX_TYPE_MUL f, checkNotNull, checkDefault)
        else if ext = ''unique'' then (add_index INDEX_TYPE_UNI f, checkNotNull, checkDefault)
        else if ext = ''not'' then (f, True, checkDefault)
        else if ext = ''default'' then (f, checkNotNull, True)
        else (f\<lparr>extra := (if length (extra f) > 0 then extra f @ '' '' else extra f) @ ext\<rparr>,
              checkNotNull, checkDefault))"

definition tag_step :: "string \<Rightarrow> field_meta \<Rightarrow> field_meta" where
  "tag_step item f =
     (case find_first_of item ''='' 0 of
        Some eq_pos \<Rightarrow>
          let k = toLowerCase (strip (take eq_pos item))
          in if k = ''name'' then f\<lparr>columnName := Some (strip (drop (eq_pos + 1) item))\<rparr>
             else if k = ''type'' then f\<lparr>columnType := Some (strip (drop (eq_pos + 1) item))\<rparr>
             else f
      | None \<Rightarrow> fst (fold ext_step (split (strip item) '' '') (f, False, False)))"

text \<open>The constructor \<^verbatim>\<open>FieldMeta(const std::string&, const Metadata&)\<close>.\<close>

definition FieldMeta_of :: "string \<Rightarrow> metadata \<Rightarrow> field_meta" where
  "FieldMeta_of name meta =
     (let f0 = FieldMeta_default\<lparr>fieldName := name, cppType := meta_type meta,
                 fieldOffset := Some (meta_offset meta)\<rparr>;
          tags = split (strip (meta_tag meta)) '','';
          f = fold tag_step tags f0
      in f\<lparr>ignored := (isPk f \<and> autoInc f) \<or> ignored f, notNull := isPk f \<or> notNull f\<rparr>)"

text \<open>
  Moving a \<^verbatim>\<open>FieldMeta\<close> into a new object: the strings are taken (and left empty), the
  optionals and the index columns are swapped with those of the fresh object, the flags
  are copied. Result: the new object and the moved-from one.
\<close>

definition FieldMeta_move :: "field_meta \<Rightarrow> field_meta \<times> field_meta" where
  "FieldMeta_move src =
     (src, src\<lparr>fieldName := [], cppType := [], defaultVal := [], extra := [],
             columnName := None, columnType := None,
             fieldIndex := snd (Index_move Index_default (fieldIndex src))\<rparr>)"

definition field_lt :: "field_meta \<Rightarrow> field_meta \<Rightarrow> bool res" where
  "field_lt a b = (case (fieldOffset a, fieldOffset b) of
     (Some x, Some y) \<Rightarrow> Inr (x < y) | _ \<Rightarrow> Inl UB)"

definition field_eq :: "json \<Rightarrow> field_meta \<Rightarrow> field_meta \<Rightarrow> bool res" where
  "field_eq conf a b =
     (if getColumnName a \<noteq> getColumnName b \<or> notNull a \<noteq> notNull b \<or> extra a \<noteq> extra b
      then Inr False
      else rbind (isSame (defaultVal a) (defaultVal b)) (\<lambda>same.
        if \<not> same then Inr False
        else Inr (isSameDbType conf (getColumnType conf a) (getColumnType conf b))))"

lemma field_eq_refl: "field_eq conf f f = Inr True"
  by (simp add: field_eq_def)

lemma field_eq_cong:
  "getColumnName a = getColumnName b \<Longrightarrow> notNull a = notNull b \<Longrightarrow> extra a = extra b \<Longrightarrow>
   defaultVal a = defaultVal b \<Longrightarrow> getColumnType conf a = getColumnType conf b \<Longrightarrow>
   field_eq conf a b = Inr True"
  by (simp add: field_eq_def)

section \<open>What a well-formed tag means\<close>

text \<open>
  The items of a tag as the documentation of the \<^verbatim>\<open>tags\<close> macro describes them, their text, and
  their effect.
\<close>

datatype tag_item = Named string | Typed string | Words "string list"

fun item_text :: "tag_item \<Rightarrow> string" where
  "item_text (Named n) = ''name = '' @ n"
| "item_text (Typed t) = ''type = '' @ t"
| "item_text (Words ws) = join '' '' ws"

definition tag_text :: "tag_item list \<Rightarrow> string" where
  "tag_text items = join '', '' (map item_text items)"

fun item_effect :: "tag_item \<Rightarrow> field_meta \<Rightarrow> field_meta" where
  "item_effect (Named n) f = f\<lparr>columnName := Some n\<rparr>"
| "item_effect (Typed t) f = f\<lparr>columnType := Some t\<rparr>"
| "item_effect (Words ws) f = fst (fold ext_step ws (f, False, False))"

definition plain :: "string \<Rightarrow> bool" where
  "plain s \<longleftrightarrow> 2 \<le> length s \<and> \<not> isspace (hd s) \<and> \<not> isspace (last s) \<and> CHR '','' \<notin> set s"

definition word_ok :: "string \<Rightarrow> bool" where
  "word_ok w \<longleftrightarrow> w \<noteq> [] \<and> (\<forall>c \<in> set w. \<not> isspace c \<and> c \<noteq> CHR '','' \<and> c \<noteq> CHR ''='')"

fun item_ok :: "tag_item \<Rightarrow> bool" where
  "item_ok (Named n) = plain n"
| "item_ok (Typed t) = plain t"
| "item_ok (Words ws) = (ws \<noteq> [] \<and> (\<forall>w \<in> set ws. word_ok w) \<and> 2 \<le> length (join '' '' ws))"

lemma isspace_space [simp]: "isspace (CHR '' '')"
  by (simp add: isspace_def chr_code_def)

lemma not_isspace_eq [simp]: "\<not> isspace (CHR ''='')"
  by (simp add: isspace_def chr_code_def)

lemma strip_space_Cons:
  assumes "2 \<le> length s" "\<not> isspace (hd s)" "\<not> isspace (last s)"
  shows "strip (CHR '' '' # s) = s"
proof -
  have "hd s \<in> set (butlast s)"
    using assms(1) by (cases s; cases "tl s") auto
  then have nall: "\<not> (\<forall>c \<in> set (butlast (CHR '' '' # s)). isspace c)"
    using assms by auto
  obtain c cs where s: "s = c # cs" using assms(1) by (cases s) auto
  have "rev s = last s # rev (butlast s)"
    using s by (metis append_butlast_last_id list.distinct(1) rev_eq_Cons_iff rev_rev_ident)
  then have "dropWhile isspace (rev s) = rev s" using assms(3) by (metis dropWhile.simps(2))
  moreover have "dropWhile isspace (CHR '' '' # s) = s" using assms(2) s by simp
  ultimately have "trim (CHR '' '' # s) = s" by (simp add: trim_def)
  then show ?thesis by (simp only: strip_eq_trim if_not_P[OF nall])
qed

lemma find_first_of_hit:
  assumes "c \<notin> set pre"
  shows "find_first_of (pre @ c # post) [c] 0 = Some (length pre)"
proof (cases "find_first_of (pre @ c # post) [c] 0")
  case None
  then show ?thesis by (auto simp: find_first_of_eq_None_iff)
next
  case (Some r)
  note r = find_first_of_Some[OF Some]
  have "\<not> r < length pre"
    using r(3) assms by (auto simp: nth_append)
  moreover have "\<not> length pre < r"
  proof
    assume "length pre < r"
    then have "c \<in> set (take (r - 0) (drop 0 (pre @ c # post)))"
      by (simp add: take_Cons')
    with r(4) show False by auto
  qed
  ultimately show ?thesis using Some by simp
qed

lemma key_name: "toLowerCase (strip ''name '') = ''name''" "toLowerCase (strip '' name '') = ''name''"
  by code_simp+

lemma key_type: "toLowerCase (strip ''type '') = ''type''" "toLowerCase (strip '' type '') = ''type''"
  by code_simp+

lemma tag_step_named:
  assumes "plain n" "pre = ''name = '' \<or> pre = '' name = ''"
  shows "tag_step (pre @ n) f = f\<lparr>columnName := Some n\<rparr>"
proof -
  obtain k where k: "pre = k @ CHR ''='' # '' ''" "k = ''name '' \<or> k = '' name ''"
    using assms(2) by auto
  then have "find_first_of (pre @ n) ''='' 0 = Some (length k)"
    using find_first_of_hit[of "CHR ''=''" k "CHR '' '' # n"] by auto
  moreover have "toLowerCase (strip k) = ''name''"
    using k(2) key_name by auto
  moreover have "strip (CHR '' '' # n) = n"
    using assms(1) by (intro strip_space_Cons) (auto simp: plain_def)
  ultimately show ?thesis using k(1) by (simp add: tag_step_def)
qed

lemma tag_step_typed:
  assumes "plain n" "pre = ''type = '' \<or> pre = '' type = ''"
  shows "tag_step (pre @ n) f = f\<lparr>columnType := Some n\<rparr>"
proof -
  obtain k where k: "pre = k @ CHR ''='' # '' ''" "k = ''type '' \<or> k = '' type ''"
    using assms(2) by auto
  then have "find_first_of (pre @ n) ''='' 0 = Some (length k)"
    using find_first_of_hit[of "CHR ''=''" k "CHR '' '' # n"] by auto
  moreover have "toLowerCase (strip k) = ''type''"
    using k(2) key_type by auto
  moreover have "strip (CHR '' '' # n) = n"
    using assms(1) by (intro strip_space_Cons) (auto simp: plain_def)
  ultimately show ?thesis using k(1) by (simp add: tag_step_def)
qed

lemma hd_join: "ws \<noteq> [] \<Longrightarrow> \<forall>w \<in> set ws. w \<noteq> [] \<Longrightarrow> hd (join sep ws) = hd (hd ws)"
  by (induction sep ws rule: join.induct) auto

lemma last_join: "ws \<noteq> [] \<Longrightarrow> \<forall>w \<in> set ws. w \<noteq> [] \<Longrightarrow> last (join sep ws) = last (last ws)"
proof (induction sep ws rule: join.induct)
  case (3 sep x y zs)
  moreover have "join sep (y # zs) \<noteq> []" using 3(3) by (cases zs) auto
  ultimately show ?case by simp
qed auto

lemma word_ok_ends: "word_ok w \<Longrightarrow> \<not> isspace (hd w) \<and> \<not> isspace (last w)"
  by (auto simp: word_ok_def)

lemma word_ok_no_space: "word_ok w \<Longrightarrow> w \<noteq> [] \<and> CHR '' '' \<notin> set w"
  unfolding word_ok_def using isspace_space by blast

lemma words_text:
  assumes "item_ok (Words ws)"
  shows "\<not> isspace (hd (join '' '' ws))" "\<not> isspace (last (join '' '' ws))"
    "CHR ''='' \<notin> set (join '' '' ws)" "CHR '','' \<notin> set (join '' '' ws)"
proof -
  have ne: "ws \<noteq> []" "\<forall>w \<in> set ws. w \<noteq> []" and ok: "\<forall>w \<in> set ws. word_ok w"
    using assms by (auto simp: word_ok_def)
  then show "\<not> isspace (hd (join '' '' ws))" "\<not> isspace (last (join '' '' ws))"
    using word_ok_ends[of "hd ws"] word_ok_ends[of "last ws"] by (simp_all add: hd_join last_join)
  have "c \<notin> set (join '' '' ws)" if "c = CHR ''='' \<or> c = CHR '',''" for c
  proof
    assume "c \<in> set (join '' '' ws)"
    with set_join[of "'' ''" ws] that obtain w where "w \<in> set ws" "c \<in> set w" by auto
    with ok that show False by (auto simp: word_ok_def)
  qed
  then show "CHR ''='' \<notin> set (join '' '' ws)" "CHR '','' \<notin> set (join '' '' ws)" by auto
qed

lemma tag_step_words:
  assumes "item_ok (Words ws)" "pre = [] \<or> pre = '' ''"
  shows "tag_step (pre @ join '' '' ws) f = fst (fold ext_step ws (f, False, False))"
proof -
  define s where "s = join '' '' ws"
  note t = words_text[OF assms(1), folded s_def]
  have len: "2 \<le> length s" using assms(1) by (simp add: s_def)
  have "find_first_of (pre @ s) ''='' 0 = None"
    using assms(2) t(3) by (auto simp: find_first_of_eq_None_iff)
  moreover have "strip (pre @ s) = s"
    using assms(2) strip_id[OF len t(1,2)] strip_space_Cons[OF len t(1,2)] by auto
  moreover have "split s '' '' = ws"
    unfolding s_def
  proof (rule split_join, intro ballI)
    fix w assume "w \<in> set ws"
    then have "word_ok w" using assms(1) by simp
    then show "w \<noteq> [] \<and> CHR '' '' \<notin> set w" by (rule word_ok_no_space)
  qed
  ultimately show ?thesis by (simp add: tag_step_def s_def)
qed

lemma tag_step_item:
  assumes "item_ok it" "pre = [] \<or> pre = '' ''"
  shows "tag_step (pre @ item_text it) f = item_effect it f"
proof (cases it)
  case (Named n)
  then show ?thesis using assms tag_step_named[of n "pre @ ''name = ''" f] by auto
next
  case (Typed t)
  then show ?thesis using assms tag_step_typed[of t "pre @ ''type = ''" f] by auto
next
  case (Words ws)
  then show ?thesis using assms tag_step_words[of ws pre f] by simp
qed

lemma item_text_shape:
  assumes "item_ok it"
  shows "2 \<le> length (item_text it)" "\<not> isspace (hd (item_text it))"
    "\<not> isspace (last (item_text it))" "CHR '','' \<notin> set (item_text it)"
proof -
  have "2 \<le> length (item_text it) \<and> \<not> isspace (hd (item_text it))
    \<and> \<not> isspace (last (item_text it)) \<and> CHR '','' \<notin> set (item_text it)"
  proof (cases it)
    case (Words ws)
    then show ?thesis using assms words_text[of ws] by simp
  qed (use assms in \<open>auto simp: plain_def isspace_def chr_code_def\<close>)
  then show "2 \<le> length (item_text it)" "\<not> isspace (hd (item_text it))"
    "\<not> isspace (last (item_text it))" "CHR '','' \<notin> set (item_text it)" by auto
qed

lemma join_shift: "join (d # e) (x # xs) = join [d] (x # map ((@) e) xs)"
proof (induction xs arbitrary: x)
  case (Cons y ys)
  have "join [d] ((e @ y) # map ((@) e) ys) = e @ join [d] (y # map ((@) e) ys)"
    by (cases ys) auto
  with Cons[of y] show ?case by simp
qed simp

lemma tag_split:
  assumes "items \<noteq> []" "\<forall>it \<in> set items. item_ok it"
  shows "split (strip (tag_text items)) '','' =
    item_text (hd items) # map (\<lambda>it. '' '' @ item_text it) (tl items)"
proof -
  obtain it its where items: "items = it # its" using assms(1) by (cases items) auto
  define xs where "xs = item_text it # map (\<lambda>it. '' '' @ item_text it) its"
  have ne: "\<forall>t \<in> set (map item_text items). t \<noteq> []"
    using assms(2) item_text_shape(1) by fastforce
  have "hd (tag_text items) = hd (item_text it)"
    using hd_join[of "map item_text items" "'', ''"] ne items by (simp add: tag_text_def)
  moreover have "last (tag_text items) = last (item_text (last items))"
    using last_join[of "map item_text items" "'', ''"] ne items
    by (simp add: tag_text_def last_map del: list.map)
  moreover have "length (tag_text items) \<ge> 2"
    using items item_text_shape(1)[of it] assms(2) by (cases its) (auto simp: tag_text_def)
  ultimately have strip: "strip (tag_text items) = tag_text items"
    using assms items item_text_shape(2)[of it] item_text_shape(3)[of "last items"]
    by (intro strip_id) auto
  have "tag_text items = join [CHR '',''] xs"
    using join_shift[of "CHR '',''" "'' ''" "item_text it" "map item_text its"]
    by (simp add: tag_text_def items xs_def comp_def)
  moreover have "\<forall>x \<in> set xs. x \<noteq> [] \<and> CHR '','' \<notin> set x"
    using assms(2) items ne item_text_shape(4) by (auto simp: xs_def)
  ultimately have "split (tag_text items) '','' = xs" by (simp add: split_join)
  with strip show ?thesis by (simp add: xs_def items)
qed

lemma fold_tag_step:
  "\<forall>it \<in> set its. item_ok it \<Longrightarrow>
   fold tag_step (map (\<lambda>it. '' '' @ item_text it) its) f = fold item_effect its f"
  using tag_step_item[of _ "'' ''"] by (induction its arbitrary: f) auto

text \<open>The fields of a member before its tag is read, and the last two assignments.\<close>

definition field_start :: "string \<Rightarrow> string \<Rightarrow> int \<Rightarrow> field_meta" where
  "field_start name type off =
     FieldMeta_default\<lparr>fieldName := name, cppType := type, fieldOffset := Some off\<rparr>"

definition field_finish :: "field_meta \<Rightarrow> field_meta" where
  "field_finish f = f\<lparr>ignored := (isPk f \<and> autoInc f) \<or> ignored f, notNull := isPk f \<or> notNull f\<rparr>"

lemma FieldMeta_of_items:
  assumes "items \<noteq> []" "\<forall>it \<in> set items. item_ok it"
  shows "FieldMeta_of name \<lparr>meta_type = type, meta_offset = off, meta_tag = tag_text items\<rparr>
    = field_finish (fold item_effect items (field_start name type off))"
proof -
  obtain it its where items: "items = it # its" using assms(1) by (cases items) auto
  have "fold tag_step (split (strip (tag_text items)) '','') f = fold item_effect items f" for f
    using tag_split[OF assms] fold_tag_step[of its] tag_step_item[of it "[]"] assms(2) items by simp
  then show ?thesis
    by (simp add: FieldMeta_of_def field_start_def field_finish_def Let_def)
qed

end
