(* ===== verification/Byte_Array.thy ===== *)
theory Byte_Array
  imports Str_Util
begin

text \<open>
  \<^verbatim>\<open>tinyorm/bytearray.h\<close>: the growable-by-filling byte buffer that the data file code
  writes through. Bytes are \<open>char\<close>. The pointer \<^verbatim>\<open>wp\<close> is its offset from \<^verbatim>\<open>buf\<close>.
  Allocation succeeds for every non-negative size; a negative \<^verbatim>\<open>int\<close> size becomes a huge
  \<^verbatim>\<open>size_t\<close>, \<^verbatim>\<open>malloc\<close> returns null, and the \<^verbatim>\<open>memset\<close> or \<^verbatim>\<open>memcpy\<close> that
  follows has undefined behaviour.
\<close>

type_synonym bytes = string

record byte_array =
  buf :: "bytes option"
  len :: int
  wp :: int

definition zero_byte :: char where
  "zero_byte = char_of (0 :: nat)"

section \<open>Constructors\<close>

definition ByteArray_default :: byte_array where
  "ByteArray_default = \<lparr>buf = None, len = 0, wp = 0\<rparr>"

definition ByteArray_new :: "int \<Rightarrow> byte_array res" where
  "ByteArray_new n =
     (if n < 0 then Inl UB
      else Inr \<lparr>buf = Some (replicate (nat n) zero_byte), len = n, wp = 0\<rparr>)"

text \<open>A \<^verbatim>\<open>memcpy\<close> of \<open>n\<close> bytes from \<open>data + offset\<close> to offset \<open>start\<close> of a block.\<close>

definition memcpy_to :: "bytes \<Rightarrow> int \<Rightarrow> bytes \<Rightarrow> int \<Rightarrow> int \<Rightarrow> bytes res" where
  "memcpy_to dst start data offset n =
     (if n < 0 \<or> start < 0 \<or> offset < 0 \<or> start + n > int (length dst) \<or> offset + n > int (length data)
      then Inl UB
      else Inr (take (nat start) dst @ take (nat n) (drop (nat offset) data)
                @ drop (nat (start + n)) dst))"

definition ByteArray_of :: "bytes \<Rightarrow> int \<Rightarrow> int \<Rightarrow> byte_array res" where
  "ByteArray_of data offset n =
     rbind (ByteArray_new n) (\<lambda>a.
       case buf a of
         None \<Rightarrow> Inr a
       | Some b \<Rightarrow> rmap (\<lambda>b'. a\<lparr>buf := Some b', wp := wp a + n\<rparr>) (memcpy_to b 0 data offset n))"

text \<open>
  Construction from a stream: \<open>got\<close> are the bytes \<^verbatim>\<open>ifs.read\<close> delivered, at most \<open>n\<close>;
  the rest of the buffer keeps its zeros.
\<close>

definition ByteArray_read :: "bytes \<Rightarrow> int \<Rightarrow> byte_array res" where
  "ByteArray_read got n =
     rmap (\<lambda>a. a\<lparr>buf := map_option (\<lambda>b. got @ drop (length got) b) (buf a), wp := wp a + n\<rparr>)
          (ByteArray_new n)"

definition ByteArray_copy :: "byte_array \<Rightarrow> byte_array res" where
  "ByteArray_copy arr =
     (case buf arr of
        None \<Rightarrow> if len arr = 0 then Inr \<lparr>buf = Some [], len = 0, wp = 0\<rparr> else Inl UB
      | Some b \<Rightarrow> if len arr < 0 \<or> len arr > int (length b) then Inl UB
                  else Inr \<lparr>buf = Some (take (nat (len arr)) b), len = len arr, wp = len arr\<rparr>)"

text \<open>Moving takes the block and leaves the source without one, with its old \<^verbatim>\<open>len\<close>.\<close>

definition ByteArray_move :: "byte_array \<Rightarrow> byte_array \<times> byte_array" where
  "ByteArray_move arr = (arr, arr\<lparr>buf := None, wp := 0\<rparr>)"

text \<open>\<^verbatim>\<open>std::string(arr.value(), arr.length())\<close>.\<close>

definition ByteArray_string :: "byte_array \<Rightarrow> string res" where
  "ByteArray_string arr =
     (case buf arr of
        None \<Rightarrow> if len arr = 0 then Inr [] else Inl UB
      | Some b \<Rightarrow> if len arr < 0 \<or> len arr > int (length b) then Inl UB
                  else Inr (take (nat (len arr)) b))"

section \<open>Filling\<close>

text \<open>
  The four overloads of \<^verbatim>\<open>fill\<close>. The one with \<^verbatim>\<open>start\<close> only warns when the data does
  not fit; the one without it moves \<^verbatim>\<open>wp\<close> by \<open>_len\<close> either way.
\<close>

definition fill_at :: "bytes \<Rightarrow> int \<Rightarrow> int \<Rightarrow> int \<Rightarrow> byte_array \<Rightarrow> byte_array res" where
  "fill_at data n start offset arr =
     (if start + n > len arr then Inr arr
      else case buf arr of
             None \<Rightarrow> if n = 0 then Inr arr else Inl UB
           | Some b \<Rightarrow> rmap (\<lambda>b'. arr\<lparr>buf := Some b'\<rparr>) (memcpy_to b start data offset n))"

definition fill_from :: "bytes \<Rightarrow> int \<Rightarrow> int \<Rightarrow> byte_array \<Rightarrow> byte_array res" where
  "fill_from data n offset arr =
     rmap (\<lambda>a. a\<lparr>wp := wp a + n\<rparr>) (fill_at data n (wp arr) offset arr)"

definition fill :: "bytes \<Rightarrow> int \<Rightarrow> byte_array \<Rightarrow> byte_array res" where
  "fill data n arr = fill_from data n 0 arr"

function fill_char_loop :: "char \<Rightarrow> int \<Rightarrow> int \<Rightarrow> byte_array \<Rightarrow> byte_array res" where
  "fill_char_loop v n cnt arr =
     (if wp arr < len arr \<and> cnt < n then
        case buf arr of
          None \<Rightarrow> Inl UB
        | Some b \<Rightarrow>
            if wp arr < 0 \<or> wp arr \<ge> int (length b) then Inl UB
            else fill_char_loop v n (cnt + 1)
                   (arr\<lparr>buf := Some (b[nat (wp arr) := v]), wp := wp arr + 1\<rparr>)
      else Inr arr)"
  by pat_completeness auto
termination
  by (relation "measure (\<lambda>(v, n, cnt, arr). nat (n - cnt))") auto

declare fill_char_loop.simps [simp del]

definition fill_char :: "char \<Rightarrow> int \<Rightarrow> byte_array \<Rightarrow> byte_array res" where
  "fill_char v n arr = fill_char_loop v n 0 arr"

section \<open>The contract of a sink\<close>

text \<open>
  What the writers of the data file rely on: a sink has a capacity, a view of what has been
  written, and \<^verbatim>\<open>put\<close> of a string that fits appends it to the view.
\<close>

locale byte_sink =
  fixes put :: "bytes \<Rightarrow> 's \<Rightarrow> 's res"
    and view :: "'s \<Rightarrow> bytes"
    and room :: "'s \<Rightarrow> nat"
    and invar :: "'s \<Rightarrow> bool"
  assumes put_ok: "invar s \<Longrightarrow> length d \<le> room s \<Longrightarrow>
      \<exists>s'. put d s = Inr s' \<and> invar s' \<and> view s' = view s @ d \<and> room s' = room s - length d"
begin

text \<open>Fields that fit together are written one after the other.\<close>

lemma put_all:
  assumes "invar s" "length (concat ds) \<le> room s"
  shows "\<exists>s'. rfold put ds s = Inr s' \<and> invar s' \<and> view s' = view s @ concat ds
           \<and> room s' = room s - length (concat ds)"
  using assms
proof (induction ds arbitrary: s)
  case (Cons d ds)
  then obtain s1 where s1: "put d s = Inr s1" "invar s1" "view s1 = view s @ d"
      "room s1 = room s - length d"
    using put_ok[of s d] by auto
  moreover have "length (concat ds) \<le> room s1" using Cons.prems s1(4) by simp
  ultimately obtain s' where "rfold put ds s1 = Inr s'" "invar s'"
      "view s' = view s1 @ concat ds" "room s' = room s1 - length (concat ds)"
    using Cons.IH[of s1] by auto
  with s1 show ?case by auto
qed auto

lemma put_exactly:
  assumes "invar s" "view s = []" "room s = length (concat ds)"
  shows "\<exists>s'. rfold put ds s = Inr s' \<and> invar s' \<and> view s' = concat ds \<and> room s' = 0"
  using put_all[of s ds] assms by auto

end

text \<open>The byte array as a sink: what is left of \<^verbatim>\<open>wp\<close> has been written, the rest is room.\<close>

definition ba_invar :: "byte_array \<Rightarrow> bool" where
  "ba_invar a \<longleftrightarrow> (\<exists>b. buf a = Some b \<and> len a = int (length b) \<and> 0 \<le> wp a \<and> wp a \<le> len a)"

definition ba_view :: "byte_array \<Rightarrow> bytes" where
  "ba_view a = (case buf a of None \<Rightarrow> [] | Some b \<Rightarrow> take (nat (wp a)) b)"

definition ba_room :: "byte_array \<Rightarrow> nat" where
  "ba_room a = nat (len a - wp a)"

lemma memcpy_to_ok:
  "start + length d \<le> length dst \<Longrightarrow>
   memcpy_to dst (int start) d 0 (int (length d)) = Inr (take start dst @ d @ drop (start + length d) dst)"
  by (simp add: memcpy_to_def nat_add_distrib)

lemma fill_ok:
  assumes "ba_invar a" "length d \<le> ba_room a"
  shows "\<exists>a'. fill d (int (length d)) a = Inr a' \<and> ba_invar a' \<and> ba_view a' = ba_view a @ d
           \<and> ba_room a' = ba_room a - length d"
proof -
  from assms(1) obtain b where b: "buf a = Some b" "len a = int (length b)" "0 \<le> wp a" "wp a \<le> len a"
    by (auto simp: ba_invar_def)
  define w where "w = nat (wp a)"
  have w: "wp a = int w" "w \<le> length b" using b by (auto simp: w_def)
  have fit: "w + length d \<le> length b" using assms(2) b w by (simp add: ba_room_def)
  define b' where "b' = take w b @ d @ drop (w + length d) b"
  have "memcpy_to b (wp a) d 0 (int (length d)) = Inr b'"
    using memcpy_to_ok[OF fit] w(1) by (simp add: b'_def)
  then have "fill d (int (length d)) a = Inr (a\<lparr>buf := Some b', wp := int (w + length d)\<rparr>)"
    using b w fit by (simp add: fill_def fill_from_def fill_at_def)
  moreover have "length b' = length b" "take (w + length d) b' = take w b @ d"
    using fit by (auto simp: b'_def)
  ultimately show ?thesis
    using b w fit by (auto simp: ba_invar_def ba_view_def ba_room_def nat_diff_distrib nat_int_add)
qed

lemma fill_char_one:
  assumes "ba_invar a" "1 \<le> ba_room a"
  shows "fill_char v 1 a = fill [v] 1 a"
proof -
  from assms(1) obtain b where b: "buf a = Some b" "len a = int (length b)" "0 \<le> wp a" "wp a \<le> len a"
    by (auto simp: ba_invar_def)
  define w where "w = nat (wp a)"
  have w: "wp a = int w" "w < length b" using b assms(2) by (auto simp: w_def ba_room_def)
  have "b[w := v] = take w b @ [v] @ drop (w + 1) b"
    using w(2) by (simp add: upd_conv_take_nth_drop)
  then show ?thesis
    using b w memcpy_to_ok[of w "[v]" b]
    by (simp add: fill_char_def fill_char_loop.simps[of v 1] fill_char_loop.simps[of v 1 1]
        fill_def fill_from_def fill_at_def)
qed

interpretation array_sink: byte_sink "\<lambda>d. fill d (int (length d))" ba_view ba_room ba_invar
  by unfold_locales (rule fill_ok)

lemma ba_new:
  "0 \<le> n \<Longrightarrow> \<exists>a. ByteArray_new n = Inr a \<and> ba_invar a \<and> ba_view a = [] \<and> ba_room a = nat n"
  by (auto simp: ByteArray_new_def ba_invar_def ba_view_def ba_room_def)

lemma ByteArray_string_full:
  "ba_invar a \<Longrightarrow> ba_room a = 0 \<Longrightarrow> ByteArray_string a = Inr (ba_view a)"
  by (auto simp: ba_invar_def ba_room_def ba_view_def ByteArray_string_def)

lemma ByteArray_string_read:
  "length got \<le> nat n \<Longrightarrow> 0 \<le> n \<Longrightarrow>
   rbind (ByteArray_read got n) ByteArray_string = Inr (got @ replicate (nat n - length got) zero_byte)"
  by (auto simp: ByteArray_read_def ByteArray_new_def ByteArray_string_def)

end
