(* ===== verification/Data_File.thy ===== *)
theory Data_File
  imports Datatypes Byte_Array
begin

text \<open>
  \<^verbatim>\<open>tinyorm/dataloader.h\<close>, the data file \<^verbatim>\<open>models/model_<db>.dat\<close>: the structures
  \<^verbatim>\<open>Header\<close>, \<^verbatim>\<open>ColumnField\<close> and \<^verbatim>\<open>IndexField\<close> with their serialisation,
  \<^verbatim>\<open>saveModel\<close>, and the state machine of \<^verbatim>\<open>loadFromFile\<close>. Lengths keep their widths: a
  \<^verbatim>\<open>short\<close> is a 16-bit word, a \<^verbatim>\<open>char\<close> length is a byte read as a signed number. The
  target is little-endian.
\<close>

section \<open>Serialisation\<close>

definition HEADER_MARKER :: char where "HEADER_MARKER = char_of (0xFC :: nat)"
definition COLUMN_MARKER :: char where "COLUMN_MARKER = char_of (0xFD :: nat)"
definition INDEX_MARKER :: char where "INDEX_MARKER = char_of (0xFE :: nat)"

definition bytes_of_short :: "16 word \<Rightarrow> bytes" where
  "bytes_of_short w = [char_of (unat w mod 256), char_of (unat w div 256)]"

definition short_of_bytes :: "bytes \<Rightarrow> 16 word" where
  "short_of_bytes b = word_of_nat (chr_code (b ! 0) + 256 * chr_code (b ! 1))"

text \<open>A sequence of \<^verbatim>\<open>fill\<close> calls on a buffer, and the bytes written out.\<close>

definition fill_all :: "(byte_array \<Rightarrow> byte_array res) list \<Rightarrow> byte_array \<Rightarrow> byte_array res" where
  "fill_all = rfold (\<lambda>op. op)"

definition fill_str :: "string \<Rightarrow> byte_array \<Rightarrow> byte_array res" where
  "fill_str s = fill s (int (length s))"

definition fill_len :: "nat \<Rightarrow> byte_array \<Rightarrow> byte_array res" where
  "fill_len n = fill_char (char_of n) 1"

record header =
  model_len :: "16 word"
  header_len :: char
  h_className :: string
  h_tableName :: string

definition Header_of :: "string \<Rightarrow> string \<Rightarrow> header" where
  "Header_of cName tName =
     \<lparr>model_len = 0, header_len = char_of (2 + 2 + length cName + length tName + 1),
      h_className = cName, h_tableName = tName\<rparr>"

definition Header_toByteArray :: "header \<Rightarrow> byte_array res" where
  "Header_toByteArray h =
     rbind (ByteArray_new (schar (header_len h) + 1)) (fill_all
       [fill_char HEADER_MARKER 1,
        fill (bytes_of_short (model_len h)) 2,
        fill_char (header_len h) 1,
        fill_len (length (h_className h) + length (h_tableName h) + 1),
        fill_str (h_tableName h),
        fill ''|'' 1,
        fill_str (h_className h)])"

record column_field =
  columnId :: string
  dataType :: string
  flags :: char
  columnDefault :: string
  columnExtra :: string
  column_len :: "16 word"

definition ColumnField_of :: "json \<Rightarrow> field_meta \<Rightarrow> column_field" where
  "ColumnField_of conf meta =
     (let cid = getColumnName meta @ ''|'' @ fieldName meta;
          dt = getColumnType conf meta @ ''|'' @ cppType meta
      in \<lparr>columnId = cid, dataType = dt,
          flags = char_of ((of_bool (isPk meta) * 8 + of_bool (autoInc meta) * 4
                   + of_bool (hasIndex meta) * 2 + of_bool (notNull meta)) mod 16 :: nat),
          columnDefault = defaultVal meta, columnExtra = extra meta,
          column_len = word_of_nat (2 + length cid + 1 + length dt
                   + 2 + length (defaultVal meta) + 1 + length (extra meta))\<rparr>)"

definition ColumnField_toByteArray :: "column_field \<Rightarrow> byte_array res" where
  "ColumnField_toByteArray c =
     rbind (ByteArray_new (sint (column_len c))) (fill_all
       [fill_char COLUMN_MARKER 1,
        fill_len (length (columnId c)),
        fill_str (columnId c),
        fill_len (length (dataType c)),
        fill_str (dataType c),
        fill_char (flags c) 1,
        fill_len (length (columnDefault c)),
        fill_str (columnDefault c),
        fill_len (length (columnExtra c)),
        fill_str (columnExtra c)])"

record index_field =
  indexType :: char
  indexName :: string
  indexColumns :: string
  index_len :: char

text \<open>The enumerator as a \<^verbatim>\<open>char\<close>, and a \<^verbatim>\<open>char\<close> cast to the enumeration.\<close>

fun index_type_char :: "index_type \<Rightarrow> char res" where
  "index_type_char INDEX_TYPE_UNI = Inr (char_of (0 :: nat))"
| "index_type_char INDEX_TYPE_MUL = Inr (char_of (1 :: nat))"
| "index_type_char INDEX_TYPE_PRI = Inr (char_of (2 :: nat))"
| "index_type_char (INDEX_TYPE_CODE i) = Inr (char_of (nat (i mod 256)))"
| "index_type_char INDEX_TYPE_UNSET = Inl UB"

definition index_type_of_char :: "char \<Rightarrow> index_type" where
  "index_type_of_char c =
     (if schar c = 0 then INDEX_TYPE_UNI
      else if schar c = 1 then INDEX_TYPE_MUL
      else if schar c = 2 then INDEX_TYPE_PRI
      else INDEX_TYPE_CODE (schar c))"

definition IndexField_of :: "index_info \<Rightarrow> index_field res" where
  "IndexField_of index =
     rmap (\<lambda>t. let cols = join ''|'' (ix_columns index)
               in \<lparr>indexType = t, indexName = ix_name index, indexColumns = cols,
                   index_len = char_of (2 + 1 + length (ix_name index) + 1 + length cols)\<rparr>)
          (index_type_char (ix_type index))"

definition IndexField_toByteArray :: "index_field \<Rightarrow> byte_array res" where
  "IndexField_toByteArray i =
     rbind (ByteArray_new (schar (index_len i))) (fill_all
       [fill [INDEX_MARKER, indexType i] 2,
        fill_len (length (indexName i)),
        fill_str (indexName i),
        fill_len (length (indexColumns i)),
        fill_str (indexColumns i)])"

text \<open>
  \<^verbatim>\<open>saveModel\<close>: the bytes it appends to the data file. The header is written first but its
  \<^verbatim>\<open>model_len\<close> is summed up while the columns and indices are serialised.
\<close>

definition save_columns :: "json \<Rightarrow> field_meta list \<Rightarrow> bytes list \<times> header \<Rightarrow> (bytes list \<times> header) res" where
  "save_columns conf = rfold (\<lambda>col (cols, h).
     let cf = ColumnField_of conf col
     in rbind (ColumnField_toByteArray cf) (\<lambda>a. rbind (ByteArray_string a) (\<lambda>s.
          Inr (cols @ [s], h\<lparr>model_len := model_len h + column_len cf\<rparr>))))"

definition save_indices :: "index_info list \<Rightarrow> bytes list \<times> header \<Rightarrow> (bytes list \<times> header) res" where
  "save_indices = rfold (\<lambda>ix (inds, h).
     rbind (IndexField_of ix) (\<lambda>xf.
     rbind (IndexField_toByteArray xf) (\<lambda>a. rbind (ByteArray_string a) (\<lambda>s.
          Inr (inds @ [s], h\<lparr>model_len := model_len h + word_of_int (schar (index_len xf))\<rparr>)))))"

definition saveModel :: "json \<Rightarrow> field_meta list \<Rightarrow> index_info umap \<Rightarrow> header \<Rightarrow> bytes res" where
  "saveModel conf flds indices h =
     rbind (save_columns conf flds ([], h)) (\<lambda>(cols, h).
     rbind (save_indices (map snd indices) ([], h)) (\<lambda>(inds, h).
     rbind (Header_toByteArray h) (\<lambda>a. rbind (ByteArray_string a) (\<lambda>hd.
       Inr (hd @ concat cols @ concat inds)))))"

section \<open>Reading\<close>

text \<open>
  An input file stream: its content, the position, and whether \<^verbatim>\<open>failbit\<close> is set. A read
  that hits the end delivers what is there and sets it; every later read delivers nothing.
\<close>

record istream =
  in_data :: bytes
  in_pos :: nat
  in_fail :: bool

definition read_n :: "nat \<Rightarrow> istream \<Rightarrow> bytes \<times> istream" where
  "read_n n s =
     (if in_fail s then ([], s)
      else let got = take n (drop (in_pos s) (in_data s))
           in (got, s\<lparr>in_pos := in_pos s + length got, in_fail := length got < n\<rparr>))"

definition seek_cur :: "int \<Rightarrow> istream \<Rightarrow> istream" where
  "seek_cur off s =
     (if in_fail s then s
      else if int (in_pos s) + off < 0 then s\<lparr>in_fail := True\<rparr>
      else s\<lparr>in_pos := nat (int (in_pos s) + off)\<rparr>)"

text \<open>A \<^verbatim>\<open>char\<close> local that is read into and then used: indeterminate when the read failed.\<close>

definition read_char :: "istream \<Rightarrow> (char \<times> istream) res" where
  "read_char s = (case read_n 1 s of ([c], s') \<Rightarrow> Inr (c, s') | _ \<Rightarrow> Inl UB)"

text \<open>A later read into the same \<^verbatim>\<open>char\<close>: it keeps its value when nothing is delivered.\<close>

definition reread_char :: "char \<Rightarrow> istream \<Rightarrow> char \<times> istream" where
  "reread_char c s = (case read_n 1 s of ([c'], s') \<Rightarrow> (c', s') | (_, s') \<Rightarrow> (c, s'))"

text \<open>\<^verbatim>\<open>ByteArray arr(ifs, len)\<close> and the string made of it, for a signed \<^verbatim>\<open>char\<close> length.\<close>

definition read_block :: "char \<Rightarrow> istream \<Rightarrow> (string \<times> istream) res" where
  "read_block n s =
     (let (got, s') = read_n (nat (schar n)) s
      in rmap (\<lambda>str. (str, s')) (rbind (ByteArray_read got (schar n)) ByteArray_string))"

definition parseMarker :: "istream \<Rightarrow> char option \<times> istream" where
  "parseMarker s = (case read_n 1 s of ([c], s') \<Rightarrow> (Some c, s') | (_, s') \<Rightarrow> (None, s'))"

definition read_combined :: "char \<Rightarrow> string \<Rightarrow> istream \<Rightarrow> (string \<times> string \<times> istream) res" where
  "read_combined n sp s =
     rbind (read_block n s) (\<lambda>(str, s').
       let v = split str sp
       in if length v < 2 then Inl UB else Inr (v ! 0, v ! 1, s'))"

definition parseHeader :: "header \<Rightarrow> istream \<Rightarrow> (header \<times> istream) res" where
  "parseHeader h s =
     (let (b, s) = read_n 2 s
      in if length b < 2 then Inl UB
         else rbind (read_char s) (\<lambda>(hl, s).
              rbind (read_char s) (\<lambda>(n, s).
              rbind (read_combined n ''|'' s) (\<lambda>(t, c, s).
                Inr (h\<lparr>model_len := short_of_bytes b, header_len := hl,
                       h_tableName := t, h_className := c\<rparr>, s)))))"

definition flag_bit :: "char \<Rightarrow> nat \<Rightarrow> bool" where
  "flag_bit c k \<longleftrightarrow> (schar c div 2 ^ k) mod 2 = 1"

definition read_optional :: "char \<Rightarrow> string \<Rightarrow> istream \<Rightarrow> (string \<times> istream) res" where
  "read_optional n old s = (if schar n > 0 then read_block n s else Inr (old, s))"

text \<open>The four lengths share one local: from the second on, a truncated file repeats the last.\<close>

definition parseColumnField :: "field_meta \<Rightarrow> istream \<Rightarrow> (field_meta \<times> istream) res" where
  "parseColumnField f s =
     rbind (read_char s) (\<lambda>(n, s).
     rbind (read_combined n ''|'' s) (\<lambda>(cname, fname, s).
     let (n, s) = reread_char n s in
     rbind (read_combined n ''|'' s) (\<lambda>(ctype, cpp, s).
     rbind (read_char s) (\<lambda>(fl, s).
     let (n, s) = reread_char n s in
     rbind (read_optional n (defaultVal f) s) (\<lambda>(dflt, s).
     let (n, s) = reread_char n s in
     rbind (read_optional n (extra f) s) (\<lambda>(ext, s).
       Inr (f\<lparr>fieldName := fname, columnName := Some cname, cppType := cpp,
              columnType := Some ctype, isPk := flag_bit fl 3, autoInc := flag_bit fl 2,
              hasIndex := flag_bit fl 1, notNull := flag_bit fl 0,
              defaultVal := dflt, extra := ext\<rparr>, s)))))))"

definition parseIndexField :: "istream \<Rightarrow> (index_info \<times> istream) res" where
  "parseIndexField s =
     rbind (read_char s) (\<lambda>(t, s).
     rbind (read_char s) (\<lambda>(n, s).
     rbind (read_block n s) (\<lambda>(name, s).
     let (n, s) = reread_char n s in
     rbind (read_block n s) (\<lambda>(cols, s).
       Inr (\<lparr>ix_type = index_type_of_char t, ix_name = name, ix_columns = split cols ''|''\<rparr>, s)))))"

section \<open>The state machine of loadFromFile\<close>

datatype parsing_state = PARSE_MARKER | PARSE_FIELD | PARSE_SUCCESS | PARSE_FAILED

text \<open>The locals of \<^verbatim>\<open>loadFromFile\<close> and its reference parameters.\<close>

record loader =
  l_state :: parsing_state
  l_ifs :: istream
  l_marker :: char
  l_header :: header
  l_field :: field_meta
  l_found :: bool
  l_columnIndex :: int
  l_tableName :: string
  l_fields :: "field_meta list"
  l_indices :: "index_info umap"
  l_nameToIndex :: "int umap"

text \<open>One round of the \<^verbatim>\<open>while\<close> loop.\<close>

definition load_step :: "string \<Rightarrow> loader \<Rightarrow> loader res" where
  "load_step className L =
     (case l_state L of
        PARSE_MARKER \<Rightarrow>
          (case parseMarker (l_ifs L) of
             (Some m, s) \<Rightarrow> Inr (L\<lparr>l_ifs := s, l_marker := m, l_state := PARSE_FIELD\<rparr>)
           | (None, s) \<Rightarrow> Inr (L\<lparr>l_ifs := s, l_state := PARSE_SUCCESS\<rparr>))
      | PARSE_FIELD \<Rightarrow>
          if l_marker L = HEADER_MARKER then
            if l_found L then Inr (L\<lparr>l_state := PARSE_SUCCESS\<rparr>)
            else rbind (parseHeader (l_header L) (l_ifs L)) (\<lambda>(h, s).
              if h_className h \<noteq> className then
                Inr (L\<lparr>l_header := h, l_ifs := seek_cur (sint (model_len h)) s,
                       l_state := PARSE_MARKER\<rparr>)
              else Inr (L\<lparr>l_header := h, l_ifs := s, l_tableName := h_tableName h,
                          l_found := True, l_state := PARSE_MARKER\<rparr>))
          else if l_marker L = COLUMN_MARKER then
            rbind (parseColumnField (l_field L) (l_ifs L)) (\<lambda>(f, s).
              let (new, old) = FieldMeta_move f
              in Inr (L\<lparr>l_ifs := s, l_field := old,
                        l_nameToIndex := uput (getColumnName f) (l_columnIndex L) (l_nameToIndex L),
                        l_columnIndex := l_columnIndex L + 1,
                        l_fields := l_fields L @ [new], l_state := PARSE_MARKER\<rparr>))
          else if l_marker L = INDEX_MARKER then
            rbind (parseIndexField (l_ifs L)) (\<lambda>(ix, s).
              Inr (L\<lparr>l_ifs := s, l_indices := uput (ix_name ix) ix (l_indices L),
                     l_state := PARSE_MARKER\<rparr>))
          else Inr (L\<lparr>l_state := PARSE_FAILED\<rparr>)
      | _ \<Rightarrow> Inr L)"

text \<open>
  The loop. It need not end: a negative \<^verbatim>\<open>model_len\<close> seeks backwards. \<open>None\<close> is an
  execution that does not return.
\<close>

partial_function (option) load_run :: "string \<Rightarrow> loader \<Rightarrow> loader res option" where
  "load_run className L =
     (if l_state L = PARSE_FAILED \<or> l_state L = PARSE_SUCCESS then Some (Inr L)
      else (case load_step className L of
              Inl e \<Rightarrow> Some (Inl e)
            | Inr L' \<Rightarrow> load_run className L'))"

definition load_start :: "bytes \<Rightarrow> string \<Rightarrow> field_meta list \<Rightarrow> index_info umap \<Rightarrow> int umap \<Rightarrow> loader" where
  "load_start content tableName flds indices nameToIndex =
     \<lparr>l_state = PARSE_MARKER, l_ifs = \<lparr>in_data = content, in_pos = 0, in_fail = False\<rparr>,
      l_marker = zero_byte, l_header = \<lparr>model_len = 0, header_len = zero_byte,
        h_className = [], h_tableName = []\<rparr>,
      l_field = FieldMeta_default, l_found = False, l_columnIndex = 0,
      l_tableName = tableName, l_fields = flds, l_indices = indices,
      l_nameToIndex = nameToIndex\<rparr>"

text \<open>
  \<^verbatim>\<open>loadFromFile\<close>: \<open>file\<close> is the content of the data file, \<open>None\<close> when it cannot be
  opened; the result is the four reference parameters.
\<close>

type_synonym loaded = "string \<times> field_meta list \<times> index_info umap \<times> int umap"

definition loadFromFile :: "bytes option \<Rightarrow> string \<Rightarrow> loaded \<Rightarrow> loaded res option" where
  "loadFromFile file className params =
     (case params of (tableName, flds, indices, nameToIndex) \<Rightarrow>
      case file of
        None \<Rightarrow> Some (Inr params)
      | Some content \<Rightarrow>
          map_option (rmap (\<lambda>L. (l_tableName L, l_fields L, l_indices L, l_nameToIndex L)))
            (load_run className (load_start content tableName flds indices nameToIndex)))"

end
