(* ===== verification/Data_File_Roundtrip.thy ===== *)
theory Data_File_Roundtrip
  imports Data_File
begin

text \<open>
  What \<^verbatim>\<open>saveModel\<close> writes and that \<^verbatim>\<open>loadFromFile\<close> reads it back: the layout of each
  structure, decoding after encoding for each of them behind one interface, and the
  lookup of one model among several in a data file.
\<close>

section \<open>Writing\<close>

definition puts :: "(byte_array \<Rightarrow> byte_array res) \<Rightarrow> bytes \<Rightarrow> bool" where
  "puts op d \<longleftrightarrow> (\<forall>a. ba_invar a \<longrightarrow> length d \<le> ba_room a \<longrightarrow> op a = fill d (int (length d)) a)"

lemma puts_str [simp]: "puts (fill_str s) s"
  by (simp add: puts_def fill_str_def)

lemma puts_char [simp]: "puts (fill_char v 1) [v]"
  by (simp add: puts_def fill_char_one)

lemma puts_len [simp]: "puts (fill_len n) [char_of n]"
  by (simp add: puts_def fill_len_def fill_char_one)

lemma puts_fill: "k = int (length d) \<Longrightarrow> puts (fill d k) d"
  by (simp add: puts_def)

lemma fill_all_puts:
  assumes "list_all2 puts ops ds" "ba_invar a" "length (concat ds) \<le> ba_room a"
  shows "fill_all ops a = rfold (\<lambda>d. fill d (int (length d))) ds a"
  using assms
proof (induction ops ds arbitrary: a rule: list_all2_induct)
  case (Cons op ops d ds)
  then have d: "op a = fill d (int (length d)) a" by (simp add: puts_def)
  obtain a' where a': "fill d (int (length d)) a = Inr a'" "ba_invar a'"
      "ba_room a' = ba_room a - length d"
    using fill_ok[of a d] Cons.prems by auto
  then have "fill_all ops a' = rfold (\<lambda>d. fill d (int (length d))) ds a'"
    using Cons.prems by (intro Cons.IH) auto
  with d a' show ?case by (simp add: fill_all_def)
qed (simp add: fill_all_def)

lemma write_all:
  assumes "list_all2 puts ops ds" "n = int (length (concat ds))"
  shows "\<exists>a. rbind (ByteArray_new n) (fill_all ops) = Inr a \<and> ByteArray_string a = Inr (concat ds)"
proof -
  obtain a where a: "ByteArray_new n = Inr a" "ba_invar a" "ba_view a = []" "ba_room a = nat n"
    using ba_new[of n] assms(2) by auto
  obtain a' where a': "rfold (\<lambda>d. fill d (int (length d))) ds a = Inr a'" "ba_invar a'"
      "ba_view a' = concat ds" "ba_room a' = 0"
    using array_sink.put_exactly[of a ds] a assms(2) by auto
  have "fill_all ops a = Inr a'"
    using fill_all_puts[OF assms(1) a(2)] a(4) assms(2) a'(1) by simp
  with a a' show ?thesis using ByteArray_string_full[OF a'(2,4)] by simp
qed

lemma sint_word16 [simp]: "n < 2 ^ 15 \<Longrightarrow> sint (word_of_nat n :: 16 word) = int n"
  by (simp add: signed_of_nat signed_take_bit_int_eq_self)

subsection \<open>Layouts\<close>

definition str_field :: "string \<Rightarrow> bytes" where
  "str_field s = char_of (length s) # s"

definition sep_ok :: "string \<Rightarrow> bool" where
  "sep_ok s \<longleftrightarrow> s \<noteq> [] \<and> CHR ''|'' \<notin> set s"

definition field_ok :: "json \<Rightarrow> field_meta \<Rightarrow> bool" where
  "field_ok conf f \<longleftrightarrow> sep_ok (getColumnName f) \<and> sep_ok (fieldName f)
     \<and> sep_ok (getColumnType conf f) \<and> sep_ok (cppType f)
     \<and> length (getColumnName f) + length (fieldName f) + 1 \<le> 127
     \<and> length (getColumnType conf f) + length (cppType f) + 1 \<le> 127
     \<and> length (defaultVal f) \<le> 127 \<and> length (extra f) \<le> 127"

definition field_flags :: "field_meta \<Rightarrow> char" where
  "field_flags f = flags (ColumnField_of JNull f)"

definition column_body :: "json \<Rightarrow> field_meta \<Rightarrow> bytes" where
  "column_body conf f =
     str_field (getColumnName f @ ''|'' @ fieldName f)
     @ str_field (getColumnType conf f @ ''|'' @ cppType f)
     @ [field_flags f] @ str_field (defaultVal f) @ str_field (extra f)"

definition index_ok :: "index_info \<Rightarrow> bool" where
  "index_ok i \<longleftrightarrow> ix_type i \<in> {INDEX_TYPE_UNI, INDEX_TYPE_MUL, INDEX_TYPE_PRI}
     \<and> (\<forall>c \<in> set (ix_columns i). sep_ok c)
     \<and> 4 + length (ix_name i) + length (join ''|'' (ix_columns i)) \<le> 127"

definition type_byte :: "index_type \<Rightarrow> char" where
  "type_byte t = (case index_type_char t of Inl _ \<Rightarrow> zero_byte | Inr c \<Rightarrow> c)"

definition index_body :: "index_info \<Rightarrow> bytes" where
  "index_body i = [type_byte (ix_type i)] @ str_field (ix_name i)
     @ str_field (join ''|'' (ix_columns i))"

definition names_ok :: "string \<Rightarrow> string \<Rightarrow> bool" where
  "names_ok cName tName \<longleftrightarrow> sep_ok cName \<and> sep_ok tName \<and> 5 + length cName + length tName \<le> 127"

definition header_body :: "16 word \<Rightarrow> string \<Rightarrow> string \<Rightarrow> bytes" where
  "header_body n cName tName = bytes_of_short n
     @ [char_of (5 + length cName + length tName)] @ str_field (tName @ ''|'' @ cName)"

lemma write_column:
  assumes "field_ok conf f"
  shows "\<exists>a. ColumnField_toByteArray (ColumnField_of conf f) = Inr a
     \<and> ByteArray_string a = Inr (COLUMN_MARKER # column_body conf f)"
    and "column_len (ColumnField_of conf f) = word_of_nat (length (COLUMN_MARKER # column_body conf f))"
proof -
  define c where "c = ColumnField_of conf f"
  define ds where "ds = [[COLUMN_MARKER], [char_of (length (columnId c))], columnId c,
     [char_of (length (dataType c))], dataType c, [flags c],
     [char_of (length (columnDefault c))], columnDefault c,
     [char_of (length (columnExtra c))], columnExtra c]"
  have flat: "concat ds = COLUMN_MARKER # column_body conf f"
    by (simp add: ds_def c_def ColumnField_of_def Let_def column_body_def str_field_def field_flags_def)
  have len: "length (concat ds) = 2 + length (columnId c) + 1 + length (dataType c)
      + 2 + length (columnDefault c) + 1 + length (columnExtra c)"
    by (simp add: ds_def)
  have c: "column_len c = word_of_nat (length (concat ds))"
    by (simp add: len c_def ColumnField_of_def Let_def)
  then show "column_len (ColumnField_of conf f) = word_of_nat (length (COLUMN_MARKER # column_body conf f))"
    by (simp only: flat c_def)
  have "length (concat ds) < 2 ^ 15"
    using assms by (simp add: len c_def ColumnField_of_def Let_def field_ok_def)
  then have "sint (column_len c) = int (length (concat ds))" by (simp add: c)
  then show "\<exists>a. ColumnField_toByteArray (ColumnField_of conf f) = Inr a
     \<and> ByteArray_string a = Inr (COLUMN_MARKER # column_body conf f)"
    unfolding c_def[symmetric] ColumnField_toByteArray_def flat[symmetric]
    by (intro write_all) (simp_all add: ds_def)
qed

lemma write_index:
  assumes "index_ok i"
  shows "\<exists>xf a. IndexField_of i = Inr xf \<and> IndexField_toByteArray xf = Inr a
     \<and> ByteArray_string a = Inr (INDEX_MARKER # index_body i)
     \<and> schar (index_len xf) = int (length (INDEX_MARKER # index_body i))"
proof -
  obtain t where t: "index_type_char (ix_type i) = Inr t" "type_byte (ix_type i) = t"
    using assms by (auto simp: index_ok_def type_byte_def)
  define cols where "cols = join ''|'' (ix_columns i)"
  define xf where "xf = \<lparr>indexType = t, indexName = ix_name i, indexColumns = cols,
      index_len = char_of (2 + 1 + length (ix_name i) + 1 + length cols)\<rparr>"
  have xf: "IndexField_of i = Inr xf" by (simp add: IndexField_of_def t xf_def cols_def Let_def)
  define ds where "ds = [[INDEX_MARKER, t], [char_of (length (ix_name i))], ix_name i,
      [char_of (length cols)], cols]"
  have flat: "concat ds = INDEX_MARKER # index_body i"
    by (simp add: ds_def index_body_def str_field_def cols_def t)
  have len: "schar (index_len xf) = int (length (concat ds))"
    using assms by (simp add: xf_def ds_def index_ok_def cols_def)
  then have "\<exists>a. IndexField_toByteArray xf = Inr a \<and> ByteArray_string a = Inr (concat ds)"
    unfolding IndexField_toByteArray_def
    by (intro write_all) (simp_all add: ds_def xf_def puts_fill)
  with xf len flat show ?thesis by auto
qed

lemma write_header:
  assumes "names_ok c t"
  shows "\<exists>a. Header_toByteArray ((Header_of c t)\<lparr>model_len := n\<rparr>) = Inr a
     \<and> ByteArray_string a = Inr (HEADER_MARKER # header_body n c t)"
proof -
  define h where "h = (Header_of c t)\<lparr>model_len := n\<rparr>"
  define ds where "ds = [[HEADER_MARKER], bytes_of_short n, [header_len h],
     [char_of (length (h_className h) + length (h_tableName h) + 1)], t, ''|'', c]"
  have flat: "concat ds = HEADER_MARKER # header_body n c t"
    by (simp add: ds_def h_def Header_of_def header_body_def str_field_def ac_simps)
  have len: "schar (header_len h) + 1 = int (length (concat ds))"
    using assms by (simp add: ds_def h_def Header_of_def names_ok_def bytes_of_short_def)
  then show ?thesis
    unfolding h_def[symmetric] Header_toByteArray_def flat[symmetric]
    by (intro write_all) (simp_all add: ds_def puts_fill h_def Header_of_def bytes_of_short_def)
qed

subsection \<open>A whole model\<close>

definition columns_bytes :: "json \<Rightarrow> field_meta list \<Rightarrow> bytes" where
  "columns_bytes conf fs = concat (map (\<lambda>f. COLUMN_MARKER # column_body conf f) fs)"

definition indices_bytes :: "index_info list \<Rightarrow> bytes" where
  "indices_bytes is = concat (map (\<lambda>i. INDEX_MARKER # index_body i) is)"

lemma save_columns_ok:
  assumes "\<forall>f \<in> set fs. field_ok conf f"
  shows "\<exists>cols'. save_columns conf fs (cols, h) = Inr (cols',
       h\<lparr>model_len := model_len h + word_of_nat (length (columns_bytes conf fs))\<rparr>)
     \<and> concat cols' = concat cols @ columns_bytes conf fs"
  using assms
proof (induction fs arbitrary: cols h)
  case (Cons f fs)
  define b where "b = COLUMN_MARKER # column_body conf f"
  define h' where "h' = h\<lparr>model_len := model_len h + word_of_nat (length b)\<rparr>"
  obtain a where a: "ColumnField_toByteArray (ColumnField_of conf f) = Inr a" "ByteArray_string a = Inr b"
    using write_column(1)[of conf f] Cons.prems unfolding b_def by auto
  then have "save_columns conf (f # fs) (cols, h) = save_columns conf fs (cols @ [b], h')"
    using write_column(2)[of conf f] Cons.prems by (simp add: save_columns_def Let_def h'_def b_def)
  moreover obtain cols' where "save_columns conf fs (cols @ [b], h') = Inr (cols',
       h'\<lparr>model_len := model_len h' + word_of_nat (length (columns_bytes conf fs))\<rparr>)"
     "concat cols' = concat (cols @ [b]) @ columns_bytes conf fs"
    using Cons.IH[of "cols @ [b]" h'] Cons.prems by auto
  ultimately show ?case
    by (auto simp: h'_def columns_bytes_def b_def add.assoc)
qed (simp add: save_columns_def columns_bytes_def)

lemma save_indices_ok:
  assumes "\<forall>i \<in> set is. index_ok i"
  shows "\<exists>inds'. save_indices is (inds, h) = Inr (inds',
       h\<lparr>model_len := model_len h + word_of_nat (length (indices_bytes is))\<rparr>)
     \<and> concat inds' = concat inds @ indices_bytes is"
  using assms
proof (induction "is" arbitrary: inds h)
  case (Cons i "is")
  define b where "b = INDEX_MARKER # index_body i"
  define h' where "h' = h\<lparr>model_len := model_len h + word_of_nat (length b)\<rparr>"
  obtain xf a where a: "IndexField_of i = Inr xf" "IndexField_toByteArray xf = Inr a"
      "ByteArray_string a = Inr b" "schar (index_len xf) = int (length b)"
    using write_index[of i] Cons.prems unfolding b_def by auto
  then have "save_indices (i # is) (inds, h) = save_indices is (inds @ [b], h')"
    by (simp add: save_indices_def h'_def)
  moreover obtain inds' where "save_indices is (inds @ [b], h') = Inr (inds',
       h'\<lparr>model_len := model_len h' + word_of_nat (length (indices_bytes is))\<rparr>)"
     "concat inds' = concat (inds @ [b]) @ indices_bytes is"
    using Cons.IH[of "inds @ [b]" h'] Cons.prems by auto
  ultimately show ?case
    by (auto simp: h'_def indices_bytes_def b_def add.assoc)
qed (simp add: save_indices_def indices_bytes_def)

definition model_body :: "json \<Rightarrow> field_meta list \<Rightarrow> index_info list \<Rightarrow> bytes" where
  "model_body conf fs is = columns_bytes conf fs @ indices_bytes is"

lemma saveModel_ok:
  assumes "\<forall>f \<in> set fs. field_ok conf f" "\<forall>i \<in> set (map snd indices). index_ok i" "names_ok c t"
  shows "saveModel conf fs indices (Header_of c t) =
    Inr (HEADER_MARKER # header_body (word_of_nat (length (model_body conf fs (map snd indices)))) c t
         @ model_body conf fs (map snd indices))"
proof -
  let ?h = "Header_of c t"
  have 0: "model_len ?h = 0" by (simp add: Header_of_def)
  define n1 where "n1 = (word_of_nat (length (columns_bytes conf fs)) :: 16 word)"
  define n2 where "n2 = (word_of_nat (length (indices_bytes (map snd indices))) :: 16 word)"
  obtain cols where cols: "save_columns conf fs ([], ?h) = Inr (cols, ?h\<lparr>model_len := n1\<rparr>)"
      "concat cols = columns_bytes conf fs"
    using save_columns_ok[OF assms(1), of "[]" ?h] 0 by (auto simp: n1_def)
  obtain inds where inds: "save_indices (map snd indices) ([], ?h\<lparr>model_len := n1\<rparr>)
        = Inr (inds, ?h\<lparr>model_len := n1 + n2\<rparr>)"
      "concat inds = indices_bytes (map snd indices)"
    using save_indices_ok[OF assms(2), of "[]" "?h\<lparr>model_len := n1\<rparr>"] by (auto simp: n2_def)
  obtain a where "Header_toByteArray (?h\<lparr>model_len := n1 + n2\<rparr>) = Inr a"
      "ByteArray_string a = Inr (HEADER_MARKER # header_body (n1 + n2) c t)"
    using write_header[OF assms(3), of "n1 + n2"] by blast
  with cols inds show ?thesis
    by (simp add: saveModel_def model_body_def n1_def n2_def)
qed

end
