(* ===== verification/Data_File_Load.thy ===== *)
theory Data_File_Load
  imports Data_File_Roundtrip
begin

text \<open>
  Reading the data file back. The parsers of the three structures satisfy one contract,
  \<open>record_codec\<close> (decoding after encoding, at any position and before any rest), and the
  state machine of \<^verbatim>\<open>loadFromFile\<close> absorbs a run of such records, \<open>record_loop\<close>. The
  loops over the columns, the indices and the models to skip are its interpretations.
\<close>

section \<open>Positions in a stream\<close>

definition at :: "istream \<Rightarrow> bytes \<Rightarrow> bool" where
  "at s r \<longleftrightarrow> \<not> in_fail s \<and> in_pos s \<le> length (in_data s) \<and> drop (in_pos s) (in_data s) = r"

definition advance :: "nat \<Rightarrow> istream \<Rightarrow> istream" where
  "advance n s = s\<lparr>in_pos := in_pos s + n\<rparr>"

named_theorems at_simps "reading at a known position"

lemma advance_advance [simp]: "advance m (advance n s) = advance (n + m) s"
  by (simp add: advance_def add.assoc)

lemma at_advance [at_simps]:
  assumes "at s (a @ b)"
  shows "at (advance (length a) s) b"
proof -
  have d: "drop (in_pos s) (in_data s) = a @ b" and p: "in_pos s \<le> length (in_data s)"
    and f: "\<not> in_fail s"
    using assms by (auto simp: at_def)
  have "drop (in_pos s + length a) (in_data s) = drop (length a) (drop (in_pos s) (in_data s))"
    by (simp add: add.commute)
  also have "\<dots> = b" by (simp add: d)
  finally have "drop (in_pos s + length a) (in_data s) = b" .
  moreover have "in_pos s + length a \<le> length (in_data s)"
    using p arg_cong[OF d, of length] by simp
  ultimately show ?thesis using f by (simp add: at_def advance_def)
qed

lemma at_advance1 [at_simps]: "at s (c # b) \<Longrightarrow> at (advance (Suc 0) s) b"
  using at_advance[of s "[c]" b] by simp

lemma read_n_at: "at s (a @ b) \<Longrightarrow> read_n (length a) s = (a, advance (length a) s)"
  by (simp add: at_def read_n_def advance_def Let_def)

lemma read_char_at [at_simps]: "at s (c # b) \<Longrightarrow> read_char s = Inr (c, advance (Suc 0) s)"
  using read_n_at[of s "[c]" b] by (simp add: read_char_def)

lemma reread_char_of: "read_char s = Inr (c, s') \<Longrightarrow> reread_char d s = (c, s')"
  by (auto simp: read_char_def reread_char_def split: prod.splits list.splits)

lemma parseMarker_at [at_simps]: "at s (c # b) \<Longrightarrow> parseMarker s = (Some c, advance (Suc 0) s)"
  using read_n_at[of s "[c]" b] by (simp add: parseMarker_def)

lemma parseMarker_end: "at s [] \<Longrightarrow> \<exists>s'. parseMarker s = (None, s')"
  by (auto simp: at_def parseMarker_def read_n_def Let_def)

lemma read_block_at [at_simps]:
  assumes "at s (a @ b)" "length a \<le> 127"
  shows "read_block (char_of (length a)) s = Inr (a, advance (length a) s)"
proof -
  have "schar (char_of (length a)) = int (length a)" using assms(2) by simp
  then show ?thesis
    using read_n_at[OF assms(1)] ByteArray_string_read[of a "int (length a)"]
    by (simp add: read_block_def)
qed

lemma read_combined_at [at_simps]:
  assumes "at s ((a @ ''|'' @ b) @ r)" "sep_ok a" "sep_ok b" "length a + length b + 1 \<le> 127"
  shows "read_combined (char_of (length (a @ ''|'' @ b))) ''|'' s
     = Inr (a, b, advance (length (a @ ''|'' @ b)) s)"
proof -
  have "read_block (char_of (length (a @ ''|'' @ b))) s
      = Inr (a @ ''|'' @ b, advance (length (a @ ''|'' @ b)) s)"
    using assms by (intro read_block_at) auto
  moreover have "split (a @ ''|'' @ b) ''|'' = [a, b]"
    using split_pair[of a b "CHR ''|''"] assms by (simp add: sep_ok_def)
  ultimately show ?thesis by (simp add: read_combined_def)
qed

lemma read_optional_at [at_simps]:
  assumes "at s (a @ b)" "length a \<le> 127"
  shows "read_optional (char_of (length a)) [] s = Inr (a, advance (length a) s)"
proof (cases "a = []")
  case True
  then show ?thesis by (simp add: read_optional_def advance_def)
next
  case False
  then show ?thesis using read_block_at[OF assms] assms(2) by (simp add: read_optional_def)
qed

section \<open>The contract of a record\<close>

locale record_codec =
  fixes enc :: "'a \<Rightarrow> bytes"
    and dec :: "'d \<Rightarrow> istream \<Rightarrow> ('r \<times> istream) res"
    and ok :: "'a \<Rightarrow> bool"
    and ready :: "'d \<Rightarrow> bool"
    and stored :: "'d \<Rightarrow> 'a \<Rightarrow> 'r"
  assumes dec_enc: "ok x \<Longrightarrow> ready d \<Longrightarrow> at s (enc x @ rest) \<Longrightarrow>
      dec d s = Inr (stored d x, advance (length (enc x)) s)"

locale record_loop = record_codec enc dec ok ready stored
  for enc :: "'a \<Rightarrow> bytes"
    and dec :: "'d \<Rightarrow> istream \<Rightarrow> ('r \<times> istream) res"
    and ok ready stored +
  fixes run :: "'L \<Rightarrow> 'o"
    and stream :: "'L \<Rightarrow> istream"
    and fits :: "'L \<Rightarrow> bool"
    and ctx :: "'L \<Rightarrow> 'd"
    and mark :: char
    and absorb :: "'r \<Rightarrow> istream \<Rightarrow> 'L \<Rightarrow> 'L"
  assumes ctx_ready: "fits L \<Longrightarrow> ready (ctx L)"
    and step: "fits L \<Longrightarrow> ok x \<Longrightarrow> at (stream L) (mark # body) \<Longrightarrow>
      dec (ctx L) (advance 1 (stream L)) = Inr (stored (ctx L) x, s') \<Longrightarrow>
      run L = run (absorb (stored (ctx L) x) s' L)"
    and stream_absorb: "stream (absorb r s' L) = s'"
    and fits_absorb: "fits L \<Longrightarrow> ok x \<Longrightarrow> fits (absorb (stored (ctx L) x) s' L)"
begin

definition eat :: "'a \<Rightarrow> 'L \<Rightarrow> 'L" where
  "eat x L = absorb (stored (ctx L) x) (advance (Suc (length (enc x))) (stream L)) L"

lemma run_one:
  assumes "fits L" "ok x" "at (stream L) ((mark # enc x) @ rest)"
  shows "run L = run (eat x L) \<and> fits (eat x L) \<and> at (stream (eat x L)) rest"
proof -
  have *: "at (advance 1 (stream L)) (enc x @ rest)"
    using assms(3) at_advance1 by fastforce
  have "dec (ctx L) (advance 1 (stream L))
      = Inr (stored (ctx L) x, advance (length (enc x)) (advance 1 (stream L)))"
    using assms(1,2) * by (intro dec_enc ctx_ready)
  then have "run L = run (eat x L)"
    using step[OF assms(1,2)] assms(3) by (simp add: eat_def)
  moreover have "at (stream (eat x L)) rest"
    using at_advance[OF *] by (simp add: eat_def stream_absorb)
  ultimately show ?thesis using fits_absorb[OF assms(1,2)] by (simp add: eat_def)
qed

lemma run_all:
  assumes "fits L" "\<forall>x \<in> set xs. ok x" "at (stream L) (concat (map (\<lambda>x. mark # enc x) xs) @ rest)"
  shows "run L = run (fold eat xs L) \<and> fits (fold eat xs L) \<and> at (stream (fold eat xs L)) rest"
  using assms
proof (induction xs arbitrary: L)
  case (Cons x xs)
  then have "run L = run (eat x L) \<and> fits (eat x L)
      \<and> at (stream (eat x L)) (concat (map (\<lambda>x. mark # enc x) xs) @ rest)"
    by (intro run_one) auto
  with Cons.IH[of "eat x L"] Cons.prems show ?case by simp
qed simp

end

section \<open>The three structures\<close>

text \<open>A reused \<^verbatim>\<open>fieldMeta\<close> is clean when nothing of the previous column is left in it.\<close>

definition clean :: "field_meta \<Rightarrow> bool" where
  "clean d \<longleftrightarrow> defaultVal d = [] \<and> extra d = [] \<and> fieldIndex d = Index_default
     \<and> fieldOffset d = None \<and> \<not> ignored d"

text \<open>What of a field survives in the data file.\<close>

definition stored_field :: "json \<Rightarrow> field_meta \<Rightarrow> field_meta" where
  "stored_field conf f = FieldMeta_default\<lparr>fieldName := fieldName f, cppType := cppType f,
     columnName := Some (getColumnName f), columnType := Some (getColumnType conf f),
     isPk := isPk f, autoInc := autoInc f, hasIndex := hasIndex f, notNull := notNull f,
     defaultVal := defaultVal f, extra := extra f\<rparr>"

lemma flag_bits:
  "flag_bit (field_flags f) 3 = isPk f" "flag_bit (field_flags f) 2 = autoInc f"
  "flag_bit (field_flags f) (Suc 0) = hasIndex f" "flag_bit (field_flags f) 0 = notNull f"
  by (cases "isPk f"; cases "autoInc f"; cases "hasIndex f"; cases "notNull f";
      simp add: flag_bit_def field_flags_def ColumnField_of_def Let_def)+

lemma at_assoc: "at s ((a @ b) @ c) = at s (a @ b @ c)"
  by simp

lemma read_str_at:
  assumes "at s (str_field a @ b)"
  shows "read_char s = Inr (char_of (length a), advance (Suc 0) s)" "at (advance (Suc 0) s) (a @ b)"
  using assms read_char_at[of s "char_of (length a)" "a @ b"] at_advance1[of s "char_of (length a)" "a @ b"]
  by (simp_all add: str_field_def)

lemma parseColumnField_at:
  assumes "field_ok conf f" "clean d" "at s (column_body conf f @ rest)"
  shows "parseColumnField d s = Inr (stored_field conf f, advance (length (column_body conf f)) s)"
proof -
  define cid where "cid = getColumnName f @ ''|'' @ fieldName f"
  define dt where "dt = getColumnType conf f @ ''|'' @ cppType f"
  note ok = assms(1)[unfolded field_ok_def]
  define r5 where "r5 = str_field (extra f) @ rest"
  define r4 where "r4 = str_field (defaultVal f) @ r5"
  define r3 where "r3 = field_flags f # r4"
  define r2 where "r2 = str_field dt @ r3"
  have s: "at s (str_field cid @ r2)"
    using assms(3) by (simp add: column_body_def cid_def dt_def r2_def r3_def r4_def r5_def)
  note 1 = read_str_at[OF s]
  define s1 where "s1 = advance (length cid) (advance (Suc 0) s)"
  have 2: "read_combined (char_of (length cid)) ''|'' (advance (Suc 0) s) = Inr (getColumnName f, fieldName f, s1)"
    unfolding s1_def cid_def using ok 1(2) by (intro read_combined_at[where r = r2]) (auto simp: cid_def)
  have s1: "at s1 (str_field dt @ r3)" unfolding s1_def r2_def[symmetric] by (rule at_advance[OF 1(2)])
  note 3 = read_str_at[OF s1]
  define s2 where "s2 = advance (length dt) (advance (Suc 0) s1)"
  have 4: "read_combined (char_of (length dt)) ''|'' (advance (Suc 0) s1) = Inr (getColumnType conf f, cppType f, s2)"
    unfolding s2_def dt_def using ok 3(2) by (intro read_combined_at[where r = r3]) (auto simp: dt_def)
  have s2: "at s2 (field_flags f # r4)" unfolding s2_def r3_def[symmetric] by (rule at_advance[OF 3(2)])
  note 5 = read_char_at[OF s2]
  have s3: "at (advance (Suc 0) s2) (str_field (defaultVal f) @ r5)"
    using at_advance1[OF s2] by (simp add: r4_def)
  note 6 = read_str_at[OF s3]
  define s4 where "s4 = advance (length (defaultVal f)) (advance (Suc 0) (advance (Suc 0) s2))"
  have 7: "read_optional (char_of (length (defaultVal f))) [] (advance (Suc 0) (advance (Suc 0) s2))
      = Inr (defaultVal f, s4)"
    unfolding s4_def using ok 6(2) by (intro read_optional_at) auto
  have s4: "at s4 (str_field (extra f) @ rest)"
    unfolding s4_def r5_def[symmetric] by (rule at_advance[OF 6(2)])
  note 8 = read_str_at[OF s4]
  define s5 where "s5 = advance (length (extra f)) (advance (Suc 0) s4)"
  have 9: "read_optional (char_of (length (extra f))) [] (advance (Suc 0) s4) = Inr (extra f, s5)"
    unfolding s5_def using ok 8(2) by (intro read_optional_at) auto
  have "parseColumnField d s = Inr (d\<lparr>fieldName := fieldName f, columnName := Some (getColumnName f),
      cppType := cppType f, columnType := Some (getColumnType conf f), isPk := isPk f,
      autoInc := autoInc f, hasIndex := hasIndex f, notNull := notNull f,
      defaultVal := defaultVal f, extra := extra f\<rparr>, s5)"
    using assms(2) 1(1) 2 reread_char_of[OF 3(1)] 4 5 reread_char_of[OF 6(1)] 7 reread_char_of[OF 8(1)] 9
    by (simp add: parseColumnField_def clean_def flag_bits)
  moreover have "s5 = advance (length (column_body conf f)) s"
    by (simp add: s5_def s4_def s2_def s1_def column_body_def str_field_def cid_def dt_def
        del: length_append) (simp add: ac_simps)
  moreover have "d\<lparr>fieldName := fieldName f, columnName := Some (getColumnName f),
      cppType := cppType f, columnType := Some (getColumnType conf f), isPk := isPk f,
      autoInc := autoInc f, hasIndex := hasIndex f, notNull := notNull f,
      defaultVal := defaultVal f, extra := extra f\<rparr> = stored_field conf f"
    using assms(2) by (cases d) (simp add: clean_def stored_field_def FieldMeta_default_def)
  ultimately show ?thesis by simp
qed

interpretation column_codec: record_codec "column_body conf" parseColumnField "field_ok conf" clean
    "\<lambda>_. stored_field conf"
  for conf
  by unfold_locales (rule parseColumnField_at)


lemma index_type_byte: "t \<in> {INDEX_TYPE_UNI, INDEX_TYPE_MUL, INDEX_TYPE_PRI} \<Longrightarrow>
    index_type_of_char (type_byte t) = t"
  by (auto simp: type_byte_def index_type_of_char_def)

lemma parseIndexField_at:
  assumes "index_ok i" "at s (index_body i @ rest)"
  shows "parseIndexField s = Inr (i, advance (length (index_body i)) s)"
proof -
  define cols where "cols = join ''|'' (ix_columns i)"
  define r2 where "r2 = str_field cols @ rest"
  define r1 where "r1 = str_field (ix_name i) @ r2"
  note ok = assms(1)[unfolded index_ok_def]
  have s: "at s (type_byte (ix_type i) # r1)"
    using assms(2) by (simp add: index_body_def r1_def r2_def cols_def)
  note 1 = read_char_at[OF s]
  define s1 where "s1 = advance (Suc 0) s"
  have s1: "at s1 (str_field (ix_name i) @ r2)" using at_advance1[OF s] by (simp add: r1_def s1_def)
  note 2 = read_str_at[OF s1]
  define s2 where "s2 = advance (length (ix_name i)) (advance (Suc 0) s1)"
  have 3: "read_block (char_of (length (ix_name i))) (advance (Suc 0) s1) = Inr (ix_name i, s2)"
    unfolding s2_def using ok 2(2) by (intro read_block_at) auto
  have s2: "at s2 (str_field cols @ rest)" unfolding s2_def r2_def[symmetric] by (rule at_advance[OF 2(2)])
  note 4 = read_str_at[OF s2]
  define s3 where "s3 = advance (length cols) (advance (Suc 0) s2)"
  have 5: "read_block (char_of (length cols)) (advance (Suc 0) s2) = Inr (cols, s3)"
    unfolding s3_def using ok 4(2) by (intro read_block_at) (auto simp: cols_def)
  have "split cols ''|'' = ix_columns i"
    unfolding cols_def using ok by (intro split_join) (auto simp: sep_ok_def)
  moreover have "index_type_of_char (type_byte (ix_type i)) = ix_type i"
    using ok by (intro index_type_byte) blast
  ultimately have "parseIndexField s = Inr (i, s3)"
    using 1 2(1) 3 reread_char_of[OF 4(1)] 5 by (simp add: parseIndexField_def flip: s1_def)
  moreover have "s3 = advance (length (index_body i)) s"
    by (simp add: s3_def s2_def s1_def index_body_def str_field_def cols_def)
  ultimately show ?thesis by simp
qed

interpretation index_codec: record_codec index_body "\<lambda>_::unit. parseIndexField" index_ok "\<lambda>_. True" "\<lambda>_ i. i"
  by unfold_locales (rule parseIndexField_at)

lemma short_of_bytes_of_short [simp]: "short_of_bytes (bytes_of_short w) = w"
proof -
  have "unat w < 65536" using unsigned_less[of w] by simp
  then have "unat w div 256 < 256" by simp
  then show ?thesis by (simp add: short_of_bytes_def bytes_of_short_def)
qed

definition header_set :: "header \<Rightarrow> 16 word \<Rightarrow> string \<Rightarrow> string \<Rightarrow> header" where
  "header_set h n c t = h\<lparr>model_len := n, header_len := char_of (5 + length c + length t),
     h_tableName := t, h_className := c\<rparr>"

lemma parseHeader_at:
  assumes "names_ok c t" "at s (header_body n c t @ rest)"
  shows "parseHeader h s = Inr (header_set h n c t, advance (length (header_body n c t)) s)"
proof -
  define nm where "nm = t @ ''|'' @ c"
  define hl where "hl = (char_of (5 + length c + length t) :: char)"
  note ok = assms(1)[unfolded names_ok_def]
  have two: "length (bytes_of_short n) = 2" by (simp add: bytes_of_short_def)
  have s: "at s (bytes_of_short n @ hl # str_field nm @ rest)"
    using assms(2) by (simp add: header_body_def nm_def hl_def)
  note 1 = read_n_at[OF s, unfolded two]
  define s1 where "s1 = advance 2 s"
  have s1: "at s1 (hl # str_field nm @ rest)" unfolding s1_def using at_advance[OF s] two by simp
  note 2 = read_char_at[OF s1]
  define s2 where "s2 = advance (Suc 0) s1"
  have s2: "at s2 (str_field nm @ rest)" unfolding s2_def by (rule at_advance1[OF s1])
  note 3 = read_str_at[OF s2]
  define s3 where "s3 = advance (length nm) (advance (Suc 0) s2)"
  have 4: "read_combined (char_of (length nm)) ''|'' (advance (Suc 0) s2) = Inr (t, c, s3)"
    unfolding s3_def nm_def using ok 3(2) by (intro read_combined_at[where r = rest]) (auto simp: nm_def)
  have "parseHeader h s = Inr (header_set h n c t, s3)"
    using 1 2 3(1) 4 two by (simp add: parseHeader_def header_set_def hl_def flip: s1_def s2_def)
  moreover have "length (header_body n c t) = 2 + (1 + (1 + length nm))"
    by (simp add: header_body_def str_field_def nm_def bytes_of_short_def)
  then have "s3 = advance (length (header_body n c t)) s"
    by (simp add: s3_def s2_def s1_def eval_nat_numeral)
  ultimately show ?thesis by simp
qed

section \<open>Models in a data file\<close>

record saved_model =
  sv_class :: string
  sv_table :: string
  sv_fields :: "field_meta list"
  sv_indices :: "index_info umap"

definition sv_body :: "json \<Rightarrow> saved_model \<Rightarrow> bytes" where
  "sv_body conf m = model_body conf (sv_fields m) (map snd (sv_indices m))"

definition sv_rest :: "json \<Rightarrow> saved_model \<Rightarrow> bytes" where
  "sv_rest conf m = header_body (word_of_nat (length (sv_body conf m))) (sv_class m) (sv_table m)
     @ sv_body conf m"

text \<open>
  The models the data file can hold: names without the separator, strings and records
  within their length bytes, and the whole within a \<^verbatim>\<open>short\<close>.
\<close>

definition model_ok :: "json \<Rightarrow> saved_model \<Rightarrow> bool" where
  "model_ok conf m \<longleftrightarrow> names_ok (sv_class m) (sv_table m)
     \<and> (\<forall>f \<in> set (sv_fields m). field_ok conf f)
     \<and> (\<forall>i \<in> set (map snd (sv_indices m)). index_ok i)
     \<and> (\<forall>(k, i) \<in> set (sv_indices m). k = ix_name i)
     \<and> distinct (map fst (sv_indices m))
     \<and> length (sv_body conf m) \<le> 32767"

lemma saveModel_bytes:
  "model_ok conf m \<Longrightarrow>
   saveModel conf (sv_fields m) (sv_indices m) (Header_of (sv_class m) (sv_table m))
     = Inr (HEADER_MARKER # sv_rest conf m)"
  by (simp add: saveModel_ok model_ok_def sv_rest_def sv_body_def)

section \<open>The loop over one kind of record\<close>

lemma marker_distinct [simp]:
  "COLUMN_MARKER \<noteq> HEADER_MARKER" "INDEX_MARKER \<noteq> HEADER_MARKER" "INDEX_MARKER \<noteq> COLUMN_MARKER"
  by (simp_all add: HEADER_MARKER_def COLUMN_MARKER_def INDEX_MARKER_def char_of_eq_iff)

lemma load_run_step:
  "l_state L = PARSE_MARKER \<or> l_state L = PARSE_FIELD \<Longrightarrow> load_step cls L = Inr L' \<Longrightarrow>
   load_run cls L = load_run cls L'"
  by (subst load_run.simps) auto

lemma load_run_marker:
  assumes "l_state L = PARSE_MARKER" "at (l_ifs L) (m # b)"
  shows "load_run cls L = load_run cls
    (L\<lparr>l_ifs := advance (Suc 0) (l_ifs L), l_marker := m, l_state := PARSE_FIELD\<rparr>)"
  by (rule load_run_step) (use assms parseMarker_at[OF assms(2)] in \<open>simp_all add: load_step_def\<close>)

definition absorb_column :: "field_meta \<Rightarrow> istream \<Rightarrow> loader \<Rightarrow> loader" where
  "absorb_column f s L = L\<lparr>l_ifs := s, l_marker := COLUMN_MARKER,
     l_field := snd (FieldMeta_move f),
     l_nameToIndex := uput (getColumnName f) (l_columnIndex L) (l_nameToIndex L),
     l_columnIndex := l_columnIndex L + 1,
     l_fields := l_fields L @ [f], l_state := PARSE_MARKER\<rparr>"

definition absorb_index :: "index_info \<Rightarrow> istream \<Rightarrow> loader \<Rightarrow> loader" where
  "absorb_index i s L = L\<lparr>l_ifs := s, l_marker := INDEX_MARKER,
     l_indices := uput (ix_name i) i (l_indices L), l_state := PARSE_MARKER\<rparr>"

definition absorb_skip :: "header \<Rightarrow> istream \<Rightarrow> loader \<Rightarrow> loader" where
  "absorb_skip h s L = L\<lparr>l_ifs := s, l_marker := HEADER_MARKER, l_header := h,
     l_state := PARSE_MARKER\<rparr>"

definition column_fits :: "loader \<Rightarrow> bool" where
  "column_fits L \<longleftrightarrow> l_state L = PARSE_MARKER \<and> clean (l_field L)"

definition skip_fits :: "loader \<Rightarrow> bool" where
  "skip_fits L \<longleftrightarrow> l_state L = PARSE_MARKER \<and> \<not> l_found L \<and> clean (l_field L)"

lemma column_step:
  assumes "column_fits L" "at (l_ifs L) (COLUMN_MARKER # body)"
    "parseColumnField (l_field L) (advance 1 (l_ifs L)) = Inr (f, s')"
  shows "load_run cls L = load_run cls (absorb_column f s' L)"
proof -
  define L1 where "L1 = L\<lparr>l_ifs := advance (Suc 0) (l_ifs L), l_marker := COLUMN_MARKER,
      l_state := PARSE_FIELD\<rparr>"
  have "load_run cls L = load_run cls L1"
    unfolding L1_def using assms(1,2) by (intro load_run_marker) (auto simp: column_fits_def)
  also have "load_step cls L1 = Inr (absorb_column f s' L)"
    using assms(3) by (simp add: load_step_def L1_def absorb_column_def FieldMeta_move_def Let_def)
  then have "load_run cls L1 = load_run cls (absorb_column f s' L)"
    by (intro load_run_step) (simp_all add: L1_def)
  finally show ?thesis .
qed

lemma index_step:
  assumes "l_state L = PARSE_MARKER" "at (l_ifs L) (INDEX_MARKER # body)"
    "parseIndexField (advance 1 (l_ifs L)) = Inr (i, s')"
  shows "load_run cls L = load_run cls (absorb_index i s' L)"
proof -
  define L1 where "L1 = L\<lparr>l_ifs := advance (Suc 0) (l_ifs L), l_marker := INDEX_MARKER,
      l_state := PARSE_FIELD\<rparr>"
  have "load_run cls L = load_run cls L1"
    unfolding L1_def using assms(1,2) by (intro load_run_marker)
  also have "load_step cls L1 = Inr (absorb_index i s' L)"
    using assms(3) by (simp add: load_step_def L1_def absorb_index_def)
  then have "load_run cls L1 = load_run cls (absorb_index i s' L)"
    by (intro load_run_step) (simp_all add: L1_def)
  finally show ?thesis .
qed

lemma skip_step:
  assumes "skip_fits L" "at (l_ifs L) (HEADER_MARKER # body)"
    "rmap (\<lambda>(h, s). (h, seek_cur (sint (model_len h)) s)) (parseHeader (l_header L) (advance 1 (l_ifs L)))
       = Inr (h, s')" "h_className h \<noteq> cls"
  shows "load_run cls L = load_run cls (absorb_skip h s' L)"
proof -
  define L1 where "L1 = L\<lparr>l_ifs := advance (Suc 0) (l_ifs L), l_marker := HEADER_MARKER,
      l_state := PARSE_FIELD\<rparr>"
  have "load_run cls L = load_run cls L1"
    unfolding L1_def using assms(1,2) by (intro load_run_marker) (auto simp: skip_fits_def)
  also have "load_step cls L1 = Inr (absorb_skip h s' L)"
    using assms(1,3,4)
    by (auto simp: load_step_def L1_def absorb_skip_def skip_fits_def rmap_eq_Inr_iff)
  then have "load_run cls L1 = load_run cls (absorb_skip h s' L)"
    by (intro load_run_step) (simp_all add: L1_def)
  finally show ?thesis .
qed

lemma clean_moved: "clean (snd (FieldMeta_move (stored_field conf f)))"
  by (simp add: clean_def FieldMeta_move_def stored_field_def FieldMeta_default_def
      Index_move_def Index_default_def)

interpretation column_loop: record_loop "column_body conf" parseColumnField "field_ok conf" clean
    "\<lambda>_. stored_field conf" "load_run cls" l_ifs column_fits l_field COLUMN_MARKER absorb_column
  for conf cls
proof (unfold_locales, goal_cases)
  case 2
  then show ?case by (intro column_step)
qed (auto simp: column_fits_def absorb_column_def clean_moved)

interpretation index_loop: record_loop index_body "\<lambda>_::unit. parseIndexField" index_ok "\<lambda>_. True"
    "\<lambda>_ i. i" "load_run cls" l_ifs "\<lambda>L. l_state L = PARSE_MARKER" "\<lambda>_. ()" INDEX_MARKER absorb_index
  for cls
proof (unfold_locales, goal_cases)
  case 2
  then show ?case by (intro index_step)
qed (auto simp: absorb_index_def)

end
