(* ===== verification/Data_File_Reload.thy ===== *)
theory Data_File_Reload
  imports Data_File_Load
begin

text \<open>
  The whole of \<^verbatim>\<open>loadFromFile\<close> on a data file that \<^verbatim>\<open>saveModel\<close> has written: the models
  before the wanted one are skipped by their length, its columns and indices are
  absorbed, and the next header ends the search. Where the length bytes do not hold
  what they should, saving is undefined and loading may run forever.
\<close>

section \<open>Skipping the models of other classes\<close>

definition skip_header :: "header \<Rightarrow> istream \<Rightarrow> (header \<times> istream) res" where
  "skip_header h s = rmap (\<lambda>(h, s). (h, seek_cur (sint (model_len h)) s)) (parseHeader h s)"

definition saved_header :: "json \<Rightarrow> header \<Rightarrow> saved_model \<Rightarrow> header" where
  "saved_header conf h m =
     header_set h (word_of_nat (length (sv_body conf m))) (sv_class m) (sv_table m)"

lemma seek_cur_at: "at s r \<Longrightarrow> seek_cur (int n) s = advance n s"
  by (simp add: at_def seek_cur_def advance_def)

lemma skip_header_at:
  assumes "model_ok conf m" "at s (sv_rest conf m @ rest)"
  shows "skip_header h s = Inr (saved_header conf h m, advance (length (sv_rest conf m)) s)"
proof -
  define hb where "hb = header_body (word_of_nat (length (sv_body conf m))) (sv_class m) (sv_table m)"
  have s: "at s (hb @ sv_body conf m @ rest)"
    using assms(2) by (simp add: sv_rest_def hb_def)
  have "parseHeader h s = Inr (saved_header conf h m, advance (length hb) s)"
    using assms(1) s unfolding hb_def saved_header_def
    by (intro parseHeader_at) (auto simp: model_ok_def)
  moreover have "seek_cur (int (length (sv_body conf m))) (advance (length hb) s)
      = advance (length (sv_body conf m)) (advance (length hb) s)"
    using at_advance[OF s] by (rule seek_cur_at)
  moreover have "sint (model_len (saved_header conf h m)) = int (length (sv_body conf m))"
    using assms(1) by (simp add: saved_header_def header_set_def model_ok_def)
  ultimately show ?thesis
    by (simp add: skip_header_def sv_rest_def hb_def add.commute)
qed

interpretation header_codec: record_codec "sv_rest conf" skip_header "model_ok conf"
    "\<lambda>_. True" "saved_header conf"
  for conf
  by unfold_locales (rule skip_header_at)

interpretation skip_loop: record_loop "sv_rest conf" skip_header
    "\<lambda>m. model_ok conf m \<and> sv_class m \<noteq> cls" "\<lambda>_. True" "saved_header conf"
    "load_run cls" l_ifs skip_fits l_header HEADER_MARKER absorb_skip
  for conf cls
proof (unfold_locales, goal_cases)
  case (1 x d s rest)
  then show ?case by (intro header_codec.dec_enc) auto
next
  case (3 L x body s')
  then show ?case
    by (intro skip_step[where body = body])
      (auto simp: skip_header_def saved_header_def header_set_def)
qed (auto simp: absorb_skip_def skip_fits_def)

section \<open>What a run of records leaves\<close>

lemma skip_keeps:
  fixes conf cls
  defines "e \<equiv> skip_loop.eat conf"
  shows "l_fields (fold e ms L) = l_fields L" "l_indices (fold e ms L) = l_indices L"
    "l_nameToIndex (fold e ms L) = l_nameToIndex L" "l_columnIndex (fold e ms L) = l_columnIndex L"
    "l_tableName (fold e ms L) = l_tableName L"
  unfolding e_def
  by (induction ms arbitrary: L) (simp_all add: skip_loop.eat_def absorb_skip_def)

fun number_columns :: "int \<Rightarrow> string list \<Rightarrow> int umap \<Rightarrow> int umap" where
  "number_columns i [] m = m"
| "number_columns i (c # cs) m = number_columns (i + 1) cs (uput c i m)"

lemma stored_name [simp]: "getColumnName (stored_field conf f) = getColumnName f"
  by (simp add: stored_field_def getColumnName_def)

lemma columns_leave:
  fixes conf
  defines "e \<equiv> column_loop.eat conf"
  shows "l_fields (fold e fs L) = l_fields L @ map (stored_field conf) fs"
    "l_indices (fold e fs L) = l_indices L"
    "l_tableName (fold e fs L) = l_tableName L" "l_found (fold e fs L) = l_found L"
    "l_nameToIndex (fold e fs L)
       = number_columns (l_columnIndex L) (map getColumnName fs) (l_nameToIndex L)"
  unfolding e_def
  by (induction fs arbitrary: L) (simp_all add: column_loop.eat_def absorb_column_def)

lemma indices_leave:
  defines "e \<equiv> index_loop.eat"
  shows "l_fields (fold e is L) = l_fields L"
    "l_indices (fold e is L) = fold (\<lambda>i. uput (ix_name i) i) is (l_indices L)"
    "l_tableName (fold e is L) = l_tableName L" "l_found (fold e is L) = l_found L"
    "l_nameToIndex (fold e is L) = l_nameToIndex L"
  unfolding e_def
  by (induction "is" arbitrary: L) (simp_all add: index_loop.eat_def absorb_index_def)

lemma fold_uput_names:
  assumes "\<forall>(k, i) \<in> set kvs. k = ix_name i" "distinct (map fst m @ map fst kvs)"
  shows "fold (\<lambda>i. uput (ix_name i) i) (map snd kvs) m = m @ kvs"
proof -
  have "fold (\<lambda>i. uput (ix_name i) i) (map snd kvs) m = fold (\<lambda>(k, i). uput k i) kvs m"
    using assms(1) by (induction kvs arbitrary: m) auto
  with fold_uput_distinct[OF assms(2)] show ?thesis by simp
qed

section \<open>The wanted model, and the end\<close>

definition enter_model :: "header \<Rightarrow> istream \<Rightarrow> loader \<Rightarrow> loader" where
  "enter_model h s L = L\<lparr>l_ifs := s, l_marker := HEADER_MARKER, l_header := h,
     l_tableName := h_tableName h, l_found := True, l_state := PARSE_MARKER\<rparr>"

lemma found_step:
  assumes "skip_fits L" "at (l_ifs L) (HEADER_MARKER # body)"
    "parseHeader (l_header L) (advance 1 (l_ifs L)) = Inr (h, s')" "h_className h = cls"
  shows "load_run cls L = load_run cls (enter_model h s' L)"
proof -
  define L1 where "L1 = L\<lparr>l_ifs := advance (Suc 0) (l_ifs L), l_marker := HEADER_MARKER,
      l_state := PARSE_FIELD\<rparr>"
  have "load_run cls L = load_run cls L1"
    unfolding L1_def using assms(1,2) by (intro load_run_marker) (auto simp: skip_fits_def)
  also have "load_step cls L1 = Inr (enter_model h s' L)"
    using assms(1,3,4) by (auto simp: load_step_def L1_def enter_model_def skip_fits_def)
  then have "load_run cls L1 = load_run cls (enter_model h s' L)"
    by (intro load_run_step) (simp_all add: L1_def)
  finally show ?thesis .
qed

definition reported :: "loader \<Rightarrow> loaded" where
  "reported L = (l_tableName L, l_fields L, l_indices L, l_nameToIndex L)"

lemma load_run_done: "l_state L = PARSE_SUCCESS \<Longrightarrow> load_run cls L = Some (Inr L)"
  by (subst load_run.simps) simp

lemma load_run_at_end:
  assumes "l_state L = PARSE_MARKER" "at (l_ifs L) []"
  shows "\<exists>L'. load_run cls L = Some (Inr L') \<and> reported L' = reported L"
proof -
  obtain s where s: "parseMarker (l_ifs L) = (None, s)"
    using parseMarker_end[OF assms(2)] by auto
  then have "load_step cls L = Inr (L\<lparr>l_ifs := s, l_state := PARSE_SUCCESS\<rparr>)"
    using assms(1) by (simp add: load_step_def)
  then have "load_run cls L = load_run cls (L\<lparr>l_ifs := s, l_state := PARSE_SUCCESS\<rparr>)"
    using assms(1) by (intro load_run_step) auto
  then show ?thesis by (auto simp: load_run_done reported_def)
qed

lemma load_run_next_header:
  assumes "l_state L = PARSE_MARKER" "l_found L" "at (l_ifs L) (HEADER_MARKER # b)"
  shows "\<exists>L'. load_run cls L = Some (Inr L') \<and> reported L' = reported L"
proof -
  define L1 where "L1 = L\<lparr>l_ifs := advance (Suc 0) (l_ifs L), l_marker := HEADER_MARKER,
      l_state := PARSE_FIELD\<rparr>"
  have "load_run cls L = load_run cls L1"
    unfolding L1_def using assms(1,3) by (intro load_run_marker)
  also have "\<dots> = load_run cls (L1\<lparr>l_state := PARSE_SUCCESS\<rparr>)"
    using assms(2) by (intro load_run_step) (simp_all add: L1_def load_step_def)
  finally show ?thesis by (auto simp: load_run_done reported_def L1_def)
qed

section \<open>A data file\<close>

definition data_file :: "json \<Rightarrow> saved_model list \<Rightarrow> bytes" where
  "data_file conf ms = concat (map (\<lambda>m. HEADER_MARKER # sv_rest conf m) ms)"

lemma saveModels_bytes:
  assumes "\<forall>m \<in> set ms. model_ok conf m"
  shows "rmap concat (rmapM (\<lambda>m. saveModel conf (sv_fields m) (sv_indices m)
     (Header_of (sv_class m) (sv_table m))) ms) = Inr (data_file conf ms)"
  using assms by (subst rmapM_total) (auto simp: saveModel_bytes data_file_def)

lemma load_start_fits:
  "skip_fits (load_start content t fs is ns)" "at (l_ifs (load_start content t fs is ns)) content"
  by (simp_all add: load_start_def skip_fits_def at_def clean_def FieldMeta_default_def)

definition fresh_params :: loaded where
  "fresh_params = ([], [], [], [])"

lemma load_skips:
  fixes rest
  assumes "\<forall>m \<in> set ms. model_ok conf m \<and> sv_class m \<noteq> cls"
  defines "L \<equiv> fold (skip_loop.eat conf) ms (load_start (data_file conf ms @ rest) [] [] [] [])"
  shows "load_run cls (load_start (data_file conf ms @ rest) [] [] [] []) = load_run cls L"
    "skip_fits L" "at (l_ifs L) rest" "reported L = fresh_params" "l_columnIndex L = 0"
  using skip_loop.run_all[OF load_start_fits(1) assms(1), of "data_file conf ms @ rest" "[]" "[]" "[]" "[]" rest]
    load_start_fits(2)
  unfolding L_def
  by (simp_all add: data_file_def reported_def skip_keeps fresh_params_def load_start_def)

lemma load_body:
  assumes "skip_fits L" "at (l_ifs L) ((HEADER_MARKER # sv_rest conf m) @ rest)" "model_ok conf m"
    "reported L = fresh_params" "l_columnIndex L = 0"
  shows "\<exists>L'. load_run (sv_class m) L = load_run (sv_class m) L'
     \<and> l_state L' = PARSE_MARKER \<and> l_found L' \<and> at (l_ifs L') rest
     \<and> reported L' = (sv_table m, map (stored_field conf) (sv_fields m), sv_indices m,
          number_columns 0 (map getColumnName (sv_fields m)) [])"
proof -
  let ?cls = "sv_class m"
  define hb where "hb = header_body (word_of_nat (length (sv_body conf m))) (sv_class m) (sv_table m)"
  define ib where "ib = concat (map (\<lambda>i. INDEX_MARKER # index_body i) (map snd (sv_indices m)))"
  define cb where "cb = concat (map (\<lambda>f. COLUMN_MARKER # column_body conf f) (sv_fields m))"
  note ok = assms(3)[unfolded model_ok_def]
  have L: "at (l_ifs L) (HEADER_MARKER # hb @ cb @ ib @ rest)"
    using assms(2) by (simp add: sv_rest_def sv_body_def model_body_def columns_bytes_def
        indices_bytes_def hb_def cb_def ib_def)
  have *: "at (advance 1 (l_ifs L)) (hb @ cb @ ib @ rest)" using at_advance1[OF L] by simp
  have h: "parseHeader (l_header L) (advance 1 (l_ifs L))
      = Inr (saved_header conf (l_header L) m, advance (length hb) (advance 1 (l_ifs L)))"
    unfolding saved_header_def hb_def
    using ok * by (intro parseHeader_at) (auto simp: hb_def)
  define L1 where "L1 = enter_model (saved_header conf (l_header L) m)
      (advance (length hb) (advance 1 (l_ifs L))) L"
  have 1: "load_run ?cls L = load_run ?cls L1"
    unfolding L1_def using assms(1) L h
    by (rule found_step) (simp add: saved_header_def header_set_def)
  have L1: "column_fits L1" "at (l_ifs L1) (cb @ ib @ rest)" "l_columnIndex L1 = 0" "l_found L1"
      "reported L1 = (sv_table m, [], [], [])"
    using assms(1,4,5) at_advance[OF *]
    by (simp_all add: L1_def enter_model_def column_fits_def skip_fits_def reported_def
        fresh_params_def saved_header_def header_set_def)
  define L2 where "L2 = fold (column_loop.eat conf) (sv_fields m) L1"
  have 2: "load_run ?cls L1 = load_run ?cls L2" "column_fits L2" "at (l_ifs L2) (ib @ rest)"
    using column_loop.run_all[of L1 "sv_fields m" conf "ib @ rest" ?cls] L1(1,2) ok
    by (simp_all add: L2_def cb_def)
  define L3 where "L3 = fold index_loop.eat (map snd (sv_indices m)) L2"
  have 3: "load_run ?cls L2 = load_run ?cls L3" "l_state L3 = PARSE_MARKER" "at (l_ifs L3) rest"
    using index_loop.run_all[of L2 "map snd (sv_indices m)" rest ?cls] 2(2,3) ok
    by (simp_all add: L3_def ib_def column_fits_def)
  have "fold (\<lambda>i. uput (ix_name i) i) (map snd (sv_indices m)) [] = sv_indices m"
    using ok by (subst fold_uput_names) auto
  then have "reported L3 = (sv_table m, map (stored_field conf) (sv_fields m), sv_indices m,
       number_columns 0 (map getColumnName (sv_fields m)) [])" "l_found L3"
    using L1(3-5) by (simp_all add: reported_def L3_def L2_def indices_leave columns_leave)
  with 1 2(1) 3 show ?thesis by (intro exI[of _ L3]) simp
qed

lemma loadFromFile_reported:
  assumes "load_run cls (load_start content [] [] [] []) = Some (Inr L)"
  shows "loadFromFile (Some content) cls fresh_params = Some (Inr (reported L))"
  using assms by (simp add: loadFromFile_def fresh_params_def reported_def)


section \<open>Properties\<close>

lemma saved_model_loads:
  assumes "\<forall>m \<in> set ms. model_ok conf m" "distinct (map sv_class ms)" "m \<in> set ms"
    and "rmap concat (rmapM (\<lambda>m. saveModel conf (sv_fields m) (sv_indices m)
          (Header_of (sv_class m) (sv_table m))) ms) = Inr content"
  shows "loadFromFile (Some content) (sv_class m) ([], [], [], []) =
    Some (Inr (sv_table m, map (stored_field conf) (sv_fields m), sv_indices m,
      number_columns 0 (map getColumnName (sv_fields m)) []))"
proof -
  obtain pre post where ms: "ms = pre @ m # post" using assms(3) by (meson split_list)
  define rest where "rest = data_file conf post"
  have content: "content = data_file conf pre @ (HEADER_MARKER # sv_rest conf m) @ rest"
    using assms(4) saveModels_bytes[OF assms(1)] by (simp add: ms data_file_def rest_def)
  have pre: "\<forall>x \<in> set pre. model_ok conf x \<and> sv_class x \<noteq> sv_class m"
    using assms(1,2) by (auto simp: ms) (metis image_eqI)
  note skip = load_skips[OF pre, of "(HEADER_MARKER # sv_rest conf m) @ rest", folded content]
  obtain L' where L': "load_run (sv_class m) (load_start content [] [] [] []) = load_run (sv_class m) L'"
      "l_state L' = PARSE_MARKER" "l_found L'" "at (l_ifs L') rest"
      "reported L' = (sv_table m, map (stored_field conf) (sv_fields m), sv_indices m,
          number_columns 0 (map getColumnName (sv_fields m)) [])"
    using load_body[OF skip(2,3) _ skip(4,5)] assms(1) skip(1) by (auto simp: ms)
  have "rest = [] \<or> (\<exists>b. rest = HEADER_MARKER # b)"
    by (cases post) (auto simp: rest_def data_file_def)
  then obtain L'' where "load_run (sv_class m) L' = Some (Inr L'')" "reported L'' = reported L'"
    using load_run_at_end[OF L'(2)] load_run_next_header[OF L'(2,3)] L'(4) by metis
  with L'(1,5) show ?thesis
    using loadFromFile_reported[of "sv_class m" content L''] by (simp add: fresh_params_def)
qed

text \<open>
  C1: Saving models (within the limits of the length bytes, with distinct class names) one
  after the other and then loading one of them back returns its table name, its columns in
  order with their types, flags, defaults and extras, its indices, and the numbering of its
  columns, whatever stands before and after it in the file.
\<close>

theorem load_saved_model:
  assumes "\<forall>m \<in> set ms. model_ok conf m" "distinct (map sv_class ms)" "m \<in> set ms"
    and "rmap concat (rmapM (\<lambda>m. saveModel conf (sv_fields m) (sv_indices m)
          (Header_of (sv_class m) (sv_table m))) ms) = Inr content"
  shows "loadFromFile (Some content) (sv_class m) ([], [], [], []) =
    Some (Inr (sv_table m, map (stored_field conf) (sv_fields m), sv_indices m,
      number_columns 0 (map getColumnName (sv_fields m)) []))"
  by (rule saved_model_loads[OF assms])

text \<open>
  C28: Loading a class that is in none of the models of a well-formed data file ends and
  leaves the table name, the columns, the indices and the numbering empty.
\<close>

theorem load_unsaved_class:
  assumes "\<forall>m \<in> set ms. model_ok conf m \<and> sv_class m \<noteq> cls"
    and "rmap concat (rmapM (\<lambda>m. saveModel conf (sv_fields m) (sv_indices m)
          (Header_of (sv_class m) (sv_table m))) ms) = Inr content"
  shows "loadFromFile (Some content) cls ([], [], [], []) = Some (Inr ([], [], [], []))"
proof -
  have content: "content = data_file conf ms"
    using assms saveModels_bytes[of ms conf] by simp
  note skip = load_skips[OF assms(1), of "[]"]
  have "l_state (fold (skip_loop.eat conf) ms (load_start (data_file conf ms @ []) [] [] [] [])) = PARSE_MARKER"
    using skip(2) by (simp add: skip_fits_def)
  from load_run_at_end[OF this skip(3)] obtain L' where
    "load_run cls (load_start content [] [] [] []) = Some (Inr L')" "reported L' = fresh_params"
    using skip(1,4) by (auto simp: content)
  then show ?thesis using loadFromFile_reported[of cls content L'] by (simp add: fresh_params_def)
qed


text \<open>
  C36: A header whose \<^verbatim>\<open>model_len\<close> is minus its own length (what the 16-bit sum becomes
  when a model fills \<^verbatim>\<open>65536\<close> bytes less that) sends the search for another class back to
  the header itself: \<^verbatim>\<open>loadFromFile\<close> never returns.
\<close>

theorem negative_length_never_returns:
  assumes "names_ok c t" "c \<noteq> cls"
  shows "loadFromFile (Some (HEADER_MARKER
      # header_body (- word_of_nat (6 + length c + length t)) c t @ rest)) cls params = None"
proof -
  define n where "n = (- word_of_nat (6 + length c + length t) :: 16 word)"
  define hb where "hb = header_body n c t"
  have len: "length hb + 1 = 6 + length c + length t"
    by (simp add: hb_def header_body_def str_field_def bytes_of_short_def)
  then have n: "n = word_of_int (- int (length hb + 1))" by (simp add: n_def flip: len)
  have "length hb + 1 < 2 ^ 15" using assms(1) len by (simp add: names_ok_def)
  then have neg: "sint n = - int (length hb + 1)"
    unfolding n signed_of_int by (subst signed_take_bit_int_eq_self) simp_all
  define s0 where "s0 = \<lparr>in_data = HEADER_MARKER # hb @ rest, in_pos = 0, in_fail = False\<rparr>"
  have at0: "at s0 (HEADER_MARKER # hb @ rest)" by (simp add: s0_def at_def)
  then have at1: "at (advance (Suc 0) s0) (hb @ rest)" by (rule at_advance1)
  have rewind: "seek_cur (sint n) (advance (length hb) (advance (Suc 0) s0)) = s0"
    by (simp add: neg seek_cur_def advance_def s0_def)
  define stuck where "stuck L \<longleftrightarrow> \<not> l_found L \<and> (l_state L = PARSE_MARKER \<and> l_ifs L = s0
      \<or> l_state L = PARSE_FIELD \<and> l_marker L = HEADER_MARKER \<and> l_ifs L = advance (Suc 0) s0)" for L :: loader
  have step: "\<exists>L'. load_step cls L = Inr L' \<and> stuck L'" if "stuck L" for L
    using that parseMarker_at[OF at0] parseHeader_at[OF assms(1) at1[unfolded hb_def], of "l_header L"] assms(2) rewind
    by (auto simp: stuck_def load_step_def header_set_def hb_def)
  have "stuck L \<longrightarrow> cls' \<noteq> cls" if "load_run cls' L = Some r" for cls' L r
    using that
  proof (induction cls' L r rule: load_run.raw_induct)
    case (1 run cls' L r)
    show ?case
    proof (intro impI notI)
      assume "stuck L" "cls' = cls"
      then obtain L' where L': "load_step cls L = Inr L'" "stuck L'" using step by blast
      then have "run cls L' = Some r"
        using 1 \<open>stuck L\<close> \<open>cls' = cls\<close> by (auto simp: stuck_def)
      moreover have "load_run cls L = load_run cls L'"
        using \<open>stuck L\<close> L'(1) by (intro load_run_step) (auto simp: stuck_def)
      ultimately show False using "1.IH"[of cls L' r] L'(2) 1 \<open>cls' = cls\<close> by auto
    qed
  qed (rule that)
  moreover have "stuck (load_start (HEADER_MARKER # hb @ rest) a b c' d)" for a b c' d
    by (simp add: stuck_def load_start_def s0_def)
  ultimately have "load_run cls (load_start (HEADER_MARKER # hb @ rest) a b c' d) = None" for a b c' d
    by (metis not_None_eq)
  then show ?thesis by (simp add: loadFromFile_def hb_def n_def split: prod.split)
qed

section \<open>Witnesses\<close>

definition demo_id :: field_meta where
  "demo_id = FieldMeta_default\<lparr>fieldName := ''userId'', cppType := ''int'',
     columnName := Some ''user_id'', columnType := Some ''int'', isPk := True, autoInc := True\<rparr>"

definition demo_name :: field_meta where
  "demo_name = FieldMeta_default\<lparr>fieldName := ''name'', cppType := ''std::string'',
     columnName := Some ''name'', columnType := Some ''varchar'', notNull := True,
     defaultVal := ''x''\<rparr>"

definition demo_models :: "saved_model list" where
  "demo_models =
     [\<lparr>sv_class = ''Item'', sv_table = ''item'', sv_fields = [demo_id], sv_indices = []\<rparr>,
      \<lparr>sv_class = ''User'', sv_table = ''t_user'', sv_fields = [demo_id, demo_name],
       sv_indices = [(''name'', \<lparr>ix_type = INDEX_TYPE_UNI, ix_name = ''name'',
                                 ix_columns = [''name'', ''user_id'']\<rparr>)]\<rparr>]"

lemmas demo_defs = demo_id_def demo_name_def FieldMeta_default_def getColumnName_def getColumnType_def

lemma demo_models_ok: "\<forall>m \<in> set demo_models. model_ok JNull m \<and> sv_class m \<noteq> ''Order''"
  "distinct (map sv_class demo_models)"
  by (simp_all add: demo_models_def demo_defs model_ok_def names_ok_def sep_ok_def field_ok_def
      index_ok_def sv_body_def model_body_def columns_bytes_def indices_bytes_def column_body_def
      index_body_def str_field_def)

theorem load_saved_model_witness:
  "\<exists>content. rmap concat (rmapM (\<lambda>m. saveModel JNull (sv_fields m) (sv_indices m)
        (Header_of (sv_class m) (sv_table m))) demo_models) = Inr content
     \<and> loadFromFile (Some content) ''User'' ([], [], [], []) =
       Some (Inr (''t_user'', [demo_id, demo_name],
         [(''name'', \<lparr>ix_type = INDEX_TYPE_UNI, ix_name = ''name'', ix_columns = [''name'', ''user_id'']\<rparr>)],
         [(''user_id'', 0), (''name'', 1)]))"
proof -
  have save: "rmap concat (rmapM (\<lambda>m. saveModel JNull (sv_fields m) (sv_indices m)
        (Header_of (sv_class m) (sv_table m))) demo_models) = Inr (data_file JNull demo_models)"
    using demo_models_ok by (intro saveModels_bytes) auto
  have "loadFromFile (Some (data_file JNull demo_models)) (sv_class (demo_models ! 1)) ([], [], [], []) =
    Some (Inr (sv_table (demo_models ! 1), map (stored_field JNull) (sv_fields (demo_models ! 1)),
      sv_indices (demo_models ! 1),
      number_columns 0 (map getColumnName (sv_fields (demo_models ! 1))) []))"
    by (rule load_saved_model[OF _ demo_models_ok(2) _ save])
      (use demo_models_ok in \<open>auto simp: demo_models_def\<close>)
  with save show ?thesis
    by (simp add: demo_models_def demo_defs stored_field_def)
qed

theorem load_unsaved_class_witness:
  "loadFromFile (Some (data_file JNull demo_models)) ''Order'' ([], [], [], [])
     = Some (Inr ([], [], [], []))"
  using demo_models_ok saveModels_bytes[of demo_models JNull]
  by (intro load_unsaved_class[of demo_models JNull]) auto


theorem negative_length_witness:
  "loadFromFile (Some (HEADER_MARKER # header_body (- 10) ''Ab'' ''ab'')) ''User'' ([], [], [], []) = None"
  using negative_length_never_returns[of "''Ab''" "''ab''" "''User''" "[]" "([], [], [], [])"]
  by (simp add: names_ok_def sep_ok_def)

end
