(* ===== verification/Reflection.thy ===== *)
theory Reflection
  imports Datatypes "HOL-Library.Multiset"
begin

text \<open>
  \<^verbatim>\<open>tinyorm/reflection.h\<close>: what the declarations inside an \<^verbatim>\<open>entity\<close> register. Each
  macro defines a collector class whose static instance runs its constructor during
  static initialisation; a declaration is its data, and \<open>register\<close> is the body of that
  constructor. The offsets of the members are the compiler's and an argument.
\<close>

section \<open>Stringifying macro arguments\<close>

text \<open>
  \<^verbatim>\<open>STR_LIST_n\<close>: the macro for \<open>6\<close> is missing and that for \<open>7\<close> continues with the one for
  \<open>5\<close>, so that at the end \<^verbatim>\<open>STR_LIST_1\<close> is given two arguments. \<open>None\<close> is a
  preprocessing error.
\<close>

fun str_list :: "nat \<Rightarrow> string list \<Rightarrow> string list option" where
  "str_list n [] = None"
| "str_list n (a # as) =
     (if n = 1 then if as = [] then Some [a] else None
      else if n = 6 \<or> n > 20 \<or> n = 0 then None
      else map_option ((#) a) (str_list (if n = 7 then 5 else n - 1) as))"

text \<open>\<^verbatim>\<open>GET_ARG_COUNT\<close> counts up to 99 arguments; an empty argument list counts as one.\<close>

definition make_initial_list :: "string list \<Rightarrow> string list option" where
  "make_initial_list args =
     (let args = (if args = [] then [[]] else args)
      in if length args > 99 then None else str_list (length args) args)"

lemma str_list_up_to_5:
  assumes "0 < length xs" "length xs \<le> 5"
  shows "str_list (length xs) xs = Some xs"
  using assms
proof (induction xs)
  case (Cons x xs)
  then show ?case by (cases "xs = []") auto
qed simp

lemma str_list_short:
  "n < length xs \<Longrightarrow> str_list n xs = None"
proof (induction n xs rule: str_list.induct)
  case (2 n a as)
  then show ?case by auto
qed simp

lemma str_list_over_5:
  assumes "5 < length xs"
  shows "str_list (length xs) xs = None"
  using assms
proof (induction xs)
  case (Cons x xs)
  consider "length xs = 5" | "length xs = 6" | "5 < length xs" "length xs \<noteq> 6" using Cons.prems by force
  then show ?case
  proof cases
    case 2
    then show ?thesis using str_list_short[of 5 xs] by auto
  next
    case 3
    then show ?thesis using Cons.IH by auto
  qed auto
qed simp

section \<open>Declarations\<close>

text \<open>
  \<^verbatim>\<open>column(name, type, tags(...))\<close>, \<^verbatim>\<open>tableName(name)\<close>, \<^verbatim>\<open>add_index\<close>,
  \<^verbatim>\<open>add_unique\<close> and \<^verbatim>\<open>primary_key\<close>. The arguments are their token texts.
\<close>

datatype decl =
    Column string string "string option"
  | Table_Name string
  | Add_Index string "string list"
  | Add_Unique string "string list"
  | Primary_Key string

text \<open>The static members of \<^verbatim>\<open>Base<T>\<close>; \<^verbatim>\<open>metadatas\<close> is a \<^verbatim>\<open>std::map\<close>.\<close>

record base =
  metadatas :: "metadata umap"
  base_indices :: "index_info list"

definition base_empty :: base where
  "base_empty = \<lparr>metadatas = [], base_indices = []\<rparr>"

definition Metadata_of :: "string \<Rightarrow> int \<Rightarrow> string option \<Rightarrow> metadata" where
  "Metadata_of type offset tag = \<lparr>meta_type = type, meta_offset = offset,
     meta_tag = (case tag of Some t \<Rightarrow> t | None \<Rightarrow> [])\<rparr>"

fun compiles :: "decl \<Rightarrow> bool" where
  "compiles (Add_Unique name cols) \<longleftrightarrow> make_initial_list cols \<noteq> None"
| "compiles _ \<longleftrightarrow> True"

text \<open>
  \<^verbatim>\<open>add_index\<close> stringifies its variadic argument as a whole, so several columns become one
  string; \<^verbatim>\<open>primary_key\<close> leaves the name of its index empty.
\<close>

fun register :: "(string \<Rightarrow> int) \<Rightarrow> decl \<Rightarrow> base \<Rightarrow> base" where
  "register offset (Column name type tag) b =
     b\<lparr>metadatas := uput name (Metadata_of type (offset name) tag) (metadatas b)\<rparr>"
| "register offset (Table_Name name) b =
     b\<lparr>metadatas := uput ''tablename'' (Metadata_of [] (- 1) (Some name)) (metadatas b)\<rparr>"
| "register offset (Add_Index name cols) b =
     b\<lparr>base_indices := base_indices b
        @ [(Index_of name INDEX_TYPE_MUL)\<lparr>ix_columns := [join '', '' cols]\<rparr>]\<rparr>"
| "register offset (Add_Unique name cols) b =
     b\<lparr>base_indices := base_indices b
        @ [(Index_of name INDEX_TYPE_UNI)\<lparr>ix_columns := the (make_initial_list cols)\<rparr>]\<rparr>"
| "register offset (Primary_Key col) b =
     b\<lparr>base_indices := base_indices b
        @ [(Index_of [] INDEX_TYPE_PRI)\<lparr>ix_columns := [col]\<rparr>]\<rparr>"

definition register_all :: "(string \<Rightarrow> int) \<Rightarrow> decl list \<Rightarrow> base" where
  "register_all offset ds = fold (register offset) ds base_empty"

text \<open>Iteration over a \<^verbatim>\<open>std::map\<close>: in the order of the keys.\<close>

definition map_iter :: "'v umap \<Rightarrow> (string \<times> 'v) list" where
  "map_iter m = sort_key fst m"

section \<open>The order of registration\<close>

fun decl_key :: "decl \<Rightarrow> string option" where
  "decl_key (Column name type tag) = Some name"
| "decl_key (Table_Name name) = Some ''tablename''"
| "decl_key _ = None"

fun decl_entry :: "(string \<Rightarrow> int) \<Rightarrow> decl \<Rightarrow> (string \<times> metadata) list" where
  "decl_entry offset (Column name type tag) = [(name, Metadata_of type (offset name) tag)]"
| "decl_entry offset (Table_Name name) = [(''tablename'', Metadata_of [] (- 1) (Some name))]"
| "decl_entry offset _ = []"

definition entries :: "(string \<Rightarrow> int) \<Rightarrow> decl list \<Rightarrow> (string \<times> metadata) list" where
  "entries offset ds = concat (map (decl_entry offset) ds)"

lemma register_metadatas: "metadatas (register offset d b) = fold (\<lambda>(k, v). uput k v) (decl_entry offset d) (metadatas b)"
  by (cases d) simp_all

lemma register_all_metadatas_from:
  "metadatas (fold (register offset) ds b) = fold (\<lambda>(k, v). uput k v) (entries offset ds) (metadatas b)"
  by (induction ds arbitrary: b) (simp_all add: entries_def register_metadatas)

lemma register_all_metadatas:
  assumes "distinct (map fst (entries offset ds))"
  shows "metadatas (register_all offset ds) = entries offset ds"
  using assms fold_uput_distinct[of "[]" "entries offset ds"]
  by (simp add: register_all_def register_all_metadatas_from base_empty_def)

lemma mset_entries: "mset ds = mset ds' \<Longrightarrow> mset (entries offset ds) = mset (entries offset ds')"
proof -
  assume *: "mset ds = mset ds'"
  have "mset (entries offset xs) = (\<Sum>d \<in># mset xs. mset (decl_entry offset d))" for xs
    by (induction xs) (simp_all add: entries_def)
  with * show ?thesis by simp
qed

lemma map_iter_perm:
  assumes "mset m = mset m'" "distinct (map fst m)"
  shows "map_iter m = map_iter m'"
proof -
  have "inj_on fst (set m)" using assms(2) by (simp add: distinct_map)
  then show ?thesis unfolding map_iter_def using assms(1)
    by (intro sort_key_inj_key_eq) simp_all
qed

section \<open>The metadata a model extracts\<close>

text \<open>
  The constructor of \<^verbatim>\<open>Model<T>\<close> goes through the metadata in key order, builds a
  \<open>FieldMeta\<close> for each column and sorts by offset after each. The sort of
  \<^verbatim>\<open>std::sort\<close> is determined because the members of a class have distinct offsets.
\<close>

definition by_offset :: "field_meta list \<Rightarrow> field_meta list" where
  "by_offset = sort_key (\<lambda>f. the (fieldOffset f))"

definition add_metadata :: "string \<times> metadata \<Rightarrow> field_meta list \<times> string option \<Rightarrow> field_meta list \<times> string option" where
  "add_metadata kv st =
     (let (flds, table) = st;
          (flds, table) = (if fst kv \<noteq> ''tablename'' then (flds @ [FieldMeta_of (fst kv) (snd kv)], table)
                           else (flds, Some (meta_tag (snd kv))))
      in (by_offset flds, table))"

definition extract_metadata :: "base \<Rightarrow> field_meta list \<times> string option" where
  "extract_metadata b = fold add_metadata (map_iter (metadatas b)) ([], None)"

text \<open>\<^verbatim>\<open>columnToIndex\<close>, then the declared indices, then those of the tags.\<close>

definition number_names :: "string list \<Rightarrow> int umap" where
  "number_names cols = fold (\<lambda>(i, c). uput c (int i)) (zip [0..<length cols] cols) []"

definition name_index :: "field_meta \<Rightarrow> field_meta" where
  "name_index f = (if hasIndex f then f\<lparr>fieldIndex := (fieldIndex f)\<lparr>ix_name :=
      (if ix_type (fieldIndex f) = INDEX_TYPE_PRI then ''PRIMARY'' else getColumnName f)\<rparr>\<rparr> else f)"

definition collect_indices :: "index_info list \<Rightarrow> field_meta list \<Rightarrow> index_info umap" where
  "collect_indices declared flds =
     fold (\<lambda>f m. if hasIndex f then uput (ix_name (fieldIndex f)) (fieldIndex f) m else m)
       (map name_index flds) (fold (\<lambda>i. uput (ix_name i) i) declared [])"

lemma sort_key_append_sorted: "sort_key g (sort_key g xs @ ys) = sort_key g (xs @ ys)"
proof (rule properties_for_sort_key)
  show "mset (sort_key g (xs @ ys)) = mset (sort_key g xs @ ys)" by simp
next
  fix x
  show "filter (\<lambda>y. g x = g y) (sort_key g (xs @ ys)) = filter (\<lambda>y. g x = g y) (sort_key g xs @ ys)"
    using sort_key_stable[of g "g x" "xs @ ys"] sort_key_stable[of g "g x" xs]
    by (simp add: eq_commute)
qed simp

definition member_fields :: "(string \<times> metadata) list \<Rightarrow> field_meta list" where
  "member_fields kvs = map (\<lambda>(k, m). FieldMeta_of k m) (filter (\<lambda>kv. fst kv \<noteq> ''tablename'') kvs)"

lemma fold_add_metadata:
  "fold add_metadata kvs (by_offset flds, t) = (by_offset (flds @ member_fields kvs),
     fold (\<lambda>kv t. if fst kv = ''tablename'' then Some (meta_tag (snd kv)) else t) kvs t)"
proof (induction kvs arbitrary: flds t)
  case (Cons kv kvs)
  show ?case
  proof (cases "fst kv = ''tablename''")
    case True
    have "add_metadata kv (by_offset flds, t) = (by_offset flds, Some (meta_tag (snd kv)))"
      using True sort_key_append_sorted[of _ flds "[]"] by (simp add: add_metadata_def by_offset_def)
    with Cons.IH[of flds] True show ?thesis by (simp add: member_fields_def)
  next
    case False
    have "add_metadata kv (by_offset flds, t) = (by_offset (flds @ [FieldMeta_of (fst kv) (snd kv)]), t)"
      using False by (simp add: add_metadata_def by_offset_def sort_key_append_sorted)
    with Cons.IH[of "flds @ [FieldMeta_of (fst kv) (snd kv)]"] False show ?thesis
      by (simp add: member_fields_def case_prod_beta)
  qed
qed (simp add: member_fields_def)

lemma extract_metadata_eq: "extract_metadata b = (by_offset (member_fields (map_iter (metadatas b))),
   fold (\<lambda>kv t. if fst kv = ''tablename'' then Some (meta_tag (snd kv)) else t) (map_iter (metadatas b)) None)"
  using fold_add_metadata[of "map_iter (metadatas b)" "[]" None]
  by (simp add: extract_metadata_def by_offset_def)

section \<open>Properties\<close>

text \<open>
  C21: The columns and the table name a model extracts do not depend on the order in which
  the static collectors happened to run, as long as the member names are distinct, and the
  columns are those of the declared members in the order of their offsets.
\<close>

theorem registration_order_irrelevant:
  assumes "mset ds = mset ds'" "distinct (map fst (entries offset ds))"
  shows "extract_metadata (register_all offset ds) = extract_metadata (register_all offset ds')
    \<and> mset (fst (extract_metadata (register_all offset ds))) = mset (member_fields (entries offset ds))
    \<and> sorted (map (\<lambda>f. the (fieldOffset f)) (fst (extract_metadata (register_all offset ds))))"
proof -
  have m: "mset (entries offset ds) = mset (entries offset ds')" using assms(1) by (rule mset_entries)
  then have "mset (map fst (entries offset ds)) = mset (map fst (entries offset ds'))" by simp
  then have "distinct (map fst (entries offset ds'))" using assms(2) by (metis mset_eq_imp_distinct_iff)
  then have "extract_metadata (register_all offset ds) = extract_metadata (register_all offset ds')"
    using map_iter_perm[OF m assms(2)] assms(2) by (simp add: extract_metadata_def register_all_metadatas)
  moreover have "mset (member_fields (map_iter kvs)) = mset (member_fields kvs)" for kvs
    by (simp add: member_fields_def map_iter_def)
  then have "mset (fst (extract_metadata (register_all offset ds))) = mset (member_fields (entries offset ds))"
    by (simp add: extract_metadata_eq register_all_metadatas[OF assms(2)] by_offset_def)
  moreover have "sorted (map (\<lambda>f. the (fieldOffset f)) (fst (extract_metadata (register_all offset ds))))"
    by (simp add: extract_metadata_eq by_offset_def)
  ultimately show ?thesis by simp
qed

text \<open>
  \<^verbatim>\<open>MAKE_INITIAL_LIST\<close> works for one to five arguments and gives them in order; with
  six or more it does not compile.
\<close>

theorem initial_list_up_to_five:
  assumes "xs \<noteq> []"
  shows "make_initial_list xs = (if length xs \<le> 5 then Some xs else None)"
  using assms str_list_up_to_5[of xs] str_list_over_5[of xs] by (simp add: make_initial_list_def)

theorem registration_order_witness:
  "extract_metadata (register_all (\<lambda>n. if n = ''id'' then 0 else 8)
      [Column ''id'' ''int'' (Some ''pk''), Table_Name ''t_user'', Column ''name'' ''std::string'' None])
   = extract_metadata (register_all (\<lambda>n. if n = ''id'' then 0 else 8)
      [Column ''name'' ''std::string'' None, Column ''id'' ''int'' (Some ''pk''), Table_Name ''t_user''])"
  by (rule registration_order_irrelevant[THEN conjunct1]) (simp_all add: entries_def)

theorem initial_list_witness:
  "make_initial_list [''a'', ''b''] = Some [''a'', ''b'']
   \<and> make_initial_list [''a'', ''b'', ''c'', ''d'', ''e'', ''f''] = None"
  using initial_list_up_to_five[of "[''a'', ''b'']"]
    initial_list_up_to_five[of "[''a'', ''b'', ''c'', ''d'', ''e'', ''f'']"] by simp

end
