(* ===== verification/Decimal.thy ===== *)
theory Decimal
  imports Str_Util
begin

text \<open>
  Decimal text: what \<^verbatim>\<open>operator<<\<close> and \<^verbatim>\<open>printf\<close> print for an integer, the
  \<^verbatim>\<open>stoi\<close> of the standard library, and checked machine integers.
\<close>

section \<open>Checked integers\<close>

text \<open>Signed overflow is undefined; a value that fits is kept.\<close>

definition i32 :: "int \<Rightarrow> int res" where
  "i32 x = (if - (2 ^ 31) \<le> x \<and> x < 2 ^ 31 then Inr x else Inl UB)"

definition i64 :: "int \<Rightarrow> int res" where
  "i64 x = (if - (2 ^ 63) \<le> x \<and> x < 2 ^ 63 then Inr x else Inl UB)"

lemma i32_ok [simp]: "- 2147483648 \<le> x \<Longrightarrow> x < 2147483648 \<Longrightarrow> i32 x = Inr x"
  by (simp add: i32_def)

lemma i64_ok [simp]: "- 9223372036854775808 \<le> x \<Longrightarrow> x < 9223372036854775808 \<Longrightarrow> i64 x = Inr x"
  by (simp add: i64_def)

text \<open>Division and remainder of C: the quotient is truncated towards zero.\<close>

definition cdiv :: "int \<Rightarrow> int \<Rightarrow> int" where
  "cdiv a b = sgn a * sgn b * (\<bar>a\<bar> div \<bar>b\<bar>)"

definition cmod :: "int \<Rightarrow> int \<Rightarrow> int" where
  "cmod a b = a - b * cdiv a b"

lemma cdiv_cmod: "cdiv a b * b + cmod a b = a"
  by (simp add: cmod_def)

lemma cdiv_nonneg [simp]: "0 \<le> a \<Longrightarrow> 0 < b \<Longrightarrow> cdiv a b = a div b"
  by (cases "a = 0") (simp_all add: cdiv_def)

lemma cmod_nonneg [simp]: "0 \<le> a \<Longrightarrow> 0 < b \<Longrightarrow> cmod a b = a mod b"
  by (simp add: cmod_def minus_mult_div_eq_mod)

section \<open>Printing\<close>

definition digit_char :: "nat \<Rightarrow> char" where
  "digit_char d = char_of (48 + d)"

fun nat_str :: "nat \<Rightarrow> string" where
  "nat_str n = (if n < 10 then [digit_char n] else nat_str (n div 10) @ [digit_char (n mod 10)])"

declare nat_str.simps [simp del]

definition int_str :: "int \<Rightarrow> string" where
  "int_str x = (if x < 0 then ''-'' @ nat_str (nat (- x)) else nat_str (nat x))"

text \<open>\<^verbatim>\<open>printf("%0<w>d", x)\<close>.\<close>

definition zero_pad :: "nat \<Rightarrow> string \<Rightarrow> string" where
  "zero_pad w s = replicate (w - length s) CHR ''0'' @ s"

definition printf_0d :: "nat \<Rightarrow> int \<Rightarrow> string" where
  "printf_0d w x =
     (if x < 0 then ''-'' @ zero_pad (w - 1) (nat_str (nat (- x))) else zero_pad w (nat_str (nat x)))"

lemma chr_code_digit [simp]: "d < 10 \<Longrightarrow> chr_code (digit_char d) = 48 + d"
  by (simp add: digit_char_def)

lemma digit_char_isdigit [simp]: "d < 10 \<Longrightarrow> isdigit (digit_char d)"
  by (simp add: isdigit_def)

lemma isdigit_zero [simp]: "isdigit CHR ''0''" "chr_code CHR ''0'' = 48"
  by (simp_all add: isdigit_def chr_code_def)

lemma nat_str_digits: "\<forall>c \<in> set (nat_str n). isdigit c"
proof (induction n rule: nat_str.induct)
  case (1 n)
  then show ?case by (cases "n < 10") (auto simp: nat_str.simps[of n])
qed

lemma nat_str_nonempty [simp]: "nat_str n \<noteq> []"
  by (cases "n < 10") (simp_all add: nat_str.simps[of n])

lemma length_nat_str: "0 < w \<Longrightarrow> n < 10 ^ w \<Longrightarrow> length (nat_str n) \<le> w"
proof (induction w arbitrary: n)
  case (Suc w)
  show ?case
  proof (cases "n < 10")
    case False
    with Suc.prems have "0 < w" by (cases w) auto
    moreover have "n div 10 < 10 ^ w" using Suc.prems by (simp add: less_mult_imp_div_less)
    ultimately show ?thesis using Suc.IH[of "n div 10"] False by (simp add: nat_str.simps[of n])
  qed (simp add: nat_str.simps[of n])
qed simp

section \<open>Reading\<close>

definition digits_val :: "string \<Rightarrow> nat" where
  "digits_val = foldl (\<lambda>n c. 10 * n + (chr_code c - 48)) 0"

text \<open>
  \<^verbatim>\<open>std::stoi\<close>: white space is skipped, a sign and the longest run of digits are read,
  what follows is ignored. No digit throws \<^verbatim>\<open>invalid_argument\<close>, a value outside
  \<^verbatim>\<open>int\<close> throws \<^verbatim>\<open>out_of_range\<close>.
\<close>

definition stoi :: "string \<Rightarrow> int res" where
  "stoi s =
     (let s = dropWhile isspace s;
          neg = (case s of c # _ \<Rightarrow> c = CHR ''-'' | [] \<Rightarrow> False);
          s = (case s of c # cs \<Rightarrow> if c = CHR ''-'' \<or> c = CHR ''+'' then cs else s | [] \<Rightarrow> s);
          ds = takeWhile isdigit s;
          x = (if neg then - int (digits_val ds) else int (digits_val ds))
      in if ds = [] then Inl Invalid_Argument
         else if x < - (2 ^ 31) \<or> 2 ^ 31 \<le> x then Inl Out_Of_Range
         else Inr x)"

lemma digits_val_append1: "digits_val (s @ [c]) = 10 * digits_val s + (chr_code c - 48)"
  by (simp add: digits_val_def)

lemma digits_val_nat_str [simp]: "digits_val (nat_str n) = n"
proof (induction n rule: nat_str.induct)
  case (1 n)
  show ?case
  proof (cases "n < 10")
    case True
    then show ?thesis by (simp add: nat_str.simps[of n] digits_val_def)
  next
    case False
    with 1 show ?thesis
      by (simp add: nat_str.simps[of n] digits_val_append1)
  qed
qed

lemma digits_val_zeros [simp]: "digits_val (replicate k CHR ''0'' @ s) = digits_val s"
  by (induction k) (simp_all add: digits_val_def)

lemma digits_val_zero_pad [simp]: "digits_val (zero_pad w s) = digits_val s"
  by (simp add: zero_pad_def)

lemma isdigit_not: "isdigit c \<Longrightarrow> \<not> isspace c \<and> c \<noteq> CHR ''-'' \<and> c \<noteq> CHR ''+'' \<and> c \<noteq> CHR '':''
    \<and> c \<noteq> CHR ''/'' \<and> c \<noteq> CHR '' ''"
  by (auto simp: isdigit_def isspace_def chr_code_def)

lemma stoi_digits:
  assumes "\<forall>c \<in> set ds. isdigit c" "ds \<noteq> []" "digits_val ds < 2 ^ 31"
  shows "stoi ds = Inr (int (digits_val ds))"
proof -
  obtain c cs where ds: "ds = c # cs" using assms(2) by (cases ds) auto
  then have "dropWhile isspace ds = ds" "takeWhile isdigit ds = ds" "c \<noteq> CHR ''-''" "c \<noteq> CHR ''+''"
    using assms(1) isdigit_not[of c] by auto
  with assms(3) ds show ?thesis by (simp add: stoi_def)
qed

lemma stoi_minus_digits:
  assumes "\<forall>c \<in> set ds. isdigit c" "ds \<noteq> []" "digits_val ds \<le> 2 ^ 31"
  shows "stoi (CHR ''-'' # ds) = Inr (- int (digits_val ds))"
proof -
  have "\<not> isspace CHR ''-''" by (simp add: isspace_def chr_code_def)
  moreover have tw: "takeWhile isdigit ds = ds" using assms(1) by simp
  ultimately show ?thesis using assms(2,3) by (simp add: stoi_def Let_def tw del: takeWhile_eq_all_conv)
qed

lemma stoi_int_str: "- (2 ^ 31) \<le> x \<Longrightarrow> x < 2 ^ 31 \<Longrightarrow> stoi (int_str x) = Inr x"
  using stoi_digits[of "nat_str (nat x)"] stoi_minus_digits[of "nat_str (nat (- x))"]
  by (auto simp: int_str_def nat_str_digits)

lemma stoi_zero_pad: "n < 2 ^ 31 \<Longrightarrow> stoi (zero_pad w (nat_str n)) = Inr (int n)"
proof (rule stoi_digits[of "zero_pad w (nat_str n)", simplified digits_val_zero_pad digits_val_nat_str])
  show "\<forall>c \<in> set (zero_pad w (nat_str n)). isdigit c"
    using nat_str_digits[of n] by (auto simp: zero_pad_def)
qed (simp_all add: zero_pad_def)

end
