(* ===== verification/Timestamp.thy ===== *)
theory Timestamp
  imports Decimal
begin

text \<open>
  \<^verbatim>\<open>mysql4cpp/timestamp.h\<close> and \<^verbatim>\<open>timestamp.cpp\<close>. A \<^verbatim>\<open>Timestamp\<close> is its only member,
  the microseconds since the epoch, a 64-bit \<^verbatim>\<open>time_t\<close>. The C library's \<^verbatim>\<open>mktime\<close> and
  \<^verbatim>\<open>localtime_r\<close> depend on the time zone of the process and are arguments of the
  definitions; what the code relies on is the locale \<open>clock\<close>, which the theory
  \<open>Calendar\<close> interprets on the civil calendar in UTC.
\<close>

datatype time_unit = microsecond | second | minute | hour | day | month | year

datatype parse_result = success | fail

record tm =
  tm_year :: int
  tm_mon :: int
  tm_mday :: int
  tm_hour :: int
  tm_min :: int
  tm_sec :: int

definition tm_zero :: tm where
  "tm_zero = \<lparr>tm_year = 0, tm_mon = 0, tm_mday = 0, tm_hour = 0, tm_min = 0, tm_sec = 0\<rparr>"

type_synonym timestamp = int

definition microSecondsPerSecond :: int where
  "microSecondsPerSecond = 1000 * 1000"

fun isvalid_tm_field :: "int \<Rightarrow> time_unit \<Rightarrow> bool" where
  "isvalid_tm_field v month \<longleftrightarrow> 0 \<le> v \<and> v < 12"
| "isvalid_tm_field v day \<longleftrightarrow> 0 < v \<and> v \<le> 31"
| "isvalid_tm_field v hour \<longleftrightarrow> 0 \<le> v \<and> v < 24"
| "isvalid_tm_field v minute \<longleftrightarrow> 0 \<le> v \<and> v \<le> 59"
| "isvalid_tm_field v second \<longleftrightarrow> 0 \<le> v \<and> v \<le> 60"
| "isvalid_tm_field v _ \<longleftrightarrow> True"

section \<open>Parsing\<close>

text \<open>The loop \<^verbatim>\<open>while (isspace(time.at(hourPos))) hourPos++\<close>; \<^verbatim>\<open>at\<close> is checked.\<close>

function skip_spaces :: "string \<Rightarrow> nat \<Rightarrow> nat res" where
  "skip_spaces s i =
     (if i < length s then if isspace (s ! i) then skip_spaces s (i + 1) else Inr i
      else Inl Out_Of_Range)"
  by pat_completeness auto
termination
  by (relation "measure (\<lambda>(s, i). length s - i)") auto

declare skip_spaces.simps [simp del]

text \<open>The part after the date: hours, and minutes and seconds when they are given.\<close>

definition parse_hms :: "string \<Rightarrow> tm \<Rightarrow> (parse_result \<times> tm) res" where
  "parse_hms text t =
     (let hms = split text '':'';
          sz = length hms
      in if sz = 0 then Inr (success, t)
         else rbind (stoi (hms ! 0)) (\<lambda>h.
           let t = t\<lparr>tm_hour := h\<rparr> in
           if \<not> isvalid_tm_field h hour then Inr (fail, t)
           else rbind (if sz > 1 then rmap Some (stoi (hms ! 1)) else Inr None) (\<lambda>mi.
             let t = (case mi of Some v \<Rightarrow> t\<lparr>tm_min := v\<rparr> | None \<Rightarrow> t) in
             if (case mi of Some v \<Rightarrow> \<not> isvalid_tm_field v minute | None \<Rightarrow> False) then Inr (fail, t)
             else rbind (if sz > 2 then rmap Some (stoi (hms ! 2)) else Inr None) (\<lambda>s.
               let t = (case s of Some v \<Rightarrow> t\<lparr>tm_sec := v\<rparr> | None \<Rightarrow> t) in
               if (case s of Some v \<Rightarrow> \<not> isvalid_tm_field v second | None \<Rightarrow> False) then Inr (fail, t)
               else Inr (success, t)))))"

definition parseTimeStr :: "string \<Rightarrow> tm \<Rightarrow> (parse_result \<times> tm) res" where
  "parseTimeStr str t =
     (let time = strip str;
          spaceIdx = find_first_of time '' '' 0;
          ymdLen = (case spaceIdx of Some i \<Rightarrow> i | None \<Rightarrow> length str);
          ymd = split (take ymdLen time) ''-/''
      in if length ymd \<noteq> 3 \<or> length (ymd ! 0) \<noteq> 4 then Inr (fail, t)
         else rbind (stoi (ymd ! 0)) (\<lambda>y. rbind (stoi (ymd ! 1)) (\<lambda>m.
           let t = t\<lparr>tm_year := y - 1900, tm_mon := m - 1\<rparr> in
           if \<not> isvalid_tm_field (m - 1) month then Inr (fail, t)
           else rbind (stoi (ymd ! 2)) (\<lambda>d.
             let t = t\<lparr>tm_mday := d\<rparr> in
             if \<not> isvalid_tm_field d day then Inr (fail, t)
             else (case spaceIdx of
                     None \<Rightarrow> Inr (success, t)
                   | Some i \<Rightarrow> rbind (skip_spaces time (i + 1)) (\<lambda>p. parse_hms (drop p time) t))))))"

section \<open>Constructors\<close>

definition Timestamp_default :: timestamp where
  "Timestamp_default = 0"

definition Timestamp_of :: "int \<Rightarrow> timestamp" where
  "Timestamp_of time = time"

definition Timestamp_isValid :: "timestamp \<Rightarrow> bool" where
  "Timestamp_isValid ts \<longleftrightarrow> ts > 0"

definition Timestamp_of_string :: "(tm \<Rightarrow> int) \<Rightarrow> string \<Rightarrow> timestamp res" where
  "Timestamp_of_string mktime timeStr =
     rbind (parseTimeStr timeStr tm_zero) (\<lambda>(r, t).
       if r \<noteq> success then Inr 0
       else i64 (mktime t * microSecondsPerSecond))"

text \<open>
  \<^verbatim>\<open>MYSQL_TIME\<close>: the members are \<^verbatim>\<open>unsigned int\<close>, \<^verbatim>\<open>second_part\<close> is
  \<^verbatim>\<open>unsigned long\<close>.
\<close>

datatype mysql_timestamp_type = MYSQL_TIMESTAMP_DATE | MYSQL_TIMESTAMP_DATETIME | MYSQL_TIMESTAMP_TIME

record mysql_time =
  my_year :: "32 word"
  my_month :: "32 word"
  my_day :: "32 word"
  my_hour :: "32 word"
  my_minute :: "32 word"
  my_second :: "32 word"
  second_part :: "64 word"
  time_type :: mysql_timestamp_type

definition tm_of_mysql :: "mysql_time \<Rightarrow> tm" where
  "tm_of_mysql m = \<lparr>tm_year = sint (my_year m - 1900), tm_mon = sint (my_month m - 1),
     tm_mday = sint (my_day m), tm_hour = sint (my_hour m), tm_min = sint (my_minute m),
     tm_sec = sint (my_second m)\<rparr>"

text \<open>The sum with \<^verbatim>\<open>second_part\<close> is an \<^verbatim>\<open>unsigned long\<close>, converted back to \<^verbatim>\<open>time_t\<close>.\<close>

definition Timestamp_of_mysql :: "(tm \<Rightarrow> int) \<Rightarrow> mysql_time \<Rightarrow> timestamp res" where
  "Timestamp_of_mysql mktime m =
     rmap (\<lambda>us. sint ((word_of_int us :: 64 word) + second_part m))
          (i64 (mktime (tm_of_mysql m) * microSecondsPerSecond))"

definition Timestamp_now :: "int \<Rightarrow> timestamp" where
  "Timestamp_now microseconds = Timestamp_of microseconds"

section \<open>Operations\<close>

text \<open>A field is changed only when its new value is valid; there is no carry.\<close>

definition bump :: "int \<Rightarrow> int \<Rightarrow> time_unit \<Rightarrow> int res" where
  "bump v value u = rmap (\<lambda>v'. if isvalid_tm_field v' u then v' else v) (i32 (v + value))"

fun bump_tm :: "int \<Rightarrow> time_unit \<Rightarrow> tm \<Rightarrow> tm res" where
  "bump_tm value year t = rmap (\<lambda>v. t\<lparr>tm_year := v\<rparr>) (bump (tm_year t) value year)"
| "bump_tm value month t = rmap (\<lambda>v. t\<lparr>tm_mon := v\<rparr>) (bump (tm_mon t) value month)"
| "bump_tm value day t = rmap (\<lambda>v. t\<lparr>tm_mday := v\<rparr>) (bump (tm_mday t) value day)"
| "bump_tm value hour t = rmap (\<lambda>v. t\<lparr>tm_hour := v\<rparr>) (bump (tm_hour t) value hour)"
| "bump_tm value minute t = rmap (\<lambda>v. t\<lparr>tm_min := v\<rparr>) (bump (tm_min t) value minute)"
| "bump_tm value second t = rmap (\<lambda>v. t\<lparr>tm_sec := v\<rparr>) (bump (tm_sec t) value second)"
| "bump_tm value microsecond t = Inr t"

definition addTime :: "(tm \<Rightarrow> int) \<Rightarrow> (int \<Rightarrow> tm) \<Rightarrow> int \<Rightarrow> time_unit \<Rightarrow> timestamp \<Rightarrow> timestamp res" where
  "addTime mktime localtime value u ts =
     rbind (bump_tm value u (localtime (cdiv ts microSecondsPerSecond)))
       (\<lambda>t. i64 (mktime t * microSecondsPerSecond))"

text \<open>\<^verbatim>\<open>sprintf\<close> into a buffer of 25 bytes, the terminator included.\<close>

definition format_tm :: "tm \<Rightarrow> string" where
  "format_tm t = printf_0d 4 (tm_year t + 1900) @ ''-'' @ printf_0d 2 (tm_mon t + 1) @ ''-''
     @ printf_0d 2 (tm_mday t) @ '' '' @ printf_0d 2 (tm_hour t) @ '':'' @ printf_0d 2 (tm_min t)
     @ '':'' @ printf_0d 2 (tm_sec t)"

definition toFormattedString :: "(int \<Rightarrow> tm) \<Rightarrow> timestamp \<Rightarrow> string res" where
  "toFormattedString localtime ts =
     (if \<not> Timestamp_isValid ts then Inr []
      else let s = format_tm (localtime (cdiv ts microSecondsPerSecond))
           in if length s < 25 then Inr s else Inl UB)"

definition toMysqlTime :: "(int \<Rightarrow> tm) \<Rightarrow> mysql_timestamp_type \<Rightarrow> timestamp \<Rightarrow> mysql_time" where
  "toMysqlTime localtime type ts =
     (let t = localtime (cdiv ts microSecondsPerSecond)
      in \<lparr>my_year = word_of_int (tm_year t + 1900), my_month = word_of_int (tm_mon t + 1),
          my_day = word_of_int (tm_mday t), my_hour = word_of_int (tm_hour t),
          my_minute = word_of_int (tm_min t), my_second = word_of_int (tm_sec t),
          second_part = word_of_int (cmod ts microSecondsPerSecond), time_type = type\<rparr>)"

section \<open>The contract of the clock\<close>

text \<open>
  \<open>plain t\<close>: a broken-down time that denotes one instant and is in normal form. \<^verbatim>\<open>mktime\<close>
  and \<^verbatim>\<open>localtime_r\<close> are inverse to each other on those, and \<^verbatim>\<open>localtime_r\<close> fills the
  members within their documented ranges.
\<close>

definition tm_fields_ok :: "tm \<Rightarrow> bool" where
  "tm_fields_ok t \<longleftrightarrow> 0 \<le> tm_mon t \<and> tm_mon t < 12 \<and> 1 \<le> tm_mday t \<and> tm_mday t \<le> 31
     \<and> 0 \<le> tm_hour t \<and> tm_hour t < 24 \<and> 0 \<le> tm_min t \<and> tm_min t < 60
     \<and> 0 \<le> tm_sec t \<and> tm_sec t < 60"

definition tm_year_ok :: "tm \<Rightarrow> bool" where
  "tm_year_ok t \<longleftrightarrow> - 200000 \<le> tm_year t \<and> tm_year t \<le> 200000"

locale clock =
  fixes mktime :: "tm \<Rightarrow> int"
    and localtime :: "int \<Rightarrow> tm"
    and plain :: "tm \<Rightarrow> bool"
  assumes mktime_localtime: "mktime (localtime x) = x"
    and localtime_mktime: "plain t \<Longrightarrow> localtime (mktime t) = t"
    and localtime_plain: "plain (localtime x)"
    and plain_ok: "plain t \<Longrightarrow> tm_fields_ok t"
begin

lemma sint_word_small: "- 2147483648 \<le> x \<Longrightarrow> x < 2147483648 \<Longrightarrow> sint (word_of_int x :: 32 word) = x"
  by (subst signed_of_int, subst signed_take_bit_int_eq_self) simp_all

lemma tm_of_toMysqlTime:
  assumes "tm_year_ok (localtime (cdiv ts microSecondsPerSecond))"
  shows "tm_of_mysql (toMysqlTime localtime type ts) = localtime (cdiv ts microSecondsPerSecond)"
proof -
  let ?t = "localtime (cdiv ts microSecondsPerSecond)"
  have "tm_fields_ok ?t" by (intro plain_ok localtime_plain)
  moreover have "(word_of_int (tm_year ?t + 1900) - 1900 :: 32 word) = word_of_int (tm_year ?t)"
    "(word_of_int (tm_mon ?t + 1) - 1 :: 32 word) = word_of_int (tm_mon ?t)"
    by simp_all
  ultimately show ?thesis
    using assms by (simp add: tm_of_mysql_def toMysqlTime_def Let_def tm_fields_ok_def tm_year_ok_def
        sint_word_small)
qed

lemma mysql_roundtrip:
  assumes "tm_year_ok (localtime (cdiv ts microSecondsPerSecond))"
    and "- (2 ^ 62) \<le> ts" "ts < 2 ^ 62"
  shows "Timestamp_of_mysql mktime (toMysqlTime localtime type ts) = Inr ts"
proof -
  have "cdiv ts microSecondsPerSecond * microSecondsPerSecond + cmod ts microSecondsPerSecond = ts"
    by (rule cdiv_cmod)
  moreover have "\<bar>cdiv ts microSecondsPerSecond * microSecondsPerSecond\<bar> \<le> \<bar>ts\<bar>"
    by (simp add: cdiv_def abs_mult microSecondsPerSecond_def abs_sgn_eq flip: minus_mod_eq_div_mult)
  moreover have "second_part (toMysqlTime localtime type ts) = word_of_int (cmod ts microSecondsPerSecond)"
    by (simp add: toMysqlTime_def Let_def)
  ultimately show ?thesis
    using assms(2,3)
    by (simp add: Timestamp_of_mysql_def tm_of_toMysqlTime[OF assms(1)] mktime_localtime
        signed_of_int signed_take_bit_int_eq_self flip: of_int_add)
qed

end

end
