(* ===== verification/Statement.thy ===== *)
theory Statement
  imports Timestamp
begin

text \<open>
  \<^verbatim>\<open>mysql4cpp/statement.cpp\<close> and the column description of \<^verbatim>\<open>mysql4cpp/common.h\<close>:
  prepared statements, their parameter and result buffers. The MySQL client library is
  not under src: what it answers for a statement (\<open>prepared\<close>, \<open>server\<close>) is an argument.
  Buffers are lists of bytes, an indeterminate byte is \<open>None\<close>; integers are little-endian
  and \<^verbatim>\<open>MYSQL_TIME\<close> has its x86-64 layout of 40 bytes.
\<close>

section \<open>Columns\<close>

text \<open>The enumerators the sources name; the others of the client library carry their code.\<close>

datatype mysql_type =
    MYSQL_TYPE_TINY | MYSQL_TYPE_SHORT | MYSQL_TYPE_INT24 | MYSQL_TYPE_LONG | MYSQL_TYPE_LONGLONG
  | MYSQL_TYPE_FLOAT | MYSQL_TYPE_DOUBLE | MYSQL_TYPE_VARCHAR | MYSQL_TYPE_BLOB
  | MYSQL_TYPE_TINY_BLOB | MYSQL_TYPE_MEDIUM_BLOB | MYSQL_TYPE_LONG_BLOB | MYSQL_TYPE_STRING
  | MYSQL_TYPE_VAR_STRING | MYSQL_TYPE_TIMESTAMP | MYSQL_TYPE_TIME | MYSQL_TYPE_DATE
  | MYSQL_TYPE_DATETIME | MYSQL_TYPE_YEAR | MYSQL_TYPE_CODE nat

record column_meta =
  cm_name :: string
  cm_length :: nat
  cm_type :: mysql_type

section \<open>Bytes\<close>

definition le_bytes :: "nat \<Rightarrow> nat \<Rightarrow> string" where
  "le_bytes n x = map (\<lambda>i. char_of (x div 256 ^ i)) [0..<n]"

definition le_val :: "string \<Rightarrow> nat" where
  "le_val bs = foldr (\<lambda>c v. chr_code c + 256 * v) bs 0"

lemma length_le_bytes [simp]: "length (le_bytes n x) = n"
  by (simp add: le_bytes_def)

lemma le_bytes_Suc: "le_bytes (Suc n) x = char_of x # le_bytes n (x div 256)"
proof -
  have "le_bytes (Suc n) x = char_of x # map (\<lambda>i. char_of (x div 256 ^ Suc i)) [0..<n]"
    unfolding le_bytes_def upt_conv_Cons[OF zero_less_Suc] map_Suc_upt[symmetric]
    by (simp add: comp_def)
  then show ?thesis by (simp add: le_bytes_def div_mult2_eq)
qed

lemma le_val_bytes: "x < 256 ^ n \<Longrightarrow> le_val (le_bytes n x) = x"
proof (induction n arbitrary: x)
  case (Suc n)
  then have "x div 256 < 256 ^ n" by (simp add: less_mult_imp_div_less mult.commute)
  with Suc.IH show ?case by (simp add: le_bytes_Suc le_val_def)
qed (simp add: le_val_def le_bytes_def)

type_synonym buffer = "char option list"

text \<open>Reading \<open>n\<close> bytes at an offset: outside the object or indeterminate is undefined.\<close>

definition read_bytes :: "buffer \<Rightarrow> nat \<Rightarrow> nat \<Rightarrow> string res" where
  "read_bytes b off n =
     (if off + n \<le> length b \<and> None \<notin> set (take n (drop off b))
      then Inr (map the (take n (drop off b))) else Inl UB)"

definition read_int :: "buffer \<Rightarrow> int res" where
  "read_int b = rmap (\<lambda>s. sint (word_of_nat (le_val s) :: 32 word)) (read_bytes b 0 4)"

definition read_long :: "buffer \<Rightarrow> int res" where
  "read_long b = rmap (\<lambda>s. sint (word_of_nat (le_val s) :: 64 word)) (read_bytes b 0 8)"

definition read_u32 :: "buffer \<Rightarrow> nat \<Rightarrow> 32 word res" where
  "read_u32 b off = rmap (\<lambda>s. word_of_nat (le_val s)) (read_bytes b off 4)"

definition read_u64 :: "buffer \<Rightarrow> nat \<Rightarrow> 64 word res" where
  "read_u64 b off = rmap (\<lambda>s. word_of_nat (le_val s)) (read_bytes b off 8)"

lemma read_bytes_at:
  assumes "b = map Some (x @ s @ y)" "length x = off" "length s = n"
  shows "read_bytes b off n = Inr s"
  using assms by (auto simp: read_bytes_def comp_def)

subsection \<open>MYSQL_TIME\<close>

fun time_type_code :: "mysql_timestamp_type \<Rightarrow> nat" where
  "time_type_code MYSQL_TIMESTAMP_DATE = 0"
| "time_type_code MYSQL_TIMESTAMP_DATETIME = 1"
| "time_type_code MYSQL_TIMESTAMP_TIME = 2"

definition bytes_of_time :: "mysql_time \<Rightarrow> string" where
  "bytes_of_time m =
     concat (map (le_bytes 4 \<circ> unat) [my_year m, my_month m, my_day m, my_hour m, my_minute m, my_second m])
     @ le_bytes 8 (unat (second_part m)) @ le_bytes 4 0 @ le_bytes 4 (time_type_code (time_type m))"

text \<open>What the constructor of \<^verbatim>\<open>Timestamp\<close> reads of a \<^verbatim>\<open>MYSQL_TIME\<close>.\<close>

definition read_time :: "buffer \<Rightarrow> mysql_time res" where
  "read_time b =
     rbind (read_u32 b 0) (\<lambda>y. rbind (read_u32 b 4) (\<lambda>mo. rbind (read_u32 b 8) (\<lambda>d.
     rbind (read_u32 b 12) (\<lambda>h. rbind (read_u32 b 16) (\<lambda>mi. rbind (read_u32 b 20) (\<lambda>s.
     rbind (read_u64 b 24) (\<lambda>us.
       Inr \<lparr>my_year = y, my_month = mo, my_day = d, my_hour = h, my_minute = mi, my_second = s,
            second_part = us, time_type = MYSQL_TIMESTAMP_DATETIME\<rparr>)))))))"

section \<open>Binds\<close>

text \<open>
  \<^verbatim>\<open>MYSQL_BIND\<close>: a null \<^verbatim>\<open>buffer\<close> or \<^verbatim>\<open>length\<close> pointer is \<open>None\<close>; the length pointed
  to may be indeterminate.
\<close>

record my_bind =
  bind_type :: mysql_type
  bind_buffer :: "buffer option"
  bind_length :: "nat option option"
  bind_buffer_length :: nat

definition zero_bind :: my_bind where
  "zero_bind = \<lparr>bind_type = MYSQL_TYPE_CODE 0, bind_buffer = None, bind_length = None,
     bind_buffer_length = 0\<rparr>"

definition newBind :: "mysql_type \<Rightarrow> nat \<Rightarrow> my_bind" where
  "newBind type bufsize = \<lparr>bind_type = type, bind_buffer = Some (replicate bufsize None),
     bind_length = Some None, bind_buffer_length = bufsize\<rparr>"

text \<open>\<open>data\<close> are the \<^verbatim>\<open>valueLen\<close> bytes copied; a failed \<^verbatim>\<open>assert\<close> ends the program.\<close>

definition newParam :: "mysql_type \<Rightarrow> string \<Rightarrow> nat \<Rightarrow> my_bind" where
  "newParam type data bufsize =
     \<lparr>bind_type = type,
      bind_buffer = Some (map Some data @ replicate (bufsize - length data) None),
      bind_length = Some (Some (length data)), bind_buffer_length = bufsize\<rparr>"

fun makeResultBind :: "column_meta \<Rightarrow> my_bind list \<Rightarrow> my_bind list" where
  "makeResultBind field resBind = resBind @
     (case cm_type field of
        MYSQL_TYPE_TINY \<Rightarrow> [newBind MYSQL_TYPE_TINY 1]
      | MYSQL_TYPE_SHORT \<Rightarrow> [newBind MYSQL_TYPE_SHORT 2]
      | MYSQL_TYPE_INT24 \<Rightarrow> [newBind MYSQL_TYPE_INT24 3]
      | MYSQL_TYPE_LONG \<Rightarrow> [newBind MYSQL_TYPE_LONG 4]
      | MYSQL_TYPE_LONGLONG \<Rightarrow> [newBind MYSQL_TYPE_LONGLONG 8]
      | MYSQL_TYPE_FLOAT \<Rightarrow> [newBind MYSQL_TYPE_FLOAT 4]
      | MYSQL_TYPE_DOUBLE \<Rightarrow> [newBind MYSQL_TYPE_DOUBLE 8]
      | MYSQL_TYPE_TIMESTAMP \<Rightarrow> [newBind (cm_type field) 40]
      | MYSQL_TYPE_TIME \<Rightarrow> [newBind (cm_type field) 40]
      | MYSQL_TYPE_DATE \<Rightarrow> [newBind (cm_type field) 40]
      | MYSQL_TYPE_DATETIME \<Rightarrow> [newBind (cm_type field) 40]
      | MYSQL_TYPE_YEAR \<Rightarrow> [newBind (cm_type field) 40]
      | MYSQL_TYPE_CODE n \<Rightarrow> []
      | _ \<Rightarrow> [newBind (cm_type field) (cm_length field)])"

section \<open>Statements\<close>

text \<open>
  \<open>st_numField\<close> is \<open>None\<close> while the member is uninitialised. \<open>st_pending\<close> are the
  result binds as \<^verbatim>\<open>mysql_stmt_fetch\<close> is going to leave them, row by row.
\<close>

record statement =
  st_open :: bool
  st_error :: string
  st_fields :: "column_meta list"
  st_numField :: "nat option"
  st_nameToIndex :: "int umap"
  st_resBind :: "my_bind list"
  st_paramBind :: "my_bind list"
  st_paramCount :: nat
  st_pending :: "my_bind list list"

text \<open>The answer to \<^verbatim>\<open>mysql_stmt_prepare\<close>: an error, or the columns and the parameters.\<close>

type_synonym prepared = "string + column_meta list \<times> nat"

definition add_field :: "nat \<times> column_meta \<Rightarrow> statement \<Rightarrow> statement" where
  "add_field f st = st\<lparr>st_fields := st_fields st @ [snd f],
     st_nameToIndex := uput (cm_name (snd f)) (int (fst f)) (st_nameToIndex st),
     st_resBind := makeResultBind (snd f) (st_resBind st)\<rparr>"

definition Statement_new :: "prepared \<Rightarrow> statement" where
  "Statement_new answer =
     (let st = \<lparr>st_open = True, st_error = [], st_fields = [], st_numField = None,
                st_nameToIndex = [], st_resBind = [], st_paramBind = [], st_paramCount = 0,
                st_pending = []\<rparr>
      in case answer of
           Inl e \<Rightarrow> st\<lparr>st_error := e, st_open := False\<rparr>
         | Inr (cols, n) \<Rightarrow>
             let st = fold add_field (zip [0..<length cols] cols) (st\<lparr>st_numField := Some (length cols)\<rparr>)
             in st\<lparr>st_paramCount := n, st_paramBind := replicate n zero_bind\<rparr>)"

text \<open>The move constructor: the new statement and what is left of the old one.\<close>

definition Statement_move :: "statement \<Rightarrow> statement \<times> statement" where
  "Statement_move o' = (o'\<lparr>st_error := []\<rparr>,
     o'\<lparr>st_open := False, st_fields := [], st_nameToIndex := [], st_resBind := [],
        st_paramBind := [], st_pending := []\<rparr>)"

definition Statement_assign :: "statement \<Rightarrow> statement \<Rightarrow> statement \<times> statement" where
  "Statement_assign this o' =
     (o'\<lparr>st_error := st_error this\<rparr>,
      o'\<lparr>st_open := False, st_fields := st_fields this, st_nameToIndex := st_nameToIndex this,
         st_resBind := st_resBind this, st_paramBind := st_paramBind this, st_pending := []\<rparr>)"

text \<open>The answers of the server to the steps of an execution; \<open>None\<close> is success.\<close>

record server =
  sv_bind_param :: "string option"
  sv_execute :: "string option"
  sv_bind_result :: "string option"
  sv_store_result :: "string option"
  sv_rows :: "my_bind list list"
  sv_affected :: "64 word"

definition stop :: "string option \<Rightarrow> (statement \<Rightarrow> 'a \<times> statement) \<Rightarrow> 'a \<Rightarrow> statement \<Rightarrow> 'a \<times> statement" where
  "stop answer k v st = (case answer of Some e \<Rightarrow> (v, st\<lparr>st_error := e\<rparr>) | None \<Rightarrow> k st)"

text \<open>
  \<^verbatim>\<open>executeQuery\<close>: the row count for the \<^verbatim>\<open>PreparedResult\<close>, \<open>None\<close> for an invalid
  result set. \<^verbatim>\<open>&resBind[0]\<close> of an empty vector is undefined, and so is executing the
  null handle of a statement that failed to prepare or was moved from.
\<close>

definition stmt_executeQuery :: "server \<Rightarrow> statement \<Rightarrow> (int option \<times> statement) res" where
  "stmt_executeQuery sv st =
     (if \<not> st_open st then Inl UB
      else if st_resBind st = [] \<and> (st_paramCount st = 0 \<or> sv_bind_param sv = None) \<and> sv_execute sv = None
      then Inl UB
      else Inr (stop (if st_paramCount st > 0 then sv_bind_param sv else None)
        (stop (sv_execute sv) (stop (sv_bind_result sv) (stop (sv_store_result sv)
          (\<lambda>st. (Some (sint (word_of_nat (length (sv_rows sv)) :: 32 word)),
                 st\<lparr>st_pending := sv_rows sv\<rparr>)) None) None) None) None st))"

definition stmt_executeUpdate :: "server \<Rightarrow> statement \<Rightarrow> (64 word \<times> statement) res" where
  "stmt_executeUpdate sv st =
     (if \<not> st_open st then Inl UB
      else Inr (stop (if st_paramCount st > 0 then sv_bind_param sv else None)
       (stop (sv_execute sv) (\<lambda>st. (sv_affected sv, st)) 0) 0 st))"

definition getParamCount :: "statement \<Rightarrow> nat" where
  "getParamCount st = st_paramCount st"

definition fieldNames :: "statement \<Rightarrow> string list" where
  "fieldNames st = map cm_name (st_fields st)"

text \<open>\<^verbatim>\<open>Res\<close>: a null \<^verbatim>\<open>data\<close> is \<open>None\<close>. Lengths are below \<open>2 ^ 31\<close>, so that \<^verbatim>\<open>int len\<close> holds them.\<close>

type_synonym result_cell = "buffer option \<times> nat"

definition getRes :: "int \<Rightarrow> statement \<Rightarrow> result_cell res" where
  "getRes index st =
     (case st_numField st of
        None \<Rightarrow> if index < 0 then Inr (None, 0) else Inl UB
      | Some n \<Rightarrow>
          if index < 0 \<or> index \<ge> int n then Inr (None, 0)
          else if nat index \<ge> length (st_resBind st) then Inl UB
          else let b = st_resBind st ! nat index
               in case bind_length b of
                    None \<Rightarrow> Inr (bind_buffer b, 0)
                  | Some None \<Rightarrow> Inl UB
                  | Some (Some len) \<Rightarrow> Inr (bind_buffer b, len))"

definition getRes_name :: "string \<Rightarrow> statement \<Rightarrow> result_cell res" where
  "getRes_name columnName st =
     (let index = (case uget (st_nameToIndex st) columnName of Some i \<Rightarrow> i | None \<Rightarrow> - 1)
      in if index = - 1 then Inr (None, 0) else getRes index st)"

definition isValidParamIndex :: "int \<Rightarrow> statement \<Rightarrow> bool" where
  "isValidParamIndex index st \<longleftrightarrow> index > 0 \<and> index \<le> int (st_paramCount st)"

definition set_param :: "int \<Rightarrow> my_bind \<Rightarrow> statement \<Rightarrow> statement" where
  "set_param index b st =
     (if isValidParamIndex index st
      then st\<lparr>st_paramBind := (st_paramBind st)[nat (index - 1) := b]\<rparr> else st)"

definition setInt :: "int \<Rightarrow> int \<Rightarrow> statement \<Rightarrow> statement" where
  "setInt index v = set_param index (newParam MYSQL_TYPE_LONG (le_bytes 4 (nat (v mod 2 ^ 32))) 4)"

text \<open>A \<^verbatim>\<open>float\<close> and a \<^verbatim>\<open>double\<close> are their bits.\<close>

definition setFloat :: "int \<Rightarrow> 32 word \<Rightarrow> statement \<Rightarrow> statement" where
  "setFloat index v = set_param index (newParam MYSQL_TYPE_FLOAT (le_bytes 4 (unat v)) 4)"

definition setDouble :: "int \<Rightarrow> 64 word \<Rightarrow> statement \<Rightarrow> statement" where
  "setDouble index v = set_param index (newParam MYSQL_TYPE_DOUBLE (le_bytes 8 (unat v)) 8)"

definition setString :: "int \<Rightarrow> string \<Rightarrow> statement \<Rightarrow> statement" where
  "setString index v = set_param index (newParam MYSQL_TYPE_STRING v (length v + 1))"

text \<open>For any other type the copied \<^verbatim>\<open>mytime\<close> is indeterminate.\<close>

fun time_kind :: "mysql_type \<Rightarrow> mysql_timestamp_type option" where
  "time_kind MYSQL_TYPE_DATETIME = Some MYSQL_TIMESTAMP_DATETIME"
| "time_kind MYSQL_TYPE_TIMESTAMP = Some MYSQL_TIMESTAMP_DATETIME"
| "time_kind MYSQL_TYPE_DATE = Some MYSQL_TIMESTAMP_DATE"
| "time_kind MYSQL_TYPE_YEAR = Some MYSQL_TIMESTAMP_DATE"
| "time_kind MYSQL_TYPE_TIME = Some MYSQL_TIMESTAMP_TIME"
| "time_kind _ = None"

definition setTime :: "(int \<Rightarrow> tm) \<Rightarrow> int \<Rightarrow> timestamp \<Rightarrow> mysql_type \<Rightarrow> statement \<Rightarrow> statement res" where
  "setTime localtime index v type st =
     (if \<not> isValidParamIndex index st then Inr st
      else case time_kind type of
             None \<Rightarrow> Inl UB
           | Some k \<Rightarrow> Inr (set_param index
               (newParam type (bytes_of_time (toMysqlTime localtime k v)) 40) st))"

end
