(* ===== verification/Results.thy ===== *)
theory Results
  imports Statement "HOL-Library.Word"
begin

text \<open>
  \<^verbatim>\<open>mysql4cpp/result.cpp\<close>, \<^verbatim>\<open>preparedresult.cpp\<close>, \<^verbatim>\<open>sqlresult.cpp\<close> and the wrapper
  \<^verbatim>\<open>resultset.h\<close>: the cursors over the rows of a query and the typed access to the
  columns of the current row. What the loops over a result rely on is the locale
  \<open>result_cursor\<close>, interpreted on both kinds of result.
\<close>

section \<open>Type predicates\<close>

definition isInt :: "mysql_type \<Rightarrow> bool" where
  "isInt t \<longleftrightarrow> t = MYSQL_TYPE_TINY \<or> t = MYSQL_TYPE_SHORT \<or> t = MYSQL_TYPE_INT24 \<or> t = MYSQL_TYPE_LONG"

definition isLong :: "mysql_type \<Rightarrow> bool" where
  "isLong t \<longleftrightarrow> t = MYSQL_TYPE_LONGLONG"

definition isFloat :: "mysql_type \<Rightarrow> bool" where
  "isFloat t \<longleftrightarrow> t = MYSQL_TYPE_FLOAT"

definition isDouble :: "mysql_type \<Rightarrow> bool" where
  "isDouble t \<longleftrightarrow> t = MYSQL_TYPE_DOUBLE"

definition isString :: "mysql_type \<Rightarrow> bool" where
  "isString t \<longleftrightarrow> t = MYSQL_TYPE_STRING \<or> t = MYSQL_TYPE_VAR_STRING \<or> t = MYSQL_TYPE_VARCHAR
     \<or> t = MYSQL_TYPE_BLOB"

definition isTime :: "mysql_type \<Rightarrow> bool" where
  "isTime t \<longleftrightarrow> t = MYSQL_TYPE_TIME \<or> t = MYSQL_TYPE_TIMESTAMP \<or> t = MYSQL_TYPE_DATE
     \<or> t = MYSQL_TYPE_YEAR \<or> t = MYSQL_TYPE_DATETIME"

section \<open>PreparedResult\<close>

text \<open>The result points to its statement, which \<^verbatim>\<open>next\<close> changes; both are the state.\<close>

record prepared_result =
  pr_stmt :: statement
  pr_count :: int
  pr_cur :: int

definition PreparedResult_new :: "statement \<Rightarrow> int \<Rightarrow> prepared_result" where
  "PreparedResult_new st count = \<lparr>pr_stmt = st, pr_count = count, pr_cur = 1\<rparr>"

definition pr_hasNext :: "prepared_result \<Rightarrow> bool" where
  "pr_hasNext r \<longleftrightarrow> pr_cur r \<le> pr_count r"

text \<open>\<^verbatim>\<open>mysql_stmt_fetch\<close> fills the bound buffers with the next row, if there is one.\<close>

definition stmt_fetch :: "statement \<Rightarrow> statement" where
  "stmt_fetch st = (case st_pending st of
     [] \<Rightarrow> st
   | b # bs \<Rightarrow> st\<lparr>st_resBind := b, st_pending := bs\<rparr>)"

definition pr_next :: "prepared_result \<Rightarrow> prepared_result" where
  "pr_next r = r\<lparr>pr_stmt := stmt_fetch (pr_stmt r), pr_cur := pr_cur r + 1\<rparr>"

text \<open>Reading a value through the data pointer of a \<^verbatim>\<open>Res\<close>; null gives the default.\<close>

definition through :: "'a \<Rightarrow> (buffer \<Rightarrow> 'a res) \<Rightarrow> result_cell \<Rightarrow> 'a res" where
  "through dflt rd cell = (case fst cell of None \<Rightarrow> Inr dflt | Some b \<Rightarrow> rd b)"

definition pr_getInt :: "int \<Rightarrow> prepared_result \<Rightarrow> int res" where
  "pr_getInt columnIndex r = rbind (getRes (columnIndex - 1) (pr_stmt r)) (through 0 read_int)"

definition pr_getInt_name :: "string \<Rightarrow> prepared_result \<Rightarrow> int res" where
  "pr_getInt_name columnName r = rbind (getRes_name columnName (pr_stmt r)) (through 0 read_int)"

definition pr_getLong :: "int \<Rightarrow> prepared_result \<Rightarrow> int res" where
  "pr_getLong columnIndex r = rbind (getRes (columnIndex - 1) (pr_stmt r)) (through 0 read_long)"

definition pr_getLong_name :: "string \<Rightarrow> prepared_result \<Rightarrow> int res" where
  "pr_getLong_name columnName r = rbind (getRes_name columnName (pr_stmt r)) (through 0 read_long)"

definition pr_getFloat :: "int \<Rightarrow> prepared_result \<Rightarrow> 32 word res" where
  "pr_getFloat columnIndex r =
     rbind (getRes (columnIndex - 1) (pr_stmt r)) (through 0 (\<lambda>b. read_u32 b 0))"

definition pr_getFloat_name :: "string \<Rightarrow> prepared_result \<Rightarrow> 32 word res" where
  "pr_getFloat_name columnName r =
     rbind (getRes_name columnName (pr_stmt r)) (through 0 (\<lambda>b. read_u32 b 0))"

definition pr_getDouble :: "int \<Rightarrow> prepared_result \<Rightarrow> 64 word res" where
  "pr_getDouble columnIndex r =
     rbind (getRes (columnIndex - 1) (pr_stmt r)) (through 0 (\<lambda>b. read_u64 b 0))"

definition pr_getDouble_name :: "string \<Rightarrow> prepared_result \<Rightarrow> 64 word res" where
  "pr_getDouble_name columnName r =
     rbind (getRes_name columnName (pr_stmt r)) (through 0 (\<lambda>b. read_u64 b 0))"

text \<open>\<^verbatim>\<open>string(data, res.len)\<close>: the length reported by the server, not that of the buffer.\<close>

definition cell_string :: "result_cell \<Rightarrow> string res" where
  "cell_string cell = through [] (\<lambda>b. read_bytes b 0 (snd cell)) cell"

definition pr_getString :: "int \<Rightarrow> prepared_result \<Rightarrow> string res" where
  "pr_getString columnIndex r = rbind (getRes (columnIndex - 1) (pr_stmt r)) cell_string"

definition pr_getString_name :: "string \<Rightarrow> prepared_result \<Rightarrow> string res" where
  "pr_getString_name columnName r = rbind (getRes_name columnName (pr_stmt r)) cell_string"

definition cell_time :: "(tm \<Rightarrow> int) \<Rightarrow> result_cell \<Rightarrow> timestamp res" where
  "cell_time mktime = through Timestamp_default (\<lambda>b. rbind (read_time b) (Timestamp_of_mysql mktime))"

definition pr_getTime :: "(tm \<Rightarrow> int) \<Rightarrow> int \<Rightarrow> prepared_result \<Rightarrow> timestamp res" where
  "pr_getTime mktime columnIndex r =
     rbind (getRes (columnIndex - 1) (pr_stmt r)) (cell_time mktime)"

definition pr_getTime_name :: "(tm \<Rightarrow> int) \<Rightarrow> string \<Rightarrow> prepared_result \<Rightarrow> timestamp res" where
  "pr_getTime_name mktime columnName r =
     rbind (getRes_name columnName (pr_stmt r)) (cell_time mktime)"

section \<open>SqlResult\<close>

text \<open>
  A row of the text protocol: the C string of each column, \<open>None\<close> for SQL NULL. \<open>sq_row\<close> is
  \<open>None\<close> before the first \<^verbatim>\<open>next\<close> (uninitialised) and after the last row (null).
\<close>

type_synonym text_row = "string option list"

record sql_result =
  sq_fields :: "column_meta list"
  sq_nameToIndex :: "int umap"
  sq_row :: "text_row option"
  sq_pending :: "text_row list"
  sq_numRows :: "64 word"
  sq_cur :: "64 word"

definition SqlResult_new :: "column_meta list \<Rightarrow> text_row list \<Rightarrow> sql_result" where
  "SqlResult_new cols rows =
     \<lparr>sq_fields = cols,
      sq_nameToIndex = fold (\<lambda>(i, c). uput (cm_name c) (int i)) (zip [0..<length cols] cols) [],
      sq_row = None, sq_pending = rows, sq_numRows = word_of_nat (length rows), sq_cur = 1\<rparr>"

definition sq_hasNext :: "sql_result \<Rightarrow> bool" where
  "sq_hasNext r \<longleftrightarrow> sq_cur r \<le> sq_numRows r"

definition sq_next :: "sql_result \<Rightarrow> sql_result" where
  "sq_next r = (case sq_pending r of
      [] \<Rightarrow> r\<lparr>sq_row := None, sq_cur := sq_cur r + 1\<rparr>
    | row # rows \<Rightarrow> r\<lparr>sq_row := Some row, sq_pending := rows, sq_cur := sq_cur r + 1\<rparr>)"

definition isValidIndex :: "int \<Rightarrow> sql_result \<Rightarrow> bool" where
  "isValidIndex index r \<longleftrightarrow> index \<ge> 0 \<and> index < int (length (sq_fields r))"

text \<open>\<^verbatim>\<open>row[i]\<close>, a null pointer for SQL NULL.\<close>

definition sq_cell :: "int \<Rightarrow> sql_result \<Rightarrow> string option res" where
  "sq_cell i r = (case sq_row r of
      Some row \<Rightarrow> if nat i < length row then Inr (row ! nat i) else Inl UB
    | None \<Rightarrow> Inl UB)"

text \<open>
  \<^verbatim>\<open>atoi\<close>, \<^verbatim>\<open>atol\<close>: no digits give 0; an unrepresentable value or a null argument is
  undefined. \<^verbatim>\<open>atof\<close> is an argument.
\<close>

definition ato :: "(int \<Rightarrow> int res) \<Rightarrow> string \<Rightarrow> int res" where
  "ato check s =
     (let s = dropWhile isspace s;
          neg = (case s of c # _ \<Rightarrow> c = CHR ''-'' | [] \<Rightarrow> False);
          s = (case s of c # cs \<Rightarrow> if c = CHR ''-'' \<or> c = CHR ''+'' then cs else s | [] \<Rightarrow> s);
          n = int (digits_val (takeWhile isdigit s))
      in check (if neg then - n else n))"

definition nonnull :: "string option \<Rightarrow> string res" where
  "nonnull p = (case p of Some s \<Rightarrow> Inr s | None \<Rightarrow> Inl UB)"

definition sq_get :: "'a \<Rightarrow> (mysql_type \<Rightarrow> bool) \<Rightarrow> (string option \<Rightarrow> 'a res) \<Rightarrow> int \<Rightarrow> sql_result \<Rightarrow> 'a res" where
  "sq_get dflt okType conv columnIndex r =
     (if \<not> isValidIndex (columnIndex - 1) r \<or> \<not> okType (cm_type (sq_fields r ! nat (columnIndex - 1)))
      then Inr dflt
      else rbind (sq_cell (columnIndex - 1) r) conv)"

definition sq_index :: "string \<Rightarrow> sql_result \<Rightarrow> int" where
  "sq_index columnName r = (case uget (sq_nameToIndex r) columnName of Some i \<Rightarrow> i + 1 | None \<Rightarrow> - 1)"

definition sq_getInt :: "int \<Rightarrow> sql_result \<Rightarrow> int res" where
  "sq_getInt = sq_get 0 isInt (\<lambda>p. rbind (nonnull p) (ato i32))"

definition sq_getInt_name :: "string \<Rightarrow> sql_result \<Rightarrow> int res" where
  "sq_getInt_name columnName r = sq_getInt (sq_index columnName r) r"

definition sq_getLong :: "int \<Rightarrow> sql_result \<Rightarrow> int res" where
  "sq_getLong = sq_get 0 isLong (\<lambda>p. rbind (nonnull p) (ato i64))"

definition sq_getLong_name :: "string \<Rightarrow> sql_result \<Rightarrow> int res" where
  "sq_getLong_name columnName r = sq_getLong (sq_index columnName r) r"

definition sq_getFloat :: "(string \<Rightarrow> 64 word) \<Rightarrow> (64 word \<Rightarrow> 32 word) \<Rightarrow> int \<Rightarrow> sql_result \<Rightarrow> 32 word res" where
  "sq_getFloat atof to_float = sq_get 0 isFloat (\<lambda>p. rmap (to_float \<circ> atof) (nonnull p))"

definition sq_getFloat_name ::
    "(string \<Rightarrow> 64 word) \<Rightarrow> (64 word \<Rightarrow> 32 word) \<Rightarrow> string \<Rightarrow> sql_result \<Rightarrow> 32 word res" where
  "sq_getFloat_name atof to_float columnName r = sq_getFloat atof to_float (sq_index columnName r) r"

definition sq_getDouble :: "(string \<Rightarrow> 64 word) \<Rightarrow> int \<Rightarrow> sql_result \<Rightarrow> 64 word res" where
  "sq_getDouble atof = sq_get 0 isDouble (\<lambda>p. rmap atof (nonnull p))"

definition sq_getDouble_name :: "(string \<Rightarrow> 64 word) \<Rightarrow> string \<Rightarrow> sql_result \<Rightarrow> 64 word res" where
  "sq_getDouble_name atof columnName r = sq_getDouble atof (sq_index columnName r) r"

text \<open>A C string ends at its first null byte.\<close>

definition c_string :: "string \<Rightarrow> string" where
  "c_string = takeWhile (\<lambda>c. c \<noteq> char_of (0 :: nat))"

definition sq_getString :: "int \<Rightarrow> sql_result \<Rightarrow> string res" where
  "sq_getString = sq_get [] isString (\<lambda>p. Inr (case p of None \<Rightarrow> [] | Some s \<Rightarrow> c_string s))"

definition sq_getString_name :: "string \<Rightarrow> sql_result \<Rightarrow> string res" where
  "sq_getString_name columnName r = sq_getString (sq_index columnName r) r"

definition sq_getTime :: "(tm \<Rightarrow> int) \<Rightarrow> int \<Rightarrow> sql_result \<Rightarrow> timestamp res" where
  "sq_getTime mktime = sq_get Timestamp_default isTime
     (\<lambda>p. rbind (nonnull p) (\<lambda>s. Timestamp_of_string mktime (c_string s)))"

definition sq_getTime_name :: "(tm \<Rightarrow> int) \<Rightarrow> string \<Rightarrow> sql_result \<Rightarrow> timestamp res" where
  "sq_getTime_name mktime columnName r = sq_getTime mktime (sq_index columnName r) r"

section \<open>ResultSet\<close>

text \<open>The wrapper: a null \<^verbatim>\<open>result\<close> with \<^verbatim>\<open>_isValid\<close> false, or one of the two results.\<close>

datatype result_set = Invalid | Prepared_Rows prepared_result | Sql_Rows sql_result

definition rs_isValid :: "result_set \<Rightarrow> bool" where
  "rs_isValid rs \<longleftrightarrow> rs \<noteq> Invalid"

fun rs_hasNext :: "result_set \<Rightarrow> bool res" where
  "rs_hasNext Invalid = Inl UB"
| "rs_hasNext (Prepared_Rows r) = Inr (pr_hasNext r)"
| "rs_hasNext (Sql_Rows r) = Inr (sq_hasNext r)"

fun rs_next :: "result_set \<Rightarrow> result_set res" where
  "rs_next Invalid = Inl UB"
| "rs_next (Prepared_Rows r) = Inr (Prepared_Rows (pr_next r))"
| "rs_next (Sql_Rows r) = Inr (Sql_Rows (sq_next r))"

fun rs_getInt :: "string \<Rightarrow> result_set \<Rightarrow> int res" where
  "rs_getInt c Invalid = Inl UB"
| "rs_getInt c (Prepared_Rows r) = pr_getInt_name c r"
| "rs_getInt c (Sql_Rows r) = sq_getInt_name c r"

fun rs_getLong :: "string \<Rightarrow> result_set \<Rightarrow> int res" where
  "rs_getLong c Invalid = Inl UB"
| "rs_getLong c (Prepared_Rows r) = pr_getLong_name c r"
| "rs_getLong c (Sql_Rows r) = sq_getLong_name c r"

fun rs_getString :: "string \<Rightarrow> result_set \<Rightarrow> string res" where
  "rs_getString c Invalid = Inl UB"
| "rs_getString c (Prepared_Rows r) = pr_getString_name c r"
| "rs_getString c (Sql_Rows r) = sq_getString_name c r"

fun rs_getTime :: "(tm \<Rightarrow> int) \<Rightarrow> string \<Rightarrow> result_set \<Rightarrow> timestamp res" where
  "rs_getTime mk c Invalid = Inl UB"
| "rs_getTime mk c (Prepared_Rows r) = pr_getTime_name mk c r"
| "rs_getTime mk c (Sql_Rows r) = sq_getTime_name mk c r"

text \<open>\<^verbatim>\<open>Statement::executeQuery\<close> and \<^verbatim>\<open>SqlConn::executeQuery\<close> as they build the wrapper.\<close>

definition executeQuery :: "server \<Rightarrow> statement \<Rightarrow> (result_set \<times> statement) res" where
  "executeQuery sv st = rmap (\<lambda>(cnt, st). (case cnt of
      None \<Rightarrow> Invalid | Some n \<Rightarrow> Prepared_Rows (PreparedResult_new st n), st)) (stmt_executeQuery sv st)"

section \<open>The loop over the rows\<close>

text \<open>\<^verbatim>\<open>while (rs.hasNext()) { rs.next(); ... }\<close>; \<open>None\<close> would be a loop that does not end.\<close>

partial_function (option) fetch_loop ::
    "('s \<Rightarrow> bool) \<Rightarrow> ('s \<Rightarrow> 's) \<Rightarrow> ('s \<Rightarrow> 'a \<Rightarrow> 'a res) \<Rightarrow> 's \<Rightarrow> 'a \<Rightarrow> ('s \<times> 'a) res option" where
  "fetch_loop has_more advance_row body s a =
     (if has_more s then
        (case body (advance_row s) a of
           Inl e \<Rightarrow> Some (Inl e)
         | Inr a' \<Rightarrow> fetch_loop has_more advance_row body (advance_row s) a')
      else Some (Inr (s, a)))"

text \<open>
  The contract of a result: as long as there are rows to come there is a next one, and
  stepping makes the first of them the current row.
\<close>

locale result_cursor =
  fixes has_more :: "'s \<Rightarrow> bool"
    and advance_row :: "'s \<Rightarrow> 's"
    and upcoming :: "'s \<Rightarrow> 'r list"
    and current :: "'s \<Rightarrow> 'r"
    and fits :: "'s \<Rightarrow> bool"
  assumes has_more_iff: "fits s \<Longrightarrow> has_more s \<longleftrightarrow> upcoming s \<noteq> []"
    and advance_row: "fits s \<Longrightarrow> upcoming s = r # rs \<Longrightarrow>
      upcoming (advance_row s) = rs \<and> current (advance_row s) = r \<and> fits (advance_row s)"
begin

text \<open>The loop ends after the last row and has run its body on every row in order.\<close>

lemma loop_all_rows:
  assumes "fits s" "\<And>s a. fits s \<Longrightarrow> I s0 s \<Longrightarrow> body s a = g (current s) a"
    and "I s0 s" "\<And>s. I s0 s \<Longrightarrow> I s0 (advance_row s)"
  shows "\<exists>s'. fetch_loop has_more advance_row body s a
     = Some (rmap (\<lambda>a'. (s', a')) (rfold g (upcoming s) a))"
  using assms(1,3)
proof (induction "upcoming s" arbitrary: s a)
  case Nil
  then show ?case using has_more_iff[of s] by (subst fetch_loop.simps) auto
next
  case (Cons r rs)
  note adv = advance_row[OF Cons.prems(1) Cons.hyps(2)[symmetric]]
  have body: "body (advance_row s) a = g r a"
    using adv assms(2,4) Cons.prems(2) by simp
  have unfold: "fetch_loop has_more advance_row body s a = (case g r a of Inl e \<Rightarrow> Some (Inl e)
      | Inr a' \<Rightarrow> fetch_loop has_more advance_row body (advance_row s) a')"
    using has_more_iff[OF Cons.prems(1)] Cons.hyps(2) body by (subst fetch_loop.simps) auto
  show ?case
  proof (cases "g r a")
    case (Inl e)
    then show ?thesis using unfold Cons.hyps(2)[symmetric] by simp
  next
    case (Inr a')
    have rs: "rs = upcoming (advance_row s)" using adv by simp
    obtain s' where s': "fetch_loop has_more advance_row body (advance_row s) a'
        = Some (rmap (\<lambda>a. (s', a)) (rfold g (upcoming (advance_row s)) a'))"
      using Cons.hyps(1)[OF rs, of a'] adv assms(4)[OF Cons.prems(2)] by blast
    have "fetch_loop has_more advance_row body s a = Some (rmap (\<lambda>a. (s', a)) (rfold g rs a'))"
      unfolding unfold Inr sum.case s' rs ..
    moreover have "rfold g (upcoming s) a = rfold g rs a'"
      unfolding Cons.hyps(2)[symmetric] by (simp add: Inr)
    ultimately show ?thesis by auto
  qed
qed

end

definition pr_fits :: "prepared_result \<Rightarrow> bool" where
  "pr_fits r \<longleftrightarrow> int (length (st_pending (pr_stmt r))) = pr_count r + 1 - pr_cur r"

definition pr_current :: "prepared_result \<Rightarrow> my_bind list" where
  "pr_current r = st_resBind (pr_stmt r)"

interpretation prepared_rows: result_cursor pr_hasNext pr_next "st_pending \<circ> pr_stmt" pr_current pr_fits
proof
  fix r :: prepared_result
  assume "pr_fits r"
  then show "pr_hasNext r \<longleftrightarrow> (st_pending \<circ> pr_stmt) r \<noteq> []"
    by (cases "st_pending (pr_stmt r)") (auto simp: pr_hasNext_def pr_fits_def)
qed (auto simp: pr_next_def pr_fits_def pr_current_def stmt_fetch_def)

definition sq_fits :: "sql_result \<Rightarrow> bool" where
  "sq_fits r \<longleftrightarrow> unat (sq_cur r) + length (sq_pending r) = unat (sq_numRows r) + 1
     \<and> unat (sq_numRows r) < 2 ^ 63"

definition sq_current :: "sql_result \<Rightarrow> text_row" where
  "sq_current r = (case sq_row r of Some row \<Rightarrow> row | None \<Rightarrow> [])"

lemma sq_step: "sq_fits r \<Longrightarrow> sq_pending r \<noteq> [] \<Longrightarrow> unat (sq_cur r + 1) = unat (sq_cur r) + 1"
  unfolding sq_fits_def by (cases "sq_pending r") (auto simp: unat_word_ariths)

interpretation sql_rows: result_cursor sq_hasNext sq_next sq_pending sq_current sq_fits
proof
  fix r :: sql_result
  assume "sq_fits r"
  then show "sq_hasNext r \<longleftrightarrow> sq_pending r \<noteq> []"
    by (cases "sq_pending r") (auto simp: sq_hasNext_def sq_fits_def word_le_nat_alt)
next
  fix r :: sql_result and row rows
  assume "sq_fits r" "sq_pending r = row # rows"
  then show "sq_pending (sq_next r) = rows \<and> sq_current (sq_next r) = row \<and> sq_fits (sq_next r)"
    using sq_step[of r] by (auto simp: sq_next_def sq_current_def sq_fits_def)
qed

end
