(* ===== verification/Query.thy ===== *)
theory Query
  imports Reflection Results
begin

text \<open>
  \<^verbatim>\<open>tinyorm/model.h\<close>, the query side of \<^verbatim>\<open>Model<T>\<close>: the builder (\<^verbatim>\<open>Select\<close>,
  \<^verbatim>\<open>Where\<close>, \<^verbatim>\<open>Or\<close>, \<^verbatim>\<open>Page\<close>, \<^verbatim>\<open>Raw\<close>), the operations that end a query, the SQL text
  they send and the parameters they bind, and the reading of rows into objects. The
  database is an argument: what it answers to preparing a text and to running a statement.
\<close>

section \<open>Values and constraints\<close>

text \<open>
  A value allocated by \<^verbatim>\<open>bindVal\<close>. A \<^verbatim>\<open>float\<close> or \<^verbatim>\<open>double\<close> is its bits; an \<^verbatim>\<open>int\<close>
  and a \<^verbatim>\<open>long long\<close> are within their ranges.
\<close>

datatype bind_value =
    BInt int | BFloat "32 word" | BDouble "64 word" | BLongLong int
  | BString string | BConstStr string | BTime timestamp

record constraint =
  condition :: string
  conj_word :: string
  bindValues :: "(string \<times> bind_value) list"

definition Constraint_of :: "string \<Rightarrow> string \<Rightarrow> constraint" where
  "Constraint_of cond c = \<lparr>condition = cond, conj_word = c, bindValues = []\<rparr>"

definition Constraint_default :: constraint where
  "Constraint_default = \<lparr>condition = [], conj_word = [], bindValues = []\<rparr>"

fun orm_type :: "bind_value \<Rightarrow> string" where
  "orm_type (BInt v) = ''int''"
| "orm_type (BFloat v) = ''float''"
| "orm_type (BDouble v) = ''double''"
| "orm_type (BLongLong v) = ''long long''"
| "orm_type (BString v) = ''string''"
| "orm_type (BConstStr v) = ''const char*''"
| "orm_type (BTime v) = ''Timestamp''"

fun bindVal :: "constraint \<Rightarrow> bind_value \<Rightarrow> constraint" where
  "bindVal c (BConstStr v) = c\<lparr>bindValues := bindValues c @ [(''const char*'', BConstStr (c_string v))]\<rparr>"
| "bindVal c v = c\<lparr>bindValues := bindValues c @ [(orm_type v, v)]\<rparr>"

text \<open>\<^verbatim>\<open>operator<<\<close> on an argument; \<open>show_fp\<close> prints a floating point number.\<close>

fun stream :: "(bind_value \<Rightarrow> string) \<Rightarrow> bind_value \<Rightarrow> string" where
  "stream show_fp (BInt v) = int_str v"
| "stream show_fp (BLongLong v) = int_str v"
| "stream show_fp (BString v) = v"
| "stream show_fp (BConstStr v) = c_string v"
| "stream show_fp v = show_fp v"

text \<open>
  \<^verbatim>\<open>updateColumn<N>\<close> over the tuple: the first half of the elements (one more when their
  number is odd) are column names, the others are bound.
\<close>

function updateColumn :: "(bind_value \<Rightarrow> string) \<Rightarrow> nat \<Rightarrow> bind_value list
    \<Rightarrow> string \<times> constraint \<Rightarrow> string \<times> constraint" where
  "updateColumn show_fp n t (ss, c) =
     (if n \<ge> length t then (ss, c)
      else if 2 * n \<ge> length t then updateColumn show_fp (n + 1) t (ss, bindVal c (t ! n))
      else if n > 0 then
        updateColumn show_fp (n + 1) t (ss @ '', '' @ stream show_fp (t ! n) @ '' = ?'', c)
      else updateColumn show_fp (n + 1) t (ss @ stream show_fp (t ! n) @ '' = ?'', c))"
  by pat_completeness auto
termination
  by (relation "measure (\<lambda>(s, n, t, r). length t - n)") auto

declare updateColumn.simps [simp del]

text \<open>\<^verbatim>\<open>find_last_of("::")\<close> looks for the last colon.\<close>

definition getCppTypeName :: "string \<Rightarrow> string" where
  "getCppTypeName typeName =
     (case find_last_of typeName ''::'' of None \<Rightarrow> typeName | Some w \<Rightarrow> drop (w + 1) typeName)"

section \<open>The model\<close>

datatype status = INIT | QUERY | UPDATE

text \<open>
  An object is its memory at the offsets of its members. \<open>m_conn_open\<close>: the connection
  has a handle; it is on loan from the pool, so that closing it takes the handle away. \<open>m_lost\<close> are allocated values that nothing points to any more.
\<close>

datatype field_value = FInt int | FString string | FTime timestamp

type_synonym object = "(int \<times> field_value) list"

record model =
  m_typeid :: string
  m_metadata :: "field_meta list"
  m_indices :: "index_info umap"
  m_columnToIndex :: "int umap"
  m_tableName :: "string option"
  m_selectedColumns :: "string list"
  m_constraints :: "constraint list"
  m_conn_open :: bool
  m_rawSql :: string
  m_status :: status
  m_lost :: "(string \<times> bind_value) list"

text \<open>
  The constructor; \<open>conn\<close> tells whether the connection it is given has a handle. It calls
  \<^verbatim>\<open>setAutocommit\<close> on it at once, which is undefined on a null handle.
\<close>

definition Model_new :: "string \<Rightarrow> base \<Rightarrow> bool \<Rightarrow> model res" where
  "Model_new typeid b conn =
     (let (flds, table) = extract_metadata b
      in if \<not> conn then Inl UB else Inr \<lparr>m_typeid = typeid, m_metadata = map name_index flds,
          m_indices = collect_indices (base_indices b) flds,
          m_columnToIndex = number_names (map getColumnName flds), m_tableName = table,
          m_selectedColumns = [], m_constraints = [], m_conn_open = conn, m_rawSql = [],
          m_status = INIT, m_lost = []\<rparr>)"

text \<open>
  \<^verbatim>\<open>getClassName\<close>: what follows the last blank of the \<^verbatim>\<open>typeid\<close> name, without leading
  digits; \<^verbatim>\<open>at\<close> throws when there is nothing else.
\<close>

definition getClassName :: "string \<Rightarrow> string res" where
  "getClassName fullName =
     (let fullName = (case find_last_of fullName '' '' of None \<Rightarrow> fullName | Some i \<Rightarrow> drop (i + 1) fullName);
          rest = dropWhile isdigit fullName
      in if rest = [] then Inl Out_Of_Range else Inr rest)"

definition getDefaultTableName :: "model \<Rightarrow> string res" where
  "getDefaultTableName m = rmap cppToDb (getClassName (m_typeid m))"

definition getTableName :: "model \<Rightarrow> string res" where
  "getTableName m = rmap (\<lambda>dflt. case m_tableName m of Some t \<Rightarrow> t | None \<Rightarrow> dflt) (getDefaultTableName m)"

text \<open>The database: its answer to a text, and to running a statement with its parameters.\<close>

record dbms =
  db_prepare :: "string \<Rightarrow> prepared"
  db_run :: "string \<Rightarrow> my_bind list \<Rightarrow> server"

definition prepareStatement :: "dbms \<Rightarrow> string \<Rightarrow> model \<Rightarrow> statement res" where
  "prepareStatement db sql m = (if m_conn_open m then Inr (Statement_new (db_prepare db sql)) else Inl UB)"

definition run_update :: "dbms \<Rightarrow> string \<Rightarrow> statement \<Rightarrow> (64 word \<times> statement) res" where
  "run_update db sql st = stmt_executeUpdate (db_run db sql (st_paramBind st)) st"

text \<open>\<^verbatim>\<open>int rowAffect = stmt.executeUpdate()\<close>: the count is cut down to 32 bits.\<close>

definition row_affect :: "64 word \<Rightarrow> int" where
  "row_affect n = sint (ucast n :: 32 word)"

definition run_query :: "dbms \<Rightarrow> string \<Rightarrow> statement \<Rightarrow> (result_set \<times> statement) res" where
  "run_query db sql st = executeQuery (db_run db sql (st_paramBind st)) st"

section \<open>The builder\<close>

definition Select :: "string list \<Rightarrow> model \<Rightarrow> model" where
  "Select cols m = m\<lparr>m_selectedColumns := m_selectedColumns m @ cols\<rparr>"

definition Where :: "string \<Rightarrow> bind_value list \<Rightarrow> model \<Rightarrow> model" where
  "Where cond args m =
     m\<lparr>m_constraints := m_constraints m @ [foldl bindVal (Constraint_of cond ''AND'') args]\<rparr>"

definition Or :: "string \<Rightarrow> bind_value list \<Rightarrow> model \<Rightarrow> model" where
  "Or cond args m =
     m\<lparr>m_constraints := m_constraints m @ [foldl bindVal (Constraint_of cond ''OR'') args]\<rparr>"

text \<open>\<^verbatim>\<open>Raw\<close> drops the constraints so far without freeing what they point to.\<close>

definition Raw :: "string \<Rightarrow> bind_value list \<Rightarrow> model \<Rightarrow> model" where
  "Raw sql args m =
     (let sql = strip (toLowerCase sql);
          st = (if take 6 sql = ''select'' then QUERY else UPDATE)
      in m\<lparr>m_status := st, m_rawSql := sql,
           m_lost := m_lost m @ concat (map bindValues (m_constraints m)),
           m_constraints := [foldl bindVal Constraint_default args]\<rparr>)"

definition Page :: "int \<Rightarrow> int \<Rightarrow> model \<Rightarrow> model res" where
  "Page pageNum pageSize m =
     (if pageSize \<le> 0 \<or> pageNum \<le> 0 then Inr m
      else rmap (\<lambda>off. m\<lparr>m_constraints := m_constraints m
             @ [Constraint_of ('' LIMIT '' @ int_str pageSize @ '' OFFSET '' @ int_str off) ''LIMIT'']\<rparr>)
           (i32 ((pageNum - 1) * pageSize)))"

text \<open>\<^verbatim>\<open>reset\<close> frees the bound values, except for the type it has no branch for.\<close>

definition freed_type :: "string \<Rightarrow> bool" where
  "freed_type t \<longleftrightarrow> t = ''int'' \<or> t = ''float'' \<or> t = ''double'' \<or> getCppTypeName t = ''string''
     \<or> getCppTypeName t = ''Timestamp'' \<or> t = ''const char*''"

definition reset :: "model \<Rightarrow> model" where
  "reset m = m\<lparr>m_lost := m_lost m @ filter (\<lambda>b. \<not> freed_type (fst b))
                 (concat (map bindValues (m_constraints m))),
               m_constraints := [], m_selectedColumns := []\<rparr>"

section \<open>Binding\<close>

text \<open>One value: the next index and the statement. A type without a branch keeps the index.\<close>

definition bind_param :: "(int \<Rightarrow> tm) \<Rightarrow> string \<times> bind_value \<Rightarrow> int \<times> statement \<Rightarrow> (int \<times> statement) res" where
  "bind_param lt b st =
     (let (ty, v) = b; (i, s) = st
      in if ty = ''int'' then (case v of BInt x \<Rightarrow> Inr (i + 1, setInt i x s) | _ \<Rightarrow> Inl UB)
         else if ty = ''float'' then (case v of BFloat x \<Rightarrow> Inr (i + 1, setFloat i x s) | _ \<Rightarrow> Inl UB)
         else if getCppTypeName ty = ''string'' then
           (case v of BString x \<Rightarrow> Inr (i + 1, setString i x s) | _ \<Rightarrow> Inl UB)
         else if ty = ''const char*'' then
           (case v of BConstStr x \<Rightarrow> Inr (i + 1, setString i x s) | _ \<Rightarrow> Inl UB)
         else if getCppTypeName ty = ''Timestamp'' then
           (case v of BTime x \<Rightarrow> rmap (Pair (i + 1)) (setTime lt i x MYSQL_TYPE_TIMESTAMP s) | _ \<Rightarrow> Inl UB)
         else Inr (i, s))"

definition bindParams :: "(int \<Rightarrow> tm) \<Rightarrow> constraint list \<Rightarrow> statement \<Rightarrow> statement res" where
  "bindParams lt cs st =
     rmap snd (rfold (\<lambda>c. rfold (bind_param lt) (bindValues c)) cs (1, st))"

section \<open>Queries\<close>

definition select_list :: "string list \<Rightarrow> string" where
  "select_list cols = (if cols = [] then ''*'' else [])
     @ concat (map (\<lambda>(i, c). c @ (if i < length cols - 1 then '', '' else [])) (zip [0..<length cols] cols))"

definition query_constraint :: "nat \<times> constraint \<Rightarrow> string" where
  "query_constraint ic =
     (let (i, c) = ic; isLimit = (conj_word c = ''LIMIT'')
      in (if i > 0 \<and> \<not> isLimit then '' '' @ conj_word c @ '' '' else [])
         @ (if \<not> isLimit then ''('' else []) @ condition c @ (if \<not> isLimit then '')'' else []))"

definition query_sql :: "string \<Rightarrow> string list \<Rightarrow> constraint list \<Rightarrow> int \<Rightarrow> string" where
  "query_sql table cols cs limit =
     ''SELECT '' @ select_list cols @ '' FROM '' @ table
     @ (if cs = [] then [] else '' WHERE '' @ concat (map query_constraint (zip [0..<length cs] cs)))
     @ (if limit > 0 then '' LIMIT '' @ int_str limit else [])"

definition prepareQuery :: "dbms \<Rightarrow> (int \<Rightarrow> tm) \<Rightarrow> int \<Rightarrow> model \<Rightarrow> (string \<times> statement) res" where
  "prepareQuery db lt limit m =
     rbind (getTableName m) (\<lambda>table.
       let sql = query_sql table (m_selectedColumns m) (m_constraints m) limit
       in rbind (prepareStatement db sql m) (\<lambda>st.
          rmap (Pair sql) (bindParams lt (m_constraints m) st)))"

text \<open>\<^verbatim>\<open>setfield\<close> and \<^verbatim>\<open>getfield\<close> at the offset of a column.\<close>

fun put_member :: "int \<Rightarrow> field_value \<Rightarrow> object \<Rightarrow> object" where
  "put_member off v [] = [(off, v)]"
| "put_member off v ((o', w) # rest) = (if o' = off then (off, v) # rest else (o', w) # put_member off v rest)"

definition get_member :: "field_meta \<Rightarrow> object \<Rightarrow> field_value res" where
  "get_member f t = (case fieldOffset f of None \<Rightarrow> Inl UB
     | Some off \<Rightarrow> (case map_of t off of Some v \<Rightarrow> Inr v | None \<Rightarrow> Inl UB))"

definition set_member :: "field_meta \<Rightarrow> field_value \<Rightarrow> object \<Rightarrow> object res" where
  "set_member f v t = (case fieldOffset f of None \<Rightarrow> Inl UB | Some off \<Rightarrow> Inr (put_member off v t))"

definition fill_column :: "(tm \<Rightarrow> int) \<Rightarrow> model \<Rightarrow> result_set \<Rightarrow> string \<Rightarrow> object \<Rightarrow> object res" where
  "fill_column mk m rs col t =
     (case uget (m_columnToIndex m) col of
        None \<Rightarrow> Inr t
      | Some index \<Rightarrow>
          if nat index \<ge> length (m_metadata m) then Inl UB
          else let f = m_metadata m ! nat index; type = cppType f
            in if type = ''int'' then rbind (rs_getInt col rs) (\<lambda>x. set_member f (FInt x) t)
               else if getCppTypeName type = ''string'' then
                 rbind (rs_getString col rs) (\<lambda>x. set_member f (FString x) t)
               else if getCppTypeName type = ''Timestamp'' then
                 rbind (rs_getTime mk col rs) (\<lambda>x. set_member f (FTime x) t)
               else Inr t)"

definition fillObject :: "(tm \<Rightarrow> int) \<Rightarrow> model \<Rightarrow> result_set \<Rightarrow> string list \<Rightarrow> object \<Rightarrow> object res" where
  "fillObject mk m rs cols t = rfold (fill_column mk m rs) cols t"

text \<open>\<^verbatim>\<open>First\<close>: its result, the object and the model, which is not reset when no row came.\<close>

definition First :: "dbms \<Rightarrow> (int \<Rightarrow> tm) \<Rightarrow> (tm \<Rightarrow> int) \<Rightarrow> object \<Rightarrow> model \<Rightarrow> (int \<times> object \<times> model) res" where
  "First db lt mk t m =
     rbind (prepareQuery db lt 1 m) (\<lambda>(sql, st).
     rbind (run_query db sql st) (\<lambda>(rs, st').
       if \<not> rs_isValid rs then Inr (0, t, m)
       else rbind (rs_hasNext rs) (\<lambda>has_row. if \<not> has_row then Inr (0, t, m)
       else rbind (rs_next rs) (\<lambda>rs.
            rbind (fillObject mk m rs (fieldNames st) t) (\<lambda>t. Inr (1, t, reset m))))))"

text \<open>The loop of \<^verbatim>\<open>All\<close> and \<^verbatim>\<open>Fetch\<close>; \<open>blank\<close> is a default-constructed object.\<close>

definition collect_rows :: "(tm \<Rightarrow> int) \<Rightarrow> model \<Rightarrow> string list \<Rightarrow> object \<Rightarrow> prepared_result
    \<Rightarrow> object list res option" where
  "collect_rows mk m cols blank r =
     map_option (rmap snd) (fetch_loop pr_hasNext pr_next
       (\<lambda>r res. rmap (\<lambda>t. res @ [t]) (fillObject mk m (Prepared_Rows r) cols blank)) r [])"

fun rows_of :: "(tm \<Rightarrow> int) \<Rightarrow> model \<Rightarrow> string list \<Rightarrow> object \<Rightarrow> result_set
    \<Rightarrow> (object list \<times> model) res option" where
  "rows_of mk m cols blank (Prepared_Rows r) =
     map_option (rmap (\<lambda>ts. (ts, reset m))) (collect_rows mk m cols blank r)"
| "rows_of mk m cols blank rs = Some (Inr ([], m))"

definition All :: "dbms \<Rightarrow> (int \<Rightarrow> tm) \<Rightarrow> (tm \<Rightarrow> int) \<Rightarrow> object \<Rightarrow> model \<Rightarrow> (object list \<times> model) res option" where
  "All db lt mk blank m =
     (case rbind (prepareQuery db lt (- 1) m) (\<lambda>(sql, st). rmap (Pair (fieldNames st)) (run_query db sql st)) of
        Inl e \<Rightarrow> Some (Inl e)
      | Inr (cols, rs, st) \<Rightarrow> rows_of mk m cols blank rs)"

section \<open>Raw statements\<close>

definition Exec :: "dbms \<Rightarrow> (int \<Rightarrow> tm) \<Rightarrow> model \<Rightarrow> (int \<times> model) res" where
  "Exec db lt m =
     (if m_status m = INIT then Inr (0, m)
      else if m_status m \<noteq> UPDATE then Inr (0, m)
      else rbind (prepareStatement db (m_rawSql m) m) (\<lambda>st.
           rbind (bindParams lt (m_constraints m) st) (\<lambda>st.
           rmap (\<lambda>(n, st). (row_affect n, m\<lparr>m_conn_open := False\<rparr>)) (run_update db (m_rawSql m) st))))"

definition Fetch :: "dbms \<Rightarrow> (int \<Rightarrow> tm) \<Rightarrow> (tm \<Rightarrow> int) \<Rightarrow> object \<Rightarrow> model \<Rightarrow> (object list \<times> model) res option" where
  "Fetch db lt mk blank m =
     (if m_status m = INIT then Some (Inr ([], m))
      else if m_status m \<noteq> QUERY then Some (Inr ([], m))
      else (case rbind (prepareStatement db (m_rawSql m) m) (\<lambda>st.
                   rbind (bindParams lt (m_constraints m) st) (\<lambda>st.
                   rmap (Pair (fieldNames st)) (run_query db (m_rawSql m) st))) of
              Inl e \<Rightarrow> Some (Inl e)
            | Inr (cols, rs, st) \<Rightarrow> rows_of mk m cols blank rs))"

section \<open>Update and Delete\<close>

definition change_constraint :: "nat \<times> constraint \<Rightarrow> string" where
  "change_constraint ic = (let (i, c) = ic
     in (if i > 1 then '' '' @ conj_word c @ '' '' else []) @ condition c)"

definition Update :: "dbms \<Rightarrow> (int \<Rightarrow> tm) \<Rightarrow> (bind_value \<Rightarrow> string) \<Rightarrow> bind_value list \<Rightarrow> model
    \<Rightarrow> (int \<times> model) res" where
  "Update db lt show_fp args m =
     rbind (getTableName m) (\<lambda>table.
       let (sql, binds) = updateColumn show_fp 0 args (''UPDATE '' @ table @ '' SET '', Constraint_default);
           cs = binds # m_constraints m;
           sql = (if length cs > 1
                  then sql @ '' WHERE '' @ concat (map change_constraint (tl (zip [0..<length cs] cs)))
                  else sql)
       in rbind (prepareStatement db sql m) (\<lambda>st.
          rbind (bindParams lt cs st) (\<lambda>st.
          rmap (\<lambda>(n, st). (row_affect n, reset (m\<lparr>m_constraints := cs\<rparr>))) (run_update db sql st))))"

definition delete_sql :: "string \<Rightarrow> constraint list \<Rightarrow> string" where
  "delete_sql table cs = ''DELETE FROM '' @ table
     @ (if length cs > 0 then '' WHERE '' @ concat (map change_constraint (zip [0..<length cs] cs)) else [])"

definition Delete :: "dbms \<Rightarrow> (int \<Rightarrow> tm) \<Rightarrow> model \<Rightarrow> (int \<times> model) res" where
  "Delete db lt m =
     rbind (getTableName m) (\<lambda>table.
       let sql = delete_sql table (m_constraints m)
       in rbind (prepareStatement db sql m) (\<lambda>st.
          rbind (bindParams lt (m_constraints m) st) (\<lambda>st.
          rmap (\<lambda>(n, st). (row_affect n, reset m)) (run_update db sql st))))"

text \<open>The overload \<^verbatim>\<open>Update(const T&)\<close> does nothing.\<close>

definition Update_object :: "object \<Rightarrow> model \<Rightarrow> int \<times> model" where
  "Update_object t m = (0, m)"

section \<open>Create\<close>

definition insert_columns :: "field_meta list \<Rightarrow> string \<times> nat" where
  "insert_columns flds =
     (\<lambda>(s, isFirst, cnt). (s, cnt)) (fold (\<lambda>f (s, isFirst, cnt).
        if ignored f then (s, isFirst, cnt)
        else (s @ (if \<not> isFirst then '', '' else []) @ getColumnName f, False, cnt + 1))
       flds ([], True, 0))"

definition placeholders :: "nat \<Rightarrow> string" where
  "placeholders cnt = concat (map (\<lambda>i. ''?'' @ (if i + 1 < cnt then '', '' else [])) [0..<cnt])"

definition bind_member :: "(int \<Rightarrow> tm) \<Rightarrow> object \<Rightarrow> field_meta \<Rightarrow> int \<times> statement \<Rightarrow> (int \<times> statement) res" where
  "bind_member lt t f st =
     (let (cnt, s) = st
      in if ignored f then Inr (cnt, s)
         else rmap (Pair (cnt + 1))
           (if cppType f = ''int'' then
              rbind (get_member f t) (\<lambda>v. case v of FInt x \<Rightarrow> Inr (setInt cnt x s) | _ \<Rightarrow> Inl UB)
            else if getCppTypeName (cppType f) = ''string'' then
              rbind (get_member f t) (\<lambda>v. case v of FString x \<Rightarrow> Inr (setString cnt x s) | _ \<Rightarrow> Inl UB)
            else if getCppTypeName (cppType f) = ''Timestamp'' then
              rbind (get_member f t) (\<lambda>v. case v of
                FTime x \<Rightarrow> setTime lt cnt x MYSQL_TYPE_TIMESTAMP s | _ \<Rightarrow> Inl UB)
            else Inr s))"

definition Create :: "dbms \<Rightarrow> (int \<Rightarrow> tm) \<Rightarrow> object \<Rightarrow> model \<Rightarrow> model res" where
  "Create db lt t m =
     rbind (getTableName m) (\<lambda>table.
       let (cols, cnt) = insert_columns (m_metadata m);
           sql = ''INSERT INTO '' @ table @ ''('' @ cols @ '') VALUES('' @ placeholders cnt @ '')''
       in rbind (prepareStatement db sql m) (\<lambda>st.
          rbind (rfold (bind_member lt t) (m_metadata m) (1, st)) (\<lambda>(n, st).
          rmap (\<lambda>r. reset m) (run_update db sql st))))"

definition Create_all :: "dbms \<Rightarrow> (int \<Rightarrow> tm) \<Rightarrow> object list \<Rightarrow> model \<Rightarrow> model res" where
  "Create_all db lt ts m =
     rbind (getTableName m) (\<lambda>table.
       let (cols, cnt) = insert_columns (m_metadata m);
           sql = ''INSERT INTO '' @ table @ ''('' @ cols @ '') VALUES''
             @ concat (map (\<lambda>j. (if j > 0 then '', '' else []) @ ''('' @ placeholders cnt @ '')'') [0..<length ts])
       in rbind (prepareStatement db sql m) (\<lambda>st.
          rbind (rfold (\<lambda>t. rfold (bind_member lt t) (m_metadata m)) ts (1, st)) (\<lambda>(n, st).
          rmap (\<lambda>r. reset m) (run_update db sql st))))"

end
