(* ===== verification/Calendar.thy ===== *)
theory Calendar
  imports Timestamp
begin

text \<open>
  The civil (proleptic Gregorian) calendar in UTC as an instance of the clock contract:
  \<open>mktime_utc\<close> sums up the days of the years and months before, and \<open>localtime_utc\<close>
  searches the year and the month of a day. On it the properties of \<open>Timestamp\<close> are
  statements about concrete dates.
\<close>

section \<open>Years\<close>

definition is_leap :: "int \<Rightarrow> bool" where
  "is_leap y \<longleftrightarrow> (4 dvd y \<and> \<not> 100 dvd y) \<or> 400 dvd y"

definition year_len :: "int \<Rightarrow> int" where
  "year_len y = (if is_leap y then 366 else 365)"

text \<open>The days from the epoch to the first of January of a year.\<close>

definition leaps :: "int \<Rightarrow> int" where
  "leaps y = (y - 1) div 4 - (y - 1) div 100 + (y - 1) div 400"

definition year_start :: "int \<Rightarrow> int" where
  "year_start y = 365 * (y - 1970) + leaps y - leaps 1970"

lemma div_step: "0 < n \<Longrightarrow> y div n = (y - 1) div n + of_bool (n dvd y)" for n :: int
proof -
  assume n: "0 < n"
  have "y = (y - 1) + 1" by simp
  show "y div n = (y - 1) div n + of_bool (n dvd y)"
  proof (cases "n dvd y")
    case True
    then obtain k where "y = n * k" ..
    moreover have "(n * k - 1) div n = k - 1"
      using n div_pos_pos_trivial[of "n - 1" n] div_mult_self2[of n "n - 1" "k - 1"]
      by (simp add: algebra_simps)
    ultimately show ?thesis using n by simp
  next
    case False
    then have "y mod n \<noteq> 0" by (simp add: dvd_eq_mod_eq_0)
    then have "1 \<le> y mod n" "y mod n < n" using n pos_mod_sign[of n y] pos_mod_bound[of n y] by linarith+
    then have "(y - 1) div n = y div n"
      by (intro int_div_pos_eq[of _ _ _ "y mod n - 1"]) (use minus_mod_eq_mult_div[of y n] in linarith)+
    with False show ?thesis by simp
  qed
qed

lemma year_start_step: "year_start (y + 1) = year_start y + year_len y"
  using div_step[of 4 y] div_step[of 100 y] div_step[of 400 y] dvd_trans[of 100 400 y] dvd_trans[of 4 100 y]
  by (auto simp: year_start_def leaps_def year_len_def is_leap_def)

lemma year_len_pos: "0 < year_len y"
  by (simp add: year_len_def)

lemma year_start_mono: "a < b \<Longrightarrow> year_start a < year_start b"
proof (induction "nat (b - a)" arbitrary: b)
  case (Suc n)
  have "year_start (b - 1) < year_start b" using year_start_step[of "b - 1"] year_len_pos[of "b - 1"] by simp
  moreover have "a = b - 1 \<or> year_start a < year_start (b - 1)"
    using Suc.hyps(1)[of "b - 1"] Suc.hyps(2) Suc.prems by linarith
  ultimately show ?case by auto
qed simp

lemma year_start_le: "a \<le> b \<Longrightarrow> year_start a \<le> year_start b"
  using year_start_mono[of a b] by (cases "a = b") auto

function year_from :: "int \<Rightarrow> int \<Rightarrow> int" where
  "year_from d y = (if d < year_start (y + 1) then y else year_from d (y + 1))"
  by pat_completeness auto
termination
proof (relation "measure (\<lambda>(d, y). nat (d + 1 - year_start y))")
  fix d y :: int
  assume "\<not> d < year_start (y + 1)"
  then show "((d, y + 1), d, y) \<in> measure (\<lambda>(d, y). nat (d + 1 - year_start y))"
    using year_start_mono[of y "y + 1"] by simp
qed simp

declare year_from.simps [simp del]

lemma year_from_bounds:
  "year_start y \<le> d \<Longrightarrow> year_start (year_from d y) \<le> d \<and> d < year_start (year_from d y + 1)"
proof (induction d y rule: year_from.induct)
  case (1 d y)
  then show ?case by (subst (1 2) year_from.simps) auto
qed

lemma year_unique:
  assumes "year_start a \<le> d" "d < year_start (a + 1)" "year_start b \<le> d" "d < year_start (b + 1)"
  shows "a = b"
proof (rule ccontr)
  assume "a \<noteq> b"
  then have "a + 1 \<le> b \<or> b + 1 \<le> a" by linarith
  then show False using assms year_start_le[of "a + 1" b] year_start_le[of "b + 1" a] by linarith
qed

definition first_year :: "int \<Rightarrow> int" where
  "first_year d = (if 0 \<le> d then 1970 + d div 366 else 1970 + d div 365)"

lemma year_start_span:
  "365 * int n \<le> year_start (y + int n) - year_start y"
  "year_start (y + int n) - year_start y \<le> 366 * int n"
proof (induction n)
  case (Suc n)
  have "year_start (y + int (Suc n)) = year_start (y + int n) + year_len (y + int n)"
    using year_start_step[of "y + int n"] by (simp add: algebra_simps)
  moreover have "365 \<le> year_len (y + int n)" "year_len (y + int n) \<le> 366" by (simp_all add: year_len_def)
  ultimately show "365 * int (Suc n) \<le> year_start (y + int (Suc n)) - year_start y"
    "year_start (y + int (Suc n)) - year_start y \<le> 366 * int (Suc n)"
    using Suc by simp_all
qed simp_all

lemma year_start_epoch [simp]: "year_start 1970 = 0"
  by (simp add: year_start_def)

lemma first_year: "year_start (first_year d) \<le> d"
proof (cases "0 \<le> d")
  case True
  have "366 * (d div 366) \<le> d" using minus_mod_eq_mult_div[of d 366] pos_mod_sign[of 366 d] by linarith
  moreover have "0 \<le> d div 366" using True by (simp add: pos_imp_zdiv_nonneg_iff)
  ultimately show ?thesis
    using year_start_span(2)[where y = 1970 and n = "nat (d div 366)"] True by (simp add: first_year_def)
next
  case False
  have "365 * (d div 365) \<le> d" using minus_mod_eq_mult_div[of d 365] pos_mod_sign[of 365 d] by linarith
  moreover have "d div 365 < 0" using False by (simp add: pos_imp_zdiv_neg_iff)
  ultimately show ?thesis
    using year_start_span(1)[where y = "1970 + d div 365" and n = "nat (- (d div 365))"] False
    by (simp add: first_year_def)
qed


section \<open>Months\<close>

definition month_lens :: "bool \<Rightarrow> int list" where
  "month_lens leap = [31, if leap then 29 else 28, 31, 30, 31, 30, 31, 31, 30, 31, 30, 31]"

fun split_month :: "int \<Rightarrow> int \<Rightarrow> int list \<Rightarrow> int \<times> int" where
  "split_month m k [] = (m, k)"
| "split_month m k (x # xs) = (if k < x then (m, k) else split_month (m + 1) (k - x) xs)"

definition month_start :: "bool \<Rightarrow> nat \<Rightarrow> int" where
  "month_start leap m = sum_list (take m (month_lens leap))"

lemma split_month_at:
  assumes "n < length xs" "0 \<le> k" "k < xs ! n" "\<forall>x \<in> set xs. 0 \<le> x"
  shows "split_month m (sum_list (take n xs) + k) xs = (m + int n, k)"
  using assms
proof (induction n arbitrary: m xs)
  case 0
  then show ?case by (cases xs) auto
next
  case (Suc n)
  then obtain x ys where xs: "xs = x # ys" by (cases xs) auto
  have "0 \<le> sum_list (take n ys)" using Suc.prems xs by (intro sum_list_nonneg) (auto dest: in_set_takeD)
  with Suc.IH[of ys "m + 1"] Suc.prems xs show ?case by simp
qed

lemma split_month_back:
  assumes "0 \<le> k" "k < sum_list xs"
  shows "\<exists>n < length xs. \<exists>j. split_month m k xs = (m + int n, j) \<and> 0 \<le> j \<and> j < xs ! n
     \<and> k = sum_list (take n xs) + j"
  using assms
proof (induction xs arbitrary: m k)
  case (Cons x xs)
  show ?case
  proof (cases "k < x")
    case True
    with Cons.prems show ?thesis by (intro exI[of _ 0]) auto
  next
    case False
    then obtain n j where "n < length xs" "split_month (m + 1) (k - x) xs = (m + 1 + int n, j)"
        "0 \<le> j" "j < xs ! n" "k - x = sum_list (take n xs) + j"
      using Cons.IH[of "k - x" "m + 1"] Cons.prems by auto
    with False show ?thesis by (intro exI[of _ "Suc n"]) auto
  qed
qed simp

section \<open>The clock\<close>

definition mktime_utc :: "tm \<Rightarrow> int" where
  "mktime_utc t =
     (let y = tm_year t + 1900 + tm_mon t div 12;
          m = nat (tm_mon t mod 12)
      in (year_start y + month_start (is_leap y) m + tm_mday t - 1) * 86400
         + tm_hour t * 3600 + tm_min t * 60 + tm_sec t)"

definition localtime_utc :: "int \<Rightarrow> tm" where
  "localtime_utc x =
     (let d = x div 86400; s = x mod 86400;
          y = year_from d (first_year d);
          (m, k) = split_month 0 (d - year_start y) (month_lens (is_leap y))
      in \<lparr>tm_year = y - 1900, tm_mon = m, tm_mday = k + 1, tm_hour = s div 3600,
          tm_min = s mod 3600 div 60, tm_sec = s mod 60\<rparr>)"

definition plain_utc :: "tm \<Rightarrow> bool" where
  "plain_utc t \<longleftrightarrow> tm_fields_ok t
     \<and> tm_mday t \<le> month_lens (is_leap (tm_year t + 1900)) ! nat (tm_mon t)"

lemma month_lens_facts: "length (month_lens leap) = 12" "\<forall>x \<in> set (month_lens leap). 0 \<le> x \<and> x \<le> 31"
  by (simp_all add: month_lens_def)

lemma sum_month_lens: "sum_list (month_lens (is_leap y)) = year_len y"
  by (simp add: month_lens_def year_len_def)

lemma localtime_utc_cases:
  obtains y n j where "localtime_utc x = \<lparr>tm_year = y - 1900, tm_mon = int n, tm_mday = j + 1,
      tm_hour = x mod 86400 div 3600, tm_min = x mod 86400 mod 3600 div 60, tm_sec = x mod 86400 mod 60\<rparr>"
    "n < 12" "0 \<le> j" "j < month_lens (is_leap y) ! n"
    "x div 86400 = year_start y + month_start (is_leap y) n + j"
proof -
  define d where "d = x div 86400"
  define y where "y = year_from d (first_year d)"
  have y: "year_start y \<le> d" "d < year_start (y + 1)"
    using year_from_bounds[OF first_year, of d] by (simp_all add: y_def)
  then have "0 \<le> d - year_start y" "d - year_start y < sum_list (month_lens (is_leap y))"
    by (simp_all add: sum_month_lens year_start_step)
  from split_month_back[OF this, of 0] obtain n j where
    "n < 12" "split_month 0 (d - year_start y) (month_lens (is_leap y)) = (int n, j)" "0 \<le> j"
    "j < month_lens (is_leap y) ! n" "d - year_start y = month_start (is_leap y) n + j"
    by (auto simp: month_lens_facts month_start_def)
  then show ?thesis
    by (intro that[of y n j]) (simp_all add: localtime_utc_def Let_def d_def[symmetric] y_def[symmetric])
qed

lemma seconds_of_day: "x mod 86400 div 3600 * 3600 + x mod 86400 mod 3600 div 60 * 60 + x mod 86400 mod 60
    = x mod 86400" for x :: int
proof -
  define s where "s = x mod 86400"
  have "s mod 3600 mod 60 = s mod 60" by (simp add: mod_mod_cancel)
  then have "s mod 3600 = s mod 3600 div 60 * 60 + s mod 60"
    using div_mult_mod_eq[of "s mod 3600" 60] by simp
  then show ?thesis unfolding s_def[symmetric] using div_mult_mod_eq[of s 3600] by linarith
qed

lemma mktime_localtime_utc: "mktime_utc (localtime_utc x) = x"
proof (rule localtime_utc_cases[of x])
  fix y n j
  assume *: "localtime_utc x = \<lparr>tm_year = y - 1900, tm_mon = int n, tm_mday = j + 1,
      tm_hour = x mod 86400 div 3600, tm_min = x mod 86400 mod 3600 div 60, tm_sec = x mod 86400 mod 60\<rparr>"
    "n < 12" "x div 86400 = year_start y + month_start (is_leap y) n + j"
  then have "mktime_utc (localtime_utc x) = x div 86400 * 86400 + (x mod 86400 div 3600 * 3600
      + x mod 86400 mod 3600 div 60 * 60 + x mod 86400 mod 60)"
    by (simp add: mktime_utc_def Let_def)
  then show ?thesis unfolding seconds_of_day by simp
qed

lemma div_bound: "a < c * b \<Longrightarrow> 0 < b \<Longrightarrow> a div b < c" for a b c :: int
  using mult_right_mono[of c "a div b" b] div_mult_mod_eq[of a b] pos_mod_sign[of b a] by linarith

lemma localtime_utc_plain: "plain_utc (localtime_utc x)"
proof (rule localtime_utc_cases[of x])
  fix y n j
  assume *: "localtime_utc x = \<lparr>tm_year = y - 1900, tm_mon = int n, tm_mday = j + 1,
      tm_hour = x mod 86400 div 3600, tm_min = x mod 86400 mod 3600 div 60, tm_sec = x mod 86400 mod 60\<rparr>"
    "n < 12" "0 \<le> j" "j < month_lens (is_leap y) ! n"
  have "month_lens (is_leap y) ! n \<le> 31"
    using month_lens_facts[of "is_leap y"] *(2) by (metis nth_mem)
  moreover have "x mod 86400 div 3600 < 24" "x mod 86400 mod 3600 div 60 < 60"
    by (intro div_bound; simp add: pos_mod_bound[THEN less_le_trans])+
  ultimately show ?thesis using * by (simp add: plain_utc_def tm_fields_ok_def pos_imp_zdiv_nonneg_iff)
qed


lemma localtime_mktime_utc:
  assumes "plain_utc t"
  shows "localtime_utc (mktime_utc t) = t"
proof -
  define y where "y = tm_year t + 1900"
  define n where "n = nat (tm_mon t)"
  define j where "j = tm_mday t - 1"
  define s where "s = tm_hour t * 3600 + tm_min t * 60 + tm_sec t"
  note ok = assms[unfolded plain_utc_def tm_fields_ok_def, folded y_def n_def]
  have n: "n < 12" "tm_mon t div 12 = 0" "nat (tm_mon t mod 12) = n" using ok by (auto simp: n_def)
  have j: "0 \<le> j" "j < month_lens (is_leap y) ! n" using ok by (auto simp: j_def)
  have s: "0 \<le> s" "s < 86400" using ok by (auto simp: s_def)
  define d where "d = year_start y + month_start (is_leap y) n + j"
  have mk: "mktime_utc t = d * 86400 + s"
    by (simp add: mktime_utc_def Let_def n(2,3) d_def j_def s_def flip: y_def)
  then have ds: "mktime_utc t div 86400 = d" "mktime_utc t mod 86400 = s" using s by simp_all
  have split: "split_month 0 (month_start (is_leap y) n + j) (month_lens (is_leap y)) = (int n, j)"
    using split_month_at[of n "month_lens (is_leap y)" j 0] n(1) j
    by (simp add: month_lens_facts month_start_def)
  have "month_lens (is_leap y) = take n (month_lens (is_leap y)) @ month_lens (is_leap y) ! n
      # drop (Suc n) (month_lens (is_leap y))"
    using n(1) by (intro id_take_nth_drop) (simp add: month_lens_facts)
  then have "sum_list (month_lens (is_leap y)) = month_start (is_leap y) n + month_lens (is_leap y) ! n
      + sum_list (drop (Suc n) (month_lens (is_leap y)))"
    by (metis month_start_def add.assoc sum_list.Cons sum_list_append)
  moreover have "0 \<le> sum_list (drop (Suc n) (month_lens (is_leap y)))" "0 \<le> month_start (is_leap y) n"
    unfolding month_start_def using month_lens_facts(2)[of "is_leap y"]
    by (auto intro!: sum_list_nonneg dest: in_set_dropD in_set_takeD)
  ultimately have "year_start y \<le> d" "d < year_start (y + 1)"
    using j by (simp_all add: d_def year_start_step sum_month_lens)
  then have "year_from d (first_year d) = y"
    using year_unique year_from_bounds[OF first_year, of d] by blast
  moreover have "s div 3600 = tm_hour t" "s mod 3600 = tm_min t * 60 + tm_sec t"
    using int_div_pos_eq[of s 3600 "tm_hour t" "tm_min t * 60 + tm_sec t"]
      int_mod_pos_eq[of s 3600 "tm_hour t" "tm_min t * 60 + tm_sec t"] ok
    by (simp_all add: s_def)
  moreover have "s mod 60 = tm_sec t"
    using int_mod_pos_eq[of s 60 "tm_hour t * 60 + tm_min t" "tm_sec t"] ok by (simp add: s_def)
  moreover have "d - year_start y = month_start (is_leap y) n + j" by (simp add: d_def)
  ultimately have "localtime_utc (mktime_utc t) = \<lparr>tm_year = y - 1900, tm_mon = int n, tm_mday = j + 1,
      tm_hour = tm_hour t, tm_min = (tm_min t * 60 + tm_sec t) div 60, tm_sec = tm_sec t\<rparr>"
    by (simp add: localtime_utc_def ds Let_def split)
  moreover have "(tm_min t * 60 + tm_sec t) div 60 = tm_min t" using ok by simp
  ultimately show ?thesis using ok by (cases t) (simp add: y_def n_def j_def)
qed

interpretation utc: clock mktime_utc localtime_utc plain_utc
  by unfold_locales
    (simp_all add: mktime_localtime_utc localtime_mktime_utc localtime_utc_plain, simp add: plain_utc_def)

end
