(* ===== verification/Timestamp_Text.thy ===== *)
theory Timestamp_Text
  imports Calendar
begin

text \<open>
  Timestamps as text: the format \<^verbatim>\<open>toFormattedString\<close> prints is one that
  \<^verbatim>\<open>parseTimeStr\<close> reads back, for every date and time of a four-digit year.
\<close>

section \<open>Fixed-width numbers\<close>

lemma printf_digits:
  assumes "0 \<le> x" "x < 10 ^ w" "0 < w" "w \<le> 4"
  shows "length (printf_0d w x) = w" "\<forall>c \<in> set (printf_0d w x). isdigit c"
    "stoi (printf_0d w x) = Inr x"
proof -
  have eq: "printf_0d w x = zero_pad w (nat_str (nat x))" using assms(1) by (simp add: printf_0d_def)
  have lt: "nat x < 10 ^ w" using assms(1,2) by (simp add: nat_less_iff)
  also have "(10::nat) ^ w \<le> 10 ^ 4" using assms(4) by (intro power_increasing) auto
  finally have "nat x < 2 ^ 31" by simp
  then show "stoi (printf_0d w x) = Inr x" using assms(1) stoi_zero_pad[of "nat x" w] by (simp add: eq)
  show "length (printf_0d w x) = w" using length_nat_str[OF assms(3) lt] by (simp add: eq zero_pad_def)
  show "\<forall>c \<in> set (printf_0d w x). isdigit c"
    using nat_str_digits[of "nat x"] by (auto simp: eq zero_pad_def)
qed

lemma printf_no_sep:
  assumes "0 \<le> x" "x < 10 ^ w" "0 < w" "w \<le> 4" "\<not> isdigit c"
  shows "c \<notin> set (printf_0d w x)"
  using printf_digits[OF assms(1-4)] assms(5) by auto

lemma printf_nonempty [simp]: "printf_0d w x \<noteq> []"
  by (simp add: printf_0d_def zero_pad_def)

lemma not_isdigit_seps [simp]:
  "\<not> isdigit CHR ''-''" "\<not> isdigit CHR '':''" "\<not> isdigit CHR ''/''" "\<not> isdigit CHR '' ''"
  by (simp_all add: isdigit_def chr_code_def)

definition year_ok :: "tm \<Rightarrow> bool" where
  "year_ok t \<longleftrightarrow> 0 \<le> tm_year t + 1900 \<and> tm_year t + 1900 < 10000"

section \<open>Reading the two parts\<close>

definition date_text :: "tm \<Rightarrow> string" where
  "date_text t = join ''-'' [printf_0d 4 (tm_year t + 1900), printf_0d 2 (tm_mon t + 1), printf_0d 2 (tm_mday t)]"

definition time_text :: "tm \<Rightarrow> string" where
  "time_text t = join '':'' [printf_0d 2 (tm_hour t), printf_0d 2 (tm_min t), printf_0d 2 (tm_sec t)]"

lemma format_tm_parts: "format_tm t = date_text t @ '' '' @ time_text t"
  by (simp add: format_tm_def date_text_def time_text_def)

lemma split_date:
  assumes "tm_fields_ok t" "year_ok t"
  shows "split (date_text t) ''-/'' =
    [printf_0d 4 (tm_year t + 1900), printf_0d 2 (tm_mon t + 1), printf_0d 2 (tm_mday t)]"
  unfolding date_text_def split_eq_tokens
  by (rule tokens_join)
    (use assms in \<open>auto simp: tm_fields_ok_def year_ok_def simp: printf_no_sep\<close>)

lemma split_time:
  assumes "tm_fields_ok t"
  shows "split (time_text t) '':'' = [printf_0d 2 (tm_hour t), printf_0d 2 (tm_min t), printf_0d 2 (tm_sec t)]"
  unfolding time_text_def
  by (rule split_join)
    (use assms in \<open>auto simp: tm_fields_ok_def simp: printf_no_sep\<close>)

lemma parse_hms_text:
  assumes "tm_fields_ok t"
  shows "parse_hms (time_text t) u = Inr (success, u\<lparr>tm_hour := tm_hour t, tm_min := tm_min t, tm_sec := tm_sec t\<rparr>)"
  using assms
  by (simp add: parse_hms_def split_time[OF assms] tm_fields_ok_def printf_digits Let_def)


lemma find_first_of_here:
  assumes "c \<in> set seps" "\<forall>x \<in> set a. x \<notin> set seps"
  shows "find_first_of (a @ c # b) seps 0 = Some (length a)"
proof (cases "find_first_of (a @ c # b) seps 0")
  case None
  then show ?thesis using find_first_of_None[OF None] assms(1) by simp
next
  case (Some r)
  note r = find_first_of_Some[OF Some]
  have "\<not> r < length a" using r(3) assms(2) by (auto simp: nth_append)
  moreover have "\<not> length a < r" using r(4) assms(1) by (auto simp: take_Cons')
  ultimately show ?thesis using Some by simp
qed

lemma skip_spaces_stop: "i < length s \<Longrightarrow> \<not> isspace (s ! i) \<Longrightarrow> skip_spaces s i = Inr i"
  by (simp add: skip_spaces.simps)

lemma length_date_text:
  assumes "tm_fields_ok t" "year_ok t"
  shows "length (date_text t) = 10"
  using assms by (simp add: date_text_def tm_fields_ok_def year_ok_def printf_digits)

lemma length_time_text:
  assumes "tm_fields_ok t"
  shows "length (time_text t) = 8"
  using assms by (simp add: time_text_def tm_fields_ok_def printf_digits)

lemma hd_digit: "0 \<le> x \<Longrightarrow> x < 10 ^ w \<Longrightarrow> 0 < w \<Longrightarrow> w \<le> 4 \<Longrightarrow>
    \<not> isspace (hd (printf_0d w x)) \<and> \<not> isspace (last (printf_0d w x))"
  using printf_digits(2)[of x w] isdigit_not hd_in_set[OF printf_nonempty, of w x]
    last_in_set[OF printf_nonempty, of w x] by blast

lemma format_tm_strip:
  assumes "tm_fields_ok t" "year_ok t"
  shows "strip (format_tm t) = format_tm t"
proof (rule strip_id)
  show "2 \<le> length (format_tm t)" using assms by (simp add: format_tm_parts length_date_text)
  show "\<not> isspace (hd (format_tm t))"
    using hd_digit[of "tm_year t + 1900" 4] assms(2) by (simp add: format_tm_def year_ok_def)
  show "\<not> isspace (last (format_tm t))"
    using hd_digit[of "tm_sec t" 2] assms(1) by (simp add: format_tm_def tm_fields_ok_def)
qed

lemma no_space_in_date:
  assumes "tm_fields_ok t" "year_ok t"
  shows "\<forall>x \<in> set (date_text t). x \<notin> set '' ''"
  using assms by (auto simp: date_text_def tm_fields_ok_def year_ok_def simp: printf_no_sep)

lemma time_text_start:
  assumes "tm_fields_ok t"
  shows "time_text t \<noteq> [] \<and> \<not> isspace (hd (time_text t))"
  using hd_digit[of "tm_hour t" 2] assms by (simp add: time_text_def tm_fields_ok_def)

lemma parse_format:
  assumes "tm_fields_ok t" "0 \<le> tm_year t + 1900" "tm_year t + 1900 < 10000"
  shows "parseTimeStr (format_tm t) tm_zero = Inr (success, t)"
proof -
  have y: "year_ok t" using assms(2,3) by (simp add: year_ok_def)
  note ok = assms(1)[unfolded tm_fields_ok_def]
  have sp: "find_first_of (format_tm t) '' '' 0 = Some 10"
    using find_first_of_here[of "CHR '' ''" "'' ''" "date_text t" "time_text t"]
      no_space_in_date[OF assms(1) y] length_date_text[OF assms(1) y]
    by (simp add: format_tm_parts)
  have date: "take 10 (format_tm t) = date_text t"
    using length_date_text[OF assms(1) y] by (simp add: format_tm_parts)
  have time: "drop 11 (format_tm t) = time_text t"
    using length_date_text[OF assms(1) y] by (simp add: format_tm_parts)
  have "skip_spaces (format_tm t) 11 = Inr 11"
    using length_date_text[OF assms(1) y] time_text_start[OF assms(1)] length_time_text[OF assms(1)]
    by (intro skip_spaces_stop) (auto simp: format_tm_parts nth_append hd_conv_nth)
  then have "parseTimeStr (format_tm t) tm_zero = parse_hms (time_text t)
      (tm_zero\<lparr>tm_year := tm_year t, tm_mon := tm_mon t, tm_mday := tm_mday t\<rparr>)"
    using ok y
    by (simp add: parseTimeStr_def format_tm_strip[OF assms(1) y] sp date time
        split_date[OF assms(1) y] printf_digits Let_def year_ok_def)
  then show ?thesis
    by (simp add: parse_hms_text[OF assms(1)] tm_zero_def)
qed

section \<open>The range of years\<close>

lemma year_of_instant:
  fixes x
  defines "y \<equiv> tm_year (localtime_utc x) + 1900"
  shows "year_start y \<le> x div 86400" "x div 86400 < year_start (y + 1)"
proof -
  have "y = year_from (x div 86400) (first_year (x div 86400))"
    by (simp add: y_def localtime_utc_def Let_def split: prod.split)
  with year_from_bounds[OF first_year, of "x div 86400"]
  show "year_start y \<le> x div 86400" "x div 86400 < year_start (y + 1)" by simp_all
qed

lemma year_start_after:
  assumes "1970 \<le> y"
  shows "365 * (y - 1970) \<le> year_start y" "year_start y \<le> 366 * (y - 1970)"
  using year_start_span[where y = 1970 and n = "nat (y - 1970)"] assms by simp_all

lemma year_start_before: "y \<le> 1970 \<Longrightarrow> year_start y \<le> - 365 * (1970 - y)"
  using year_start_span(1)[where y = y and n = "nat (1970 - y)"] by simp

lemma tm_year_ok_utc:
  assumes "- 5000000000000 \<le> x" "x \<le> 5000000000000"
  shows "tm_year_ok (localtime_utc x)"
proof -
  define y where "y = tm_year (localtime_utc x) + 1900"
  have d: "- 60000000 \<le> x div 86400" "x div 86400 \<le> 60000000"
    using assms div_mult_mod_eq[of x 86400] pos_mod_bound[of 86400 x] pos_mod_sign[of 86400 x] by linarith+
  have "y \<le> 200000" using year_of_instant(1)[of x, folded y_def] year_start_after(1)[of y] d
    by (cases "1970 \<le> y") simp_all
  moreover have "- 190000 \<le> y"
    using year_of_instant(2)[of x, folded y_def] year_start_before[of "y + 1"] d
    by (cases "y + 1 \<le> 1970") simp_all
  ultimately show ?thesis by (simp add: tm_year_ok_def y_def)
qed

lemma mktime_utc_bound:
  assumes "plain_utc t" "1970 \<le> tm_year t + 1900" "tm_year t + 1900 < 10000"
  shows "0 \<le> mktime_utc t" "mktime_utc t < 260000000000"
proof -
  define d where "d = mktime_utc t div 86400"
  note y = year_of_instant[of "mktime_utc t", unfolded localtime_mktime_utc[OF assms(1)], folded d_def]
  have "1970 \<le> tm_year t + 1900 + 1" using assms(2) by simp
  note after = year_start_after(2)[OF this] year_start_after(1)[OF assms(2)]
  have "0 \<le> d" "d < 3000000" using y after assms(2,3) by simp_all
  then show "0 \<le> mktime_utc t" "mktime_utc t < 260000000000"
    using div_mult_mod_eq[of "mktime_utc t" 86400] pos_mod_bound[of 86400 "mktime_utc t"]
      pos_mod_sign[of 86400 "mktime_utc t"] unfolding d_def by linarith+
qed

section \<open>Adding to a member\<close>

fun unit_field :: "time_unit \<Rightarrow> tm \<Rightarrow> int" where
  "unit_field day t = tm_mday t"
| "unit_field hour t = tm_hour t"
| "unit_field minute t = tm_min t"
| "unit_field second t = tm_sec t"
| "unit_field _ t = 0"

fun unit_seconds :: "time_unit \<Rightarrow> int" where
  "unit_seconds day = 86400"
| "unit_seconds hour = 3600"
| "unit_seconds minute = 60"
| "unit_seconds _ = 1"

lemma bump_utc:
  assumes "plain_utc t" "u \<in> {second, minute, hour, day}" "\<bar>v\<bar> < 1000000000"
  shows "\<exists>t'. bump_tm v u t = Inr t' \<and> mktime_utc t' = mktime_utc t
    + (if isvalid_tm_field (unit_field u t + v) u then v * unit_seconds u else 0)"
proof -
  have "i32 (unit_field u t + v) = Inr (unit_field u t + v)"
    using assms by (intro i32_ok) (auto simp: plain_utc_def tm_fields_ok_def)
  then show ?thesis
    using assms(2) by (auto simp: bump_def mktime_utc_def Let_def algebra_simps)
qed

lemma mysql_time_roundtrip:
  assumes "- (2 ^ 62) \<le> ts" "ts < 2 ^ 62"
  shows "Timestamp_of_mysql mktime_utc (toMysqlTime localtime_utc type ts) = Inr ts"
proof (rule utc.mysql_roundtrip[OF tm_year_ok_utc])
  have "\<bar>cdiv ts microSecondsPerSecond\<bar> = \<bar>ts\<bar> div 1000000"
    by (auto simp: cdiv_def abs_mult microSecondsPerSecond_def abs_sgn_eq)
  moreover have "\<bar>ts\<bar> div 1000000 \<le> 2 ^ 62 div 1000000"
    using assms by (intro zdiv_mono1) auto
  ultimately show "- 5000000000000 \<le> cdiv ts microSecondsPerSecond"
    "cdiv ts microSecondsPerSecond \<le> 5000000000000" by simp_all
qed (use assms in auto)

section \<open>Properties\<close>

text \<open>
  Every date and time of a four-digit year, printed in the format of
  \<^verbatim>\<open>toFormattedString\<close>, is parsed back to the same members.
\<close>

theorem parse_format_tm:
  assumes "tm_fields_ok t" "0 \<le> tm_year t + 1900" "tm_year t + 1900 < 10000"
  shows "parseTimeStr (format_tm t) tm_zero = Inr (success, t)"
  using assms by (rule parse_format)

text \<open>
  C26: In UTC, the timestamp built from the text of a date and time after the epoch is
  printed as that text again.
\<close>

theorem timestamp_text_roundtrip:
  assumes "plain_utc t" "1970 \<le> tm_year t + 1900" "tm_year t + 1900 < 10000" "0 < mktime_utc t"
  shows "rbind (Timestamp_of_string mktime_utc (format_tm t)) (toFormattedString localtime_utc)
    = Inr (format_tm t)"
proof -
  have ok: "tm_fields_ok t" using assms(1) by (simp add: plain_utc_def)
  have "length (format_tm t) = 19"
    using length_date_text[OF ok] length_time_text[OF ok] assms(2,3)
    by (simp add: format_tm_parts year_ok_def)
  moreover have "parseTimeStr (format_tm t) tm_zero = Inr (success, t)"
    using parse_format[OF ok] assms(2,3) by simp
  ultimately show ?thesis
    using mktime_utc_bound[OF assms(1-3)] assms(4)
    by (simp add: Timestamp_of_string_def toFormattedString_def Timestamp_isValid_def
        microSecondsPerSecond_def localtime_mktime_utc[OF assms(1)] Let_def)
qed

text \<open>
  C27: In UTC, a timestamp converted to \<^verbatim>\<open>MYSQL_TIME\<close> and back is the same to the
  microsecond, also before the epoch, where \<^verbatim>\<open>second_part\<close> has wrapped around.
\<close>

theorem timestamp_mysql_roundtrip:
  assumes "- (2 ^ 62) \<le> ts" "ts < 2 ^ 62"
  shows "Timestamp_of_mysql mktime_utc (toMysqlTime localtime_utc type ts) = Inr ts"
  using assms by (rule mysql_time_roundtrip)

text \<open>
  C35: In UTC, adding to the second, minute, hour or day of a timestamp moves it by that
  many units when the member stays in its range, and not at all otherwise: there is no
  carry into the next member. In both cases the microseconds are dropped.
\<close>

theorem addTime_no_carry:
  assumes "0 \<le> ts" "ts < 2 ^ 60" "\<bar>v\<bar> < 50000000" "u \<in> {second, minute, hour, day}"
  shows "addTime mktime_utc localtime_utc v u ts = Inr ((ts div 1000000
    + (if isvalid_tm_field (unit_field u (localtime_utc (ts div 1000000)) + v) u
       then v * unit_seconds u else 0)) * 1000000)"
proof -
  let ?t = "localtime_utc (ts div 1000000)"
  obtain t' where t': "bump_tm v u ?t = Inr t'"
    "mktime_utc t' = ts div 1000000
      + (if isvalid_tm_field (unit_field u ?t + v) u then v * unit_seconds u else 0)"
    using bump_utc[OF localtime_utc_plain assms(4), of v "ts div 1000000"] assms(3)
    by (auto simp: mktime_localtime_utc)
  have "ts div 1000000 \<le> 2 ^ 60 div 1000000" "0 \<le> ts div 1000000"
    using assms(1,2) by (auto intro!: zdiv_mono1 simp: pos_imp_zdiv_nonneg_iff)
  moreover have "\<bar>v * unit_seconds u\<bar> \<le> 50000000 * 86400"
    unfolding abs_mult by (rule mult_mono) (use assms(3,4) in auto)
  ultimately have "- 9000000000000 \<le> mktime_utc t'" "mktime_utc t' \<le> 9000000000000"
    unfolding t'(2) by (auto split: if_splits)
  then show ?thesis
    using assms(1) t' by (simp add: addTime_def microSecondsPerSecond_def)
qed

section \<open>Witnesses\<close>

definition demo_tm :: tm where
  "demo_tm = \<lparr>tm_year = 122, tm_mon = 10, tm_mday = 4, tm_hour = 9, tm_min = 5, tm_sec = 59\<rparr>"

lemma demo_tm_facts: "format_tm demo_tm = ''2022-11-04 09:05:59''" "plain_utc demo_tm"
    "mktime_utc demo_tm = 1667552759"
  by code_simp+

theorem parse_format_tm_witness:
  "parseTimeStr ''2022-11-04 09:05:59'' tm_zero = Inr (success, demo_tm)"
  using parse_format_tm[of demo_tm] by (simp add: demo_tm_facts) (simp add: demo_tm_def tm_fields_ok_def)

theorem timestamp_text_witness:
  "rbind (Timestamp_of_string mktime_utc ''2022-11-04 09:05:59'') (toFormattedString localtime_utc)
    = Inr ''2022-11-04 09:05:59''"
  using timestamp_text_roundtrip[of demo_tm] by (simp add: demo_tm_facts) (simp add: demo_tm_def)

theorem timestamp_mysql_witness:
  "Timestamp_of_mysql mktime_utc (toMysqlTime localtime_utc MYSQL_TIMESTAMP_DATETIME (- 1)) = Inr (- 1)"
  by (rule timestamp_mysql_roundtrip) simp_all


lemma localtime_45: "localtime_utc 45 =
    \<lparr>tm_year = 70, tm_mon = 0, tm_mday = 1, tm_hour = 0, tm_min = 0, tm_sec = 45\<rparr>"
  by code_simp

theorem addTime_no_carry_witness:
  "addTime mktime_utc localtime_utc 30 second 45999999 = Inr 45000000
   \<and> addTime mktime_utc localtime_utc 10 second 45999999 = Inr 55000000"
  using addTime_no_carry[of 45999999 30 second] addTime_no_carry[of 45999999 10 second]
  by (simp add: localtime_45)

end
