(* ===== verification/Statement_Laws.thy ===== *)
theory Statement_Laws
  imports Results Timestamp_Text
begin

text \<open>
  What holds of prepared statements and results: the buffers made for the columns, the
  invariant of a statement, the loop over the rows of a query, and that a value bound as
  a parameter is read back from a column of the same layout.
\<close>

section \<open>The buffers of a statement\<close>

definition has_buffer :: "column_meta \<Rightarrow> bool" where
  "has_buffer c \<longleftrightarrow> (case cm_type c of MYSQL_TYPE_CODE n \<Rightarrow> False | _ \<Rightarrow> True)"

definition column_bind :: "column_meta \<Rightarrow> my_bind" where
  "column_bind c = hd (makeResultBind c [])"

lemma makeResultBind_eq:
  "makeResultBind c bs = bs @ (if has_buffer c then [column_bind c] else [])"
  by (cases "cm_type c") (simp_all add: has_buffer_def column_bind_def)

declare makeResultBind.simps [simp del]

lemma add_field_pair: "add_field (i, c) st = st\<lparr>st_fields := st_fields st @ [c],
     st_nameToIndex := uput (cm_name c) (int i) (st_nameToIndex st),
     st_resBind := st_resBind st @ (if has_buffer c then [column_bind c] else [])\<rparr>"
  by (simp add: add_field_def makeResultBind_eq)

lemma add_fields:
  "length is = length cols \<Longrightarrow> fold add_field (zip is cols) st = st\<lparr>
     st_fields := st_fields st @ cols,
     st_nameToIndex := fold (\<lambda>(i, c). uput (cm_name c) (int i)) (zip is cols) (st_nameToIndex st),
     st_resBind := st_resBind st @ map column_bind (filter has_buffer cols)\<rparr>"
  by (induction "is" cols arbitrary: st rule: list_induct2) (simp_all add: add_field_pair)

definition statement_invar :: "statement \<Rightarrow> bool" where
  "statement_invar st \<longleftrightarrow> length (st_paramBind st) = st_paramCount st
     \<and> (st_open st \<longrightarrow> st_numField st = Some (length (st_fields st))
          \<and> length (st_resBind st) = length (filter has_buffer (st_fields st))
          \<and> (\<forall>bs \<in> set (st_pending st). length bs = length (st_resBind st)))"

lemma Statement_new_eq:
  "Statement_new (Inr (cols, n)) =
    \<lparr>st_open = True, st_error = [], st_fields = cols, st_numField = Some (length cols),
     st_nameToIndex = fold (\<lambda>(i, c). uput (cm_name c) (int i)) (zip [0..<length cols] cols) [],
     st_resBind = map column_bind (filter has_buffer cols),
     st_paramBind = replicate n zero_bind, st_paramCount = n, st_pending = []\<rparr>"
  using add_fields[of "[0..<length cols]" cols] by (simp add: Statement_new_def Let_def)

lemma invar_new: "statement_invar (Statement_new answer)"
proof (cases answer)
  case (Inr p)
  then show ?thesis by (cases p) (simp add: Statement_new_eq statement_invar_def)
qed (simp add: Statement_new_def statement_invar_def)

lemma invar_set_param: "statement_invar st \<Longrightarrow> statement_invar (set_param i b st)"
  by (simp add: statement_invar_def set_param_def)

lemma invar_setters:
  assumes "statement_invar st"
  shows "statement_invar (setInt i v st)" "statement_invar (setFloat i f st)"
    "statement_invar (setDouble i d st)" "statement_invar (setString i s st)"
    "setTime lt i ts ty st = Inr st' \<Longrightarrow> statement_invar st'"
  using assms
  by (auto simp: setInt_def setFloat_def setDouble_def setString_def setTime_def invar_set_param
      split: if_splits option.splits)

lemma invar_fetch: "statement_invar st \<Longrightarrow> statement_invar (stmt_fetch st)"
  unfolding stmt_fetch_def statement_invar_def
  by (cases "st_pending st") (simp, fastforce)

lemma invar_move: "statement_invar st \<Longrightarrow> statement_invar (fst (Statement_move st))"
  by (simp add: Statement_move_def statement_invar_def)

lemma stop_cases: "stop a k v st = (case a of Some e \<Rightarrow> (v, st\<lparr>st_error := e\<rparr>) | None \<Rightarrow> k st)"
  by (simp add: stop_def)

lemma invar_query:
  assumes "statement_invar st" "\<forall>bs \<in> set (sv_rows sv). length bs = length (st_resBind st)"
    and "stmt_executeQuery sv st = Inr (cnt, st')"
  shows "statement_invar st'"
  using assms
  by (cases "sv_bind_param sv"; cases "sv_execute sv"; cases "sv_bind_result sv"; cases "sv_store_result sv")
    (simp_all add: stmt_executeQuery_def stop_cases statement_invar_def split: if_splits, auto)

section \<open>Parameters read back\<close>

text \<open>Column \<open>j\<close> of the current row has the contents of a bound parameter.\<close>

definition shows_bind :: "statement \<Rightarrow> nat \<Rightarrow> my_bind \<Rightarrow> bool" where
  "shows_bind st j b \<longleftrightarrow> (\<exists>n. st_numField st = Some n \<and> j < n)
     \<and> j < length (st_resBind st) \<and> st_resBind st ! j = b"

lemma getRes_shows:
  "shows_bind st j b \<Longrightarrow> bind_length b = Some (Some len) \<Longrightarrow> getRes (int j) st = Inr (bind_buffer b, len)"
  by (auto simp: shows_bind_def getRes_def)

lemma param_at:
  assumes "statement_invar st" "isValidParamIndex i st"
  shows "st_paramBind (set_param i b st) ! nat (i - 1) = b"
  using assms by (auto simp: set_param_def isValidParamIndex_def statement_invar_def)

lemma newParam_res:
  assumes "shows_bind st j (newParam type data sz)" "length data \<le> sz"
  shows "getRes (int j) st = Inr (Some (map Some data @ replicate (sz - length data) None), length data)"
  using getRes_shows[OF assms(1)] by (simp add: newParam_def)

lemma read_bytes_prefix: "read_bytes (map Some s @ y) 0 (length s) = Inr s"
  by (simp add: read_bytes_def comp_def image_iff)

lemma read_int_param:
  assumes "- (2 ^ 31) \<le> v" "v < 2 ^ 31"
  shows "read_int (map Some (le_bytes 4 (nat (v mod 2 ^ 32))) @ y) = Inr v"
proof -
  have "le_val (le_bytes 4 (nat (v mod 2 ^ 32))) = nat (v mod 2 ^ 32)"
    by (intro le_val_bytes) (simp add: nat_less_iff)
  moreover have "(word_of_nat (nat (v mod 2 ^ 32)) :: 32 word) = word_of_int v"
    by (simp add: of_nat_nat word_of_int_eq_iff take_bit_eq_mod)
  ultimately show ?thesis
    using assms read_bytes_prefix[of "le_bytes 4 (nat (v mod 2 ^ 32))" y]
    by (simp add: read_int_def signed_of_int signed_take_bit_int_eq_self)
qed


lemma unat_le_val: "unat w < 256 ^ n \<Longrightarrow> word_of_nat (le_val (le_bytes n (unat w))) = w"
  by (simp add: le_val_bytes)

lemma u32_at:
  assumes "b = map Some (x @ le_bytes 4 (unat w) @ y)" "length x = off"
  shows "read_u32 b off = Inr w"
  using assms read_bytes_at[OF assms(1,2), of 4] unat_le_val[of w 4] unsigned_less[of w]
  by (simp add: read_u32_def)

lemma u64_at:
  assumes "b = map Some (x @ le_bytes 8 (unat w) @ y)" "length x = off"
  shows "read_u64 b off = Inr w"
  using assms read_bytes_at[OF assms(1,2), of 8] unat_le_val[of w 8] unsigned_less[of w]
  by (simp add: read_u64_def)

lemma length_bytes_of_time [simp]: "length (bytes_of_time m) = 40"
  by (simp add: bytes_of_time_def)

lemma read_time_bytes:
  "read_time (map Some (bytes_of_time m)) = Inr (m\<lparr>time_type := MYSQL_TIMESTAMP_DATETIME\<rparr>)"
proof -
  define b where "b = map Some (bytes_of_time m)"
  let ?w = "\<lambda>f. le_bytes 4 (unat (f m))"
  let ?r = "le_bytes 8 (unat (second_part m)) @ le_bytes 4 0 @ le_bytes 4 (time_type_code (time_type m))"
  have "read_u32 b 0 = Inr (my_year m)"
    by (rule u32_at[where x = "[]" and y = "?w my_month @ ?w my_day @ ?w my_hour @ ?w my_minute @ ?w my_second @ ?r"])
      (simp_all add: b_def bytes_of_time_def)
  moreover have "read_u32 b 4 = Inr (my_month m)"
    by (rule u32_at[where x = "?w my_year" and y = "?w my_day @ ?w my_hour @ ?w my_minute @ ?w my_second @ ?r"])
      (simp_all add: b_def bytes_of_time_def)
  moreover have "read_u32 b 8 = Inr (my_day m)"
    by (rule u32_at[where x = "?w my_year @ ?w my_month" and y = "?w my_hour @ ?w my_minute @ ?w my_second @ ?r"])
      (simp_all add: b_def bytes_of_time_def)
  moreover have "read_u32 b 12 = Inr (my_hour m)"
    by (rule u32_at[where x = "?w my_year @ ?w my_month @ ?w my_day" and y = "?w my_minute @ ?w my_second @ ?r"])
      (simp_all add: b_def bytes_of_time_def)
  moreover have "read_u32 b 16 = Inr (my_minute m)"
    by (rule u32_at[where x = "?w my_year @ ?w my_month @ ?w my_day @ ?w my_hour" and y = "?w my_second @ ?r"])
      (simp_all add: b_def bytes_of_time_def)
  moreover have "read_u32 b 20 = Inr (my_second m)"
    by (rule u32_at[where x = "?w my_year @ ?w my_month @ ?w my_day @ ?w my_hour @ ?w my_minute" and y = ?r])
      (simp_all add: b_def bytes_of_time_def)
  moreover have "read_u64 b 24 = Inr (second_part m)"
    by (rule u64_at[where x = "?w my_year @ ?w my_month @ ?w my_day @ ?w my_hour @ ?w my_minute @ ?w my_second"
        and y = "le_bytes 4 0 @ le_bytes 4 (time_type_code (time_type m))"])
      (simp_all add: b_def bytes_of_time_def)
  ultimately show ?thesis unfolding b_def[symmetric] by (simp add: read_time_def)
qed

lemma Timestamp_of_mysql_kind: "Timestamp_of_mysql mk (m\<lparr>time_type := k\<rparr>) = Timestamp_of_mysql mk m"
  by (simp add: Timestamp_of_mysql_def tm_of_mysql_def)

section \<open>Reachable statements\<close>

text \<open>The statements a program can have: prepared, and then used in any order.\<close>

inductive statement_run :: "(int \<Rightarrow> tm) \<Rightarrow> statement \<Rightarrow> bool" for lt where
  run_new: "statement_run lt (Statement_new answer)"
| run_int: "statement_run lt st \<Longrightarrow> statement_run lt (setInt i v st)"
| run_float: "statement_run lt st \<Longrightarrow> statement_run lt (setFloat i f st)"
| run_double: "statement_run lt st \<Longrightarrow> statement_run lt (setDouble i d st)"
| run_string: "statement_run lt st \<Longrightarrow> statement_run lt (setString i s st)"
| run_time: "statement_run lt st \<Longrightarrow> setTime lt i ts ty st = Inr st' \<Longrightarrow> statement_run lt st'"
| run_query: "statement_run lt st \<Longrightarrow> \<forall>bs \<in> set (sv_rows sv). length bs = length (st_resBind st) \<Longrightarrow>
    stmt_executeQuery sv st = Inr (cnt, st') \<Longrightarrow> statement_run lt st'"
| run_update: "statement_run lt st \<Longrightarrow> stmt_executeUpdate sv st = Inr (n, st') \<Longrightarrow> statement_run lt st'"
| run_fetch: "statement_run lt st \<Longrightarrow> statement_run lt (stmt_fetch st)"
| run_move: "statement_run lt st \<Longrightarrow> statement_run lt (fst (Statement_move st))"

lemma invar_error: "statement_invar st \<Longrightarrow> statement_invar (st\<lparr>st_error := e\<rparr>)"
  by (simp add: statement_invar_def)

lemma invar_update: "statement_invar st \<Longrightarrow> stmt_executeUpdate sv st = Inr (n, st') \<Longrightarrow> statement_invar st'"
  by (auto simp: stmt_executeUpdate_def stop_cases invar_error split: option.splits if_splits)

lemma statement_run_invar: "statement_run lt st \<Longrightarrow> statement_invar st"
proof (induction rule: statement_run.induct)
  case (run_time st i ts ty st')
  then show ?case using invar_setters(5) by blast
next
  case (run_query st sv cnt st')
  then show ?case using invar_query by blast
next
  case (run_update st sv n st')
  then show ?case using invar_update by blast
qed (simp_all add: invar_new invar_setters invar_fetch invar_move)

section \<open>Properties\<close>



text \<open>
  C16: A value bound as a parameter of a statement and found in a column of the current row
  is read back unchanged: an \<^verbatim>\<open>int\<close> by \<^verbatim>\<open>getInt\<close>, a string by \<^verbatim>\<open>getString\<close>, in UTC a
  timestamp by \<^verbatim>\<open>getTime\<close>.
\<close>

theorem bound_values_read_back:
  assumes "statement_run lt st" "isValidParamIndex i st"
    and "- (2 ^ 31) \<le> v" "v < 2 ^ 31" "- (2 ^ 62) \<le> ts" "ts < 2 ^ 62"
    and "shows_bind (pr_stmt r1) j (st_paramBind (setInt i v st) ! nat (i - 1))"
    and "shows_bind (pr_stmt r2) j (st_paramBind (setString i s st) ! nat (i - 1))"
    and "setTime localtime_utc i ts MYSQL_TYPE_TIMESTAMP st = Inr st'"
    and "shows_bind (pr_stmt r3) j (st_paramBind st' ! nat (i - 1))"
  shows "pr_getInt (int j + 1) r1 = Inr v \<and> pr_getString (int j + 1) r2 = Inr s
    \<and> pr_getTime mktime_utc (int j + 1) r3 = Inr ts"
proof -
  note inv = statement_run_invar[OF assms(1)]
  note at = param_at[OF inv assms(2)]
  have "pr_getInt (int j + 1) r1 = Inr v"
    using newParam_res[OF assms(7)[unfolded setInt_def at]] read_int_param[OF assms(3,4), of "[]"]
    by (simp add: pr_getInt_def through_def)
  moreover have "pr_getString (int j + 1) r2 = Inr s"
    using newParam_res[OF assms(8)[unfolded setString_def at]]
    by (simp add: pr_getString_def cell_string_def through_def read_bytes_prefix)
  moreover have st': "st' = set_param i (newParam MYSQL_TYPE_TIMESTAMP
      (bytes_of_time (toMysqlTime localtime_utc MYSQL_TIMESTAMP_DATETIME ts)) 40) st"
    using assms(2,9) by (simp add: setTime_def)
  moreover have "pr_getTime mktime_utc (int j + 1) r3 = Inr ts"
    using newParam_res[OF assms(10)[unfolded st' at]]
      mysql_time_roundtrip[OF assms(5,6)]
    by (simp add: pr_getTime_def cell_time_def through_def read_time_bytes Timestamp_of_mysql_kind)
  ultimately show ?thesis by simp
qed

text \<open>
  C14: The loop \<^verbatim>\<open>while (rs.hasNext()) { rs.next(); ... }\<close> over the result of a query
  that the server answers with fewer than \<open>2 ^ 31\<close> rows ends, and its body has seen
  exactly those rows, each once and in order.
\<close>

theorem query_loop_sees_every_row:
  assumes "executeQuery sv st = Inr (Prepared_Rows r, st')" "length (sv_rows sv) < 2 ^ 31"
    and "\<And>s a. body s a = g (st_resBind (pr_stmt s)) a"
  shows "\<exists>s'. fetch_loop pr_hasNext pr_next body r a = Some (rmap (Pair s') (rfold g (sv_rows sv) a))"
proof -
  obtain st'' n where "stmt_executeQuery sv st = Inr (Some n, st'')" and r: "r = PreparedResult_new st'' n"
    using assms(1) by (auto simp: executeQuery_def rmap_eq_Inr_iff split: option.splits)
  then have "n = int (length (sv_rows sv))" "st_pending st'' = sv_rows sv"
    using assms(2)
    by (auto simp: stmt_executeQuery_def stop_cases signed_of_nat signed_take_bit_int_eq_self
        split: if_splits option.splits)
  then have "pr_fits r" "st_pending (pr_stmt r) = sv_rows sv"
    by (simp_all add: r PreparedResult_new_def pr_fits_def)
  then show ?thesis
    using prepared_rows.loop_all_rows[of r "\<lambda>_ _. True" r body g a] assms(3)
    by (simp add: pr_current_def comp_def)
qed


section \<open>Witnesses\<close>

definition demo_columns :: "column_meta list" where
  "demo_columns = [\<lparr>cm_name = ''price'', cm_length = 10, cm_type = MYSQL_TYPE_CODE 246\<rparr>,
     \<lparr>cm_name = ''id'', cm_length = 11, cm_type = MYSQL_TYPE_LONG\<rparr>]"

definition demo_row :: "my_bind list" where
  "demo_row = [newParam MYSQL_TYPE_LONG (le_bytes 4 7) 4]"

definition demo_server :: server where
  "demo_server = \<lparr>sv_bind_param = None, sv_execute = None, sv_bind_result = None,
     sv_store_result = None, sv_rows = [demo_row, demo_row], sv_affected = 0\<rparr>"

definition demo_statement :: statement where
  "demo_statement = Statement_new (Inr (demo_columns, 1))"

lemma demo_statement_eq: "demo_statement =
    \<lparr>st_open = True, st_error = [], st_fields = demo_columns, st_numField = Some 2,
     st_nameToIndex = [(''price'', 0), (''id'', 1)],
     st_resBind = [newBind MYSQL_TYPE_LONG 4], st_paramBind = [zero_bind], st_paramCount = 1, st_pending = []\<rparr>"
  by (simp add: demo_statement_def Statement_new_eq demo_columns_def has_buffer_def column_bind_def
      makeResultBind.simps)

definition demo_queried :: statement where
  "demo_queried = demo_statement\<lparr>st_pending := [demo_row, demo_row]\<rparr>"

lemma demo_query: "stmt_executeQuery demo_server demo_statement = Inr (Some 2, demo_queried)"
  by (simp add: stmt_executeQuery_def stop_cases demo_server_def demo_statement_eq demo_queried_def)

lemma demo_run: "statement_run lt (stmt_fetch demo_queried)"
  by (rule run_fetch[OF run_query[OF run_new[of lt "Inr (demo_columns, 1)", folded demo_statement_def] _ demo_query]])
    (simp add: demo_server_def demo_statement_eq demo_row_def)



definition echo :: "my_bind \<Rightarrow> prepared_result" where
  "echo b = PreparedResult_new (demo_statement\<lparr>st_resBind := [b]\<rparr>) 1"

theorem bound_values_witness:
  "pr_getInt 1 (echo (st_paramBind (setInt 1 (- 5) demo_statement) ! 0)) = Inr (- 5)
   \<and> pr_getString 1 (echo (st_paramBind (setString 1 ''abc'' demo_statement) ! 0)) = Inr ''abc''"
proof -
  obtain st' where "setTime localtime_utc 1 1667552759000001 MYSQL_TYPE_TIMESTAMP demo_statement = Inr st'"
    by (simp add: setTime_def isValidParamIndex_def demo_statement_eq)
  then show ?thesis
    using bound_values_read_back[OF run_new[of "\<lambda>_. tm_zero" "Inr (demo_columns, 1)", folded demo_statement_def],
        of 1 "- 5" 1667552759000001 "echo (st_paramBind (setInt 1 (- 5) demo_statement) ! 0)" 0
        "echo (st_paramBind (setString 1 ''abc'' demo_statement) ! 0)" "''abc''" st' "echo (st_paramBind st' ! 0)"]
    by (simp add: isValidParamIndex_def shows_bind_def echo_def PreparedResult_new_def demo_statement_eq)
qed

theorem query_loop_witness:
  "\<exists>s'. fetch_loop pr_hasNext pr_next (\<lambda>s n. Inr (n + length (st_resBind (pr_stmt s))))
      (PreparedResult_new demo_queried 2) 0 = Some (Inr (s', 2))"
proof -
  have "executeQuery demo_server demo_statement = Inr (Prepared_Rows (PreparedResult_new demo_queried 2), demo_queried)"
    by (simp add: executeQuery_def demo_query)
  from query_loop_sees_every_row[OF this, where g = "\<lambda>bs n. Inr (n + length bs)" and a = 0
      and body = "\<lambda>s n. Inr (n + length (st_resBind (pr_stmt s)))"]
  show ?thesis by (simp add: demo_server_def demo_row_def) (simp add: numeral_2_eq_2)
qed

end
