(* ===== verification/Query_Laws.thy ===== *)
theory Query_Laws
  imports Query Statement_Laws
begin

text \<open>
  What the query side of the model sends to the database: the text of each statement
  against a description of it with joined lists, the parameters it binds, what is left in
  the builder afterwards, and that an object written by \<^verbatim>\<open>Create\<close> is read back by
  \<^verbatim>\<open>fillObject\<close>.
\<close>

section \<open>Lists in SQL text\<close>

lemma indexed_map_from:
  assumes "\<And>i x. 0 < i \<Longrightarrow> x \<in> set xs \<Longrightarrow> f (i, x) = g x" "0 < k"
  shows "concat (map f (zip [k..<k + length xs] xs)) = concat (map g xs)"
  using assms
proof (induction xs arbitrary: k)
  case (Cons x xs)
  then show ?case using Cons.IH[of "Suc k"] by (simp add: upt_conv_Cons del: upt_Suc)
qed simp

lemma indexed_map_Cons:
  assumes "\<And>i x. 0 < i \<Longrightarrow> x \<in> set xs \<Longrightarrow> f (i, x) = g x"
  shows "concat (map f (zip [0..<length (x # xs)] (x # xs))) = f (0, x) @ concat (map g xs)"
  using indexed_map_from[of xs f g "Suc 0"] assms by (simp add: upt_conv_Cons del: upt_Suc)

lemma join_alt: "join sep (x # xs) = x @ concat (map (\<lambda>y. sep @ y) xs)"
proof (induction xs arbitrary: x)
  case (Cons y ys)
  then show ?case using Cons.IH[of y] by simp
qed simp

text \<open>A separator after every element but the last.\<close>

lemma separator_after_from:
  "concat (map (\<lambda>(i, x). h x @ (if i < k + length xs - 1 then sep else [])) (zip [k..<k + length xs] xs))
     = join sep (map h xs)"
proof (induction xs arbitrary: k)
  case (Cons x xs)
  have "[k..<k + length (x # xs)] = k # [Suc k..<Suc k + length xs]"
    by (simp add: upt_conv_Cons del: upt_Suc)
  with Cons.IH[of "Suc k"] show ?case by (cases xs) auto
qed simp

lemma separator_after:
  "concat (map (\<lambda>(i, x). h x @ (if i < length xs - 1 then sep else [])) (zip [0..<length xs] xs))
     = join sep (map h xs)"
  using separator_after_from[of h 0 xs sep] by simp

lemma select_list_eq: "select_list cols = (if cols = [] then ''*'' else join '', '' cols)"
  using separator_after[of id cols "'', ''"] by (simp add: select_list_def)

lemma placeholders_eq: "placeholders n = join '', '' (replicate n ''?'')"
proof -
  have "zip [0..<n] (replicate n (''?'' :: string)) = map (\<lambda>i. (i, ''?'')) [0..<n]"
    by (rule nth_equalityI) simp_all
  moreover have "(i < n - Suc 0) = (Suc i < n)" for i by arith
  ultimately show ?thesis
    using separator_after[of id "replicate n ''?''" "'', ''"] by (simp add: placeholders_def comp_def)
qed

section \<open>The text of the statements\<close>

text \<open>The reference: the condition of a query, with its connectives.\<close>

definition where_text :: "constraint list \<Rightarrow> string" where
  "where_text cs = (case cs of [] \<Rightarrow> [] | c # cs' \<Rightarrow> '' WHERE ('' @ condition c @ '')''
     @ concat (map (\<lambda>c. '' '' @ conj_word c @ '' ('' @ condition c @ '')'') cs'))"

definition page_text :: "int \<Rightarrow> int \<Rightarrow> string" where
  "page_text n sz = '' LIMIT '' @ int_str sz @ '' OFFSET '' @ int_str ((n - 1) * sz)"

definition plain_constraint :: "constraint \<Rightarrow> bool" where
  "plain_constraint c \<longleftrightarrow> conj_word c \<noteq> ''LIMIT''"

lemma plain_where:
  assumes "\<forall>c \<in> set cs. plain_constraint c"
  shows "(if cs = [] then [] else '' WHERE '' @ concat (map query_constraint (zip [0..<length cs] cs)))
    = where_text cs"
proof (cases cs)
  case (Cons c cs')
  have "concat (map query_constraint (zip [0..<length (c # cs')] (c # cs'))) = query_constraint (0, c)
      @ concat (map (\<lambda>c. '' '' @ conj_word c @ '' ('' @ condition c @ '')'') cs')"
    using assms by (intro indexed_map_Cons) (auto simp: Cons query_constraint_def plain_constraint_def)
  then show ?thesis
    using assms by (simp add: Cons where_text_def query_constraint_def plain_constraint_def del: upt_Suc)
qed (simp add: where_text_def)

lemma paged_where:
  assumes "\<forall>c \<in> set cs. plain_constraint c" "cs \<noteq> []"
  shows "'' WHERE '' @ concat (map query_constraint
      (zip [0..<length (cs @ [Constraint_of p ''LIMIT''])] (cs @ [Constraint_of p ''LIMIT'']))) = where_text cs @ p"
proof -
  have "zip [0..<length (cs @ [Constraint_of p ''LIMIT''])] (cs @ [Constraint_of p ''LIMIT''])
      = zip [0..<length cs] cs @ [(length cs, Constraint_of p ''LIMIT'')]"
    by simp
  then show ?thesis
    using plain_where[OF assms(1)] assms(2)
    by (simp add: query_constraint_def Constraint_of_def del: upt_Suc length_append)
qed

lemma change_text:
  assumes "cs = c # d # cs'"
  shows "concat (map change_constraint (zip [0..<length cs] cs))
    = condition c @ condition d @ concat (map (\<lambda>c. '' '' @ conj_word c @ '' '' @ condition c) cs')"
proof -
  have "concat (map change_constraint (zip [Suc 0..<Suc 0 + length (d # cs')] (d # cs')))
     = change_constraint (Suc 0, d) @ concat (map change_constraint (zip [2..<2 + length cs'] cs'))"
    by (simp add: upt_conv_Cons numeral_2_eq_2 del: upt_Suc)
  moreover have "concat (map change_constraint (zip [2..<2 + length cs'] cs'))
     = concat (map (\<lambda>c. '' '' @ conj_word c @ '' '' @ condition c) cs')"
  proof -
    have "concat (map change_constraint (zip [k..<k + length cs'] cs'))
       = concat (map (\<lambda>c. '' '' @ conj_word c @ '' '' @ condition c) cs')" if "2 \<le> k" for k
      using that
    proof (induction cs' arbitrary: k)
      case (Cons x xs)
      then show ?case
        using Cons.IH[of "Suc k"] by (simp add: upt_conv_Cons change_constraint_def del: upt_Suc)
    qed simp
    from this[OF order_refl] show ?thesis .
  qed
  ultimately show ?thesis
    using assms by (simp add: upt_conv_Cons change_constraint_def del: upt_Suc)
qed

lemma update_where:
  "concat (map change_constraint (tl (zip [0..<length (b # cs)] (b # cs))))
    = (case cs of [] \<Rightarrow> [] | c # cs' \<Rightarrow> condition c
        @ concat (map (\<lambda>c. '' '' @ conj_word c @ '' '' @ condition c) cs'))"
proof (cases cs)
  case (Cons c cs')
  show ?thesis
    using change_text[of "b # c # cs'" b c cs'] Cons
    by (simp add: upt_conv_Cons change_constraint_def del: upt_Suc)
qed simp

text \<open>The elements of \<^verbatim>\<open>Update\<close>: names first, then values.\<close>

lemma bindVal_fold_append: "foldl bindVal c (xs @ [x]) = bindVal (foldl bindVal c xs) x"
  by simp

lemma updateColumn_values:
  "length t \<le> 2 * n \<Longrightarrow> n \<le> length t \<Longrightarrow>
   updateColumn fp n t (ss, c) = (ss, foldl bindVal c (drop n t))"
proof (induction fp n t "(ss, c)" arbitrary: ss c rule: updateColumn.induct)
  case (1 fp n t ss c)
  show ?case
  proof (cases "n < length t")
    case True
    then show ?thesis using 1 by (subst updateColumn.simps) (simp add: Cons_nth_drop_Suc[symmetric])
  next
    case False
    then show ?thesis using 1 by (subst updateColumn.simps) simp
  qed
qed

lemma updateColumn_names:
  assumes "0 < n" "n \<le> (length t + 1) div 2"
  shows "updateColumn fp n t (ss, c) = (ss @ concat (map (\<lambda>a. '', '' @ stream fp a @ '' = ?'')
      (drop n (take ((length t + 1) div 2) t))), foldl bindVal c (drop ((length t + 1) div 2) t))"
  using assms
proof (induction "(length t + 1) div 2 - n" arbitrary: n ss)
  case 0
  then have n: "n = (length t + 1) div 2" by simp
  have "length t \<le> 2 * n" "n \<le> length t" using 0 n by linarith+
  then show ?case using updateColumn_values[of t n fp ss c] n by simp
next
  case (Suc k)
  let ?h = "(length t + 1) div 2"
  have n: "n < length t" "\<not> length t \<le> 2 * n" "n < ?h" using Suc by linarith+
  have "drop n (take ?h t) = t ! n # drop (Suc n) (take ?h t)"
    using n Cons_nth_drop_Suc[of n "take ?h t"] by simp
  moreover have "updateColumn fp n t (ss, c) = updateColumn fp (Suc n) t (ss @ '', '' @ stream fp (t ! n) @ '' = ?'', c)"
    using n Suc.prems by (subst updateColumn.simps) simp
  ultimately show ?case using Suc.hyps(1)[of "Suc n"] Suc.hyps(2) Suc.prems n by simp
qed

lemma updateColumn_eq:
  assumes "t \<noteq> []"
  shows "updateColumn fp 0 t (ss, c) =
    (ss @ join '', '' (map (\<lambda>a. stream fp a @ '' = ?'') (take ((length t + 1) div 2) t)),
     foldl bindVal c (drop ((length t + 1) div 2) t))"
proof -
  obtain a as where t: "t = a # as" using assms by (cases t) auto
  have "updateColumn fp 0 t (ss, c) = updateColumn fp 1 t (ss @ stream fp a @ '' = ?'', c)"
    by (subst updateColumn.simps) (simp add: t)
  also have "\<dots> = (ss @ stream fp a @ '' = ?'' @ concat (map (\<lambda>a. '', '' @ stream fp a @ '' = ?'')
      (drop 1 (take ((length t + 1) div 2) t))), foldl bindVal c (drop ((length t + 1) div 2) t))"
    using t by (subst updateColumn_names) auto
  finally show ?thesis
    using t by (cases "(length t + 1) div 2") (simp_all add: join_alt comp_def)
qed

end
