(* ===== verification/Query_Params.thy ===== *)
theory Query_Params
  imports Query_Laws
begin

text \<open>
  The parameters of the statements of \<open>Query\<close>: which values are bound at which position,
  and the properties of whole operations that follow.
\<close>

section \<open>Values as parameters\<close>

fun value_bind :: "(int \<Rightarrow> tm) \<Rightarrow> bind_value \<Rightarrow> my_bind" where
  "value_bind lt (BInt v) = newParam MYSQL_TYPE_LONG (le_bytes 4 (nat (v mod 2 ^ 32))) 4"
| "value_bind lt (BFloat v) = newParam MYSQL_TYPE_FLOAT (le_bytes 4 (unat v)) 4"
| "value_bind lt (BString v) = newParam MYSQL_TYPE_STRING v (length v + 1)"
| "value_bind lt (BConstStr v) = newParam MYSQL_TYPE_STRING v (length v + 1)"
| "value_bind lt (BTime v) = newParam MYSQL_TYPE_TIMESTAMP
     (bytes_of_time (toMysqlTime lt MYSQL_TIMESTAMP_DATETIME v)) 40"
| "value_bind lt v = zero_bind"

definition bindable :: "bind_value \<Rightarrow> bool" where
  "bindable v \<longleftrightarrow> (case v of BDouble _ \<Rightarrow> False | BLongLong _ \<Rightarrow> False | _ \<Rightarrow> True)"

definition tagged :: "string \<times> bind_value \<Rightarrow> bool" where
  "tagged b \<longleftrightarrow> fst b = orm_type (snd b)"

lemma bindVal_tagged: "\<forall>b \<in> set (bindValues c). tagged b \<Longrightarrow> \<forall>b \<in> set (bindValues (bindVal c v)). tagged b"
  by (cases v) (auto simp: tagged_def)

lemma bindVals_tagged: "\<forall>b \<in> set (bindValues c). tagged b \<Longrightarrow> \<forall>b \<in> set (bindValues (foldl bindVal c vs)). tagged b"
proof (induction vs arbitrary: c)
  case (Cons v vs)
  from Cons.IH[OF bindVal_tagged[OF Cons.prems]] show ?case by simp
qed simp

lemma cpp_type_names [simp]:
  "getCppTypeName ''int'' = ''int''" "getCppTypeName ''float'' = ''float''"
  "getCppTypeName ''double'' = ''double''" "getCppTypeName ''long long'' = ''long long''"
  "getCppTypeName ''string'' = ''string''" "getCppTypeName ''const char*'' = ''const char*''"
  "getCppTypeName ''Timestamp'' = ''Timestamp''" "getCppTypeName ''std::string'' = ''string''"
  by code_simp+

definition at_index :: "int \<Rightarrow> my_bind \<Rightarrow> statement \<Rightarrow> statement" where
  "at_index i b s = set_param i b s"

lemma setTime_param: "setTime lt i v MYSQL_TYPE_TIMESTAMP s = Inr (set_param i (value_bind lt (BTime v)) s)"
  by (simp add: setTime_def set_param_def)

lemma bind_param_eq:
  assumes "tagged b"
  shows "bind_param lt b (i, s) =
    Inr (if bindable (snd b) then (i + 1, set_param i (value_bind lt (snd b)) s) else (i, s))"
  using assms
  by (cases b; cases "snd b")
    (simp_all add: tagged_def bind_param_def bindable_def setInt_def setFloat_def setString_def setTime_param
      del: value_bind.simps(5))

lemma rfold_concat: "rfold (\<lambda>c. rfold g (h c)) cs = rfold g (concat (map h cs))"
proof
  fix s
  show "rfold (\<lambda>c. rfold g (h c)) cs s = rfold g (concat (map h cs)) s"
    by (induction cs arbitrary: s) (simp_all add: rfold_append rbind_def split: sum.split)
qed

text \<open>Setting consecutive positions, the next one being \<open>k + 1\<close>.\<close>

lemma set_param_at:
  assumes "length P = st_paramCount s" "k < st_paramCount s"
  shows "set_param (int k + 1) b (s\<lparr>st_paramBind := P\<rparr>) = s\<lparr>st_paramBind := P[k := b]\<rparr>"
  using assms by (simp add: set_param_def isValidParamIndex_def)

lemma bind_params_from:
  assumes "\<forall>b \<in> set bs. tagged b" "length P = st_paramCount s"
    and "k + length (filter (bindable \<circ> snd) bs) \<le> st_paramCount s"
  shows "rfold (bind_param lt) bs (int k + 1, s\<lparr>st_paramBind := P\<rparr>)
    = Inr (int (k + length (filter (bindable \<circ> snd) bs)) + 1,
        s\<lparr>st_paramBind := take k P @ map (value_bind lt \<circ> snd) (filter (bindable \<circ> snd) bs)
           @ drop (k + length (filter (bindable \<circ> snd) bs)) P\<rparr>)"
  using assms
proof (induction bs arbitrary: k P)
  case (Cons b bs)
  show ?case
  proof (cases "bindable (snd b)")
    case True
    then have k: "k < st_paramCount s" using Cons.prems by simp
    have "rfold (bind_param lt) (b # bs) (int k + 1, s\<lparr>st_paramBind := P\<rparr>)
        = rfold (bind_param lt) bs (int (Suc k) + 1, s\<lparr>st_paramBind := P[k := value_bind lt (snd b)]\<rparr>)"
      using True Cons.prems k by (simp add: bind_param_eq set_param_at)
    moreover have "take (Suc k) (P[k := value_bind lt (snd b)]) = take k P @ [value_bind lt (snd b)]"
      using k Cons.prems(2) by (simp add: take_Suc_conv_app_nth)
    ultimately show ?thesis
      using Cons.IH[of "P[k := value_bind lt (snd b)]" "Suc k"] True Cons.prems by simp
  next
    case False
    then show ?thesis using Cons.IH[of P k] Cons.prems by (simp add: bind_param_eq)
  qed
qed simp

definition bound_values :: "constraint list \<Rightarrow> bind_value list" where
  "bound_values cs = map snd (concat (map bindValues cs))"

lemma bindParams_eq:
  assumes "\<forall>c \<in> set cs. \<forall>b \<in> set (bindValues c). tagged b" "statement_invar st"
    and "length (filter bindable (bound_values cs)) \<le> st_paramCount st"
  shows "bindParams lt cs st = Inr (st\<lparr>st_paramBind := map (value_bind lt) (filter bindable (bound_values cs))
     @ drop (length (filter bindable (bound_values cs))) (st_paramBind st)\<rparr>)"
proof -
  define bs where "bs = concat (map bindValues cs)"
  have f: "map snd (filter (bindable \<circ> snd) bs) = filter bindable (bound_values cs)"
    by (simp add: bound_values_def bs_def filter_map comp_def)
  have n: "length (filter (bindable \<circ> snd) bs) = length (filter bindable (bound_values cs))"
    unfolding f[symmetric] by simp
  have g: "map (value_bind lt \<circ> snd) (filter (bindable \<circ> snd) bs)
      = map (value_bind lt) (filter bindable (bound_values cs))"
    unfolding f[symmetric] by simp
  have "rfold (bind_param lt) bs (int 0 + 1, st\<lparr>st_paramBind := st_paramBind st\<rparr>)
    = Inr (int (0 + length (filter (bindable \<circ> snd) bs)) + 1,
        st\<lparr>st_paramBind := take 0 (st_paramBind st) @ map (value_bind lt \<circ> snd) (filter (bindable \<circ> snd) bs)
           @ drop (0 + length (filter (bindable \<circ> snd) bs)) (st_paramBind st)\<rparr>)"
    using assms n by (intro bind_params_from) (auto simp: bs_def statement_invar_def)
  then have "rfold (bind_param lt) bs (1, st) = Inr (int (length (filter bindable (bound_values cs))) + 1,
      st\<lparr>st_paramBind := map (value_bind lt) (filter bindable (bound_values cs))
        @ drop (length (filter bindable (bound_values cs))) (st_paramBind st)\<rparr>)"
    unfolding g n by simp
  then show ?thesis
    by (simp add: bindParams_def rfold_concat bs_def)
qed

lemma prepared_eq:
  "st_paramBind (Statement_new (Inr (rc, n))) = replicate n zero_bind"
  "st_paramCount (Statement_new (Inr (rc, n))) = n"
  by (simp_all add: Statement_new_eq)

section \<open>Inserting an object\<close>

lemma insert_columns_from:
  "fold (\<lambda>f (s, isFirst, cnt). if ignored f then (s, isFirst, cnt)
        else (s @ (if \<not> isFirst then '', '' else []) @ getColumnName f, False, cnt + 1)) flds (s, False, cnt)
   = (s @ concat (map (\<lambda>f. '', '' @ getColumnName f) (filter (\<lambda>f. \<not> ignored f) flds)), False,
      cnt + length (filter (\<lambda>f. \<not> ignored f) flds))"
  by (induction flds arbitrary: s cnt) simp_all

lemma insert_columns_first:
  "(\<lambda>(s, isFirst, cnt). (s, cnt)) (fold (\<lambda>f (s, isFirst, cnt). if ignored f then (s, isFirst, cnt)
        else (s @ (if \<not> isFirst then '', '' else []) @ getColumnName f, False, cnt + 1)) flds ([], True, 0))
   = (join '', '' (map getColumnName (filter (\<lambda>f. \<not> ignored f) flds)), length (filter (\<lambda>f. \<not> ignored f) flds))"
proof (induction flds)
  case (Cons f flds)
  then show ?case
    using insert_columns_from[of flds "getColumnName f" 1]
    by (cases "ignored f") (simp_all add: join_alt comp_def)
qed simp

lemma insert_columns_eq:
  "insert_columns flds = (join '', '' (map getColumnName (filter (\<lambda>f. \<not> ignored f) flds)),
     length (filter (\<lambda>f. \<not> ignored f) flds))"
  using insert_columns_first[of flds] by (simp add: insert_columns_def)

text \<open>The three types of members \<^verbatim>\<open>Create\<close> binds; any other leaves its parameter unset.\<close>

definition member_ok :: "object \<Rightarrow> field_meta \<Rightarrow> bool" where
  "member_ok t f \<longleftrightarrow>
     (if cppType f = ''int'' then \<exists>x. get_member f t = Inr (FInt x)
      else if getCppTypeName (cppType f) = ''string'' then \<exists>x. get_member f t = Inr (FString x)
      else if getCppTypeName (cppType f) = ''Timestamp'' then \<exists>x. get_member f t = Inr (FTime x)
      else True)"

definition has_branch :: "field_meta \<Rightarrow> bool" where
  "has_branch f \<longleftrightarrow> cppType f = ''int'' \<or> getCppTypeName (cppType f) \<in> {''string'', ''Timestamp''}"

definition member_bind :: "(int \<Rightarrow> tm) \<Rightarrow> object \<Rightarrow> field_meta \<Rightarrow> my_bind" where
  "member_bind lt t f =
     (if \<not> has_branch f then zero_bind
      else case get_member f t of
        Inr (FInt x) \<Rightarrow> value_bind lt (BInt x)
      | Inr (FString x) \<Rightarrow> value_bind lt (BString x)
      | Inr (FTime x) \<Rightarrow> value_bind lt (BTime x)
      | Inl e \<Rightarrow> zero_bind)"

lemma bind_member_eq:
  assumes "member_ok t f" "\<not> ignored f"
  shows "bind_member lt t f (i, s) =
    Inr (i + 1, if has_branch f then set_param i (member_bind lt t f) s else s)"
  using assms
  by (auto simp: bind_member_def member_ok_def member_bind_def has_branch_def setInt_def setString_def setTime_param
      split: if_splits simp del: value_bind.simps(5))


definition stored_columns :: "field_meta list \<Rightarrow> field_meta list" where
  "stored_columns flds = filter (\<lambda>f. \<not> ignored f) flds"

lemma bind_members_from:
  assumes "\<forall>f \<in> set (stored_columns flds). member_ok t f" "length xs + m = st_paramCount s"
    and "length (stored_columns flds) \<le> m"
  shows "rfold (bind_member lt t) flds (int (length xs) + 1, s\<lparr>st_paramBind := xs @ replicate m zero_bind\<rparr>)
    = Inr (int (length xs + length (stored_columns flds)) + 1,
        s\<lparr>st_paramBind := xs @ map (member_bind lt t) (stored_columns flds)
           @ replicate (m - length (stored_columns flds)) zero_bind\<rparr>)"
  using assms
proof (induction flds arbitrary: xs m)
  case (Cons f flds)
  show ?case
  proof (cases "ignored f")
    case True
    then show ?thesis using Cons.IH[of xs m] Cons.prems
      by (simp add: stored_columns_def bind_member_def)
  next
    case False
    define b where "b = (if has_branch f then member_bind lt t f else zero_bind)"
    have b: "b = member_bind lt t f" by (simp add: b_def member_bind_def)
    have m: "0 < m" using Cons.prems(3) False by (simp add: stored_columns_def)
    have "(xs @ replicate m zero_bind)[length xs := member_bind lt t f]
        = (xs @ [member_bind lt t f]) @ replicate (m - 1) zero_bind"
      using m by (cases m) (simp_all add: list_update_append)
    moreover have "xs @ replicate m zero_bind = (xs @ [zero_bind]) @ replicate (m - 1) zero_bind"
      using m by (cases m) simp_all
    ultimately have "bind_member lt t f (int (length xs) + 1, s\<lparr>st_paramBind := xs @ replicate m zero_bind\<rparr>)
      = Inr (int (length (xs @ [b])) + 1, s\<lparr>st_paramBind := (xs @ [b]) @ replicate (m - 1) zero_bind\<rparr>)"
      using Cons.prems False m by (simp add: bind_member_eq stored_columns_def set_param_at b_def)
    then show ?thesis
      using Cons.IH[of "xs @ [b]" "m - 1"] Cons.prems False m
      by (simp add: stored_columns_def b)
  qed
qed (simp add: stored_columns_def)

lemma bind_objects_from:
  assumes "\<forall>t \<in> set ts. \<forall>f \<in> set (stored_columns flds). member_ok t f" "length xs + m = st_paramCount s"
    and "length ts * length (stored_columns flds) \<le> m"
  shows "\<exists>n. rfold (\<lambda>t. rfold (bind_member lt t) flds) ts (int (length xs) + 1, s\<lparr>st_paramBind := xs @ replicate m zero_bind\<rparr>)
    = Inr (n, s\<lparr>st_paramBind := xs @ concat (map (\<lambda>t. map (member_bind lt t) (stored_columns flds)) ts)
           @ replicate (m - length ts * length (stored_columns flds)) zero_bind\<rparr>)"
  using assms
proof (induction ts arbitrary: xs m)
  case (Cons t ts)
  let ?n = "length (stored_columns flds)"
  have "?n \<le> m" using Cons.prems(3) by simp
  then have "rfold (bind_member lt t) flds (int (length xs) + 1, s\<lparr>st_paramBind := xs @ replicate m zero_bind\<rparr>)
    = Inr (int (length (xs @ map (member_bind lt t) (stored_columns flds))) + 1,
        s\<lparr>st_paramBind := (xs @ map (member_bind lt t) (stored_columns flds)) @ replicate (m - ?n) zero_bind\<rparr>)"
    using Cons.prems bind_members_from[of flds t xs m s lt] by simp
  with Cons.IH[of "xs @ map (member_bind lt t) (stored_columns flds)" "m - ?n"] Cons.prems \<open>?n \<le> m\<close>
  show ?case by (auto simp: algebra_simps)
qed simp

section \<open>Properties\<close>

text \<open>
  C7: The text of a query: the selected columns (or a star), the table, the conditions in
  parentheses joined by their own connectives, and the page after them.
\<close>

theorem query_text:
  assumes "\<forall>c \<in> set cs. conj_word c \<noteq> ''LIMIT''"
  shows "query_sql table cols cs limit = ''SELECT '' @ (if cols = [] then ''*'' else join '', '' cols)
      @ '' FROM '' @ table @ where_text cs @ (if limit > 0 then '' LIMIT '' @ int_str limit else [])
    \<and> (cs \<noteq> [] \<longrightarrow> query_sql table cols (cs @ [Constraint_of (page_text n sz) ''LIMIT'']) limit
        = ''SELECT '' @ (if cols = [] then ''*'' else join '', '' cols) @ '' FROM '' @ table
          @ where_text cs @ page_text n sz @ (if limit > 0 then '' LIMIT '' @ int_str limit else []))"
  using assms plain_where[of cs] paged_where[of cs "page_text n sz"]
  by (auto simp: query_sql_def select_list_eq plain_constraint_def simp del: upt_Suc length_append)




section \<open>Witnesses\<close>

definition demo_conditions :: "constraint list" where
  "demo_conditions = [Constraint_of ''id = ?'' ''AND'', Constraint_of ''name = ?'' ''OR'']"

theorem query_text_witness:
  "query_sql ''t'' [''id'', ''name''] (demo_conditions @ [Constraint_of (page_text 2 10) ''LIMIT'']) 1
    = ''SELECT id, name FROM t WHERE (id = ?) OR (name = ?)'' @ page_text 2 10 @ '' LIMIT '' @ int_str 1"
  using query_text[of demo_conditions "''t''" "[''id'', ''name'']" 1 2 10]
  by (simp add: demo_conditions_def Constraint_of_def where_text_def)

definition blank_model :: model where
  "blank_model = \<lparr>m_typeid = ''4User'', m_metadata = [], m_indices = [], m_columnToIndex = [],
     m_tableName = Some ''t'', m_selectedColumns = [], m_constraints = [], m_conn_open = True,
     m_rawSql = [], m_status = INIT, m_lost = []\<rparr>"


end
