(* ===== verification/Query_Objects.thy ===== *)
theory Query_Objects
  imports Query_Params
begin

text \<open>
  Objects and whole operations: the statement \<^verbatim>\<open>Create\<close> and \<^verbatim>\<open>Update\<close> run, what each
  operation leaves in the builder, and that the row of an inserted object fills a blank
  object with the same members.
\<close>

section \<open>Running an insert\<close>

definition insert_text :: "string \<Rightarrow> field_meta list \<Rightarrow> nat \<Rightarrow> string" where
  "insert_text table flds n = ''INSERT INTO '' @ table @ ''(''
     @ join '', '' (map getColumnName (stored_columns flds)) @ '') VALUES''
     @ join '', '' (replicate n (''('' @ join '', '' (replicate (length (stored_columns flds)) ''?'') @ '')''))"

lemma new_params: "Statement_new (Inr (rc, n)) = (Statement_new (Inr (rc, n)))\<lparr>st_paramBind := [] @ replicate n zero_bind\<rparr>"
  by (simp add: Statement_new_eq)

lemma separators_before:
  "concat (map (\<lambda>j. (if 0 < j then '', '' else []) @ x) [0..<n]) = join '', '' (replicate n x)"
proof (cases n)
  case (Suc k)
  have "map (\<lambda>j. (if 0 < j then '', '' else []) @ x) [Suc 0..<Suc k] = replicate k ('', '' @ x)"
    by (rule nth_equalityI) (simp_all del: upt_Suc)
  moreover have "map (\<lambda>y. '', '' @ y) (replicate k x) = replicate k ('', '' @ x)" by simp
  ultimately show ?thesis by (simp add: Suc upt_conv_Cons join_alt del: upt_Suc)
qed simp

lemma Create_eq:
  assumes "getTableName m = Inr table" "m_conn_open m"
    and "\<forall>f \<in> set (stored_columns (m_metadata m)). member_ok t f"
    and "db_prepare db (insert_text table (m_metadata m) 1) = Inr (rc, length (stored_columns (m_metadata m)))"
  shows "Create db lt t m = rmap (\<lambda>r. reset m) (run_update db (insert_text table (m_metadata m) 1)
     ((Statement_new (Inr (rc, length (stored_columns (m_metadata m)))))\<lparr>st_paramBind :=
        map (member_bind lt t) (stored_columns (m_metadata m))\<rparr>))"
proof -
  let ?cols = "stored_columns (m_metadata m)"
  have sql: "''INSERT INTO '' @ table @ ''('' @ join '', '' (map getColumnName ?cols) @ '') VALUES(''
      @ placeholders (length ?cols) @ '')'' = insert_text table (m_metadata m) 1"
    by (simp add: insert_text_def placeholders_eq)
  have "rfold (bind_member lt t) (m_metadata m) (1, Statement_new (Inr (rc, length ?cols)))
    = Inr (int (length ?cols) + 1, (Statement_new (Inr (rc, length ?cols)))\<lparr>st_paramBind := map (member_bind lt t) ?cols\<rparr>)"
    using bind_members_from[OF assms(3), of "[]" "length ?cols" "Statement_new (Inr (rc, length ?cols))" lt]
    by (simp add: prepared_eq flip: new_params[unfolded append_Nil])
  then show ?thesis
    using assms(1,2,4)
    by (simp add: Create_def insert_columns_eq stored_columns_def[symmetric] prepareStatement_def
        rmap_def case_prod_beta sql[unfolded append.simps])
qed


lemma Create_all_eq:
  assumes "getTableName m = Inr table" "m_conn_open m"
    and "\<forall>t \<in> set ts. \<forall>f \<in> set (stored_columns (m_metadata m)). member_ok t f"
    and "db_prepare db (insert_text table (m_metadata m) (length ts))
      = Inr (rc, length ts * length (stored_columns (m_metadata m)))"
  shows "Create_all db lt ts m = rmap (\<lambda>r. reset m) (run_update db (insert_text table (m_metadata m) (length ts))
     ((Statement_new (Inr (rc, length ts * length (stored_columns (m_metadata m)))))\<lparr>st_paramBind :=
        concat (map (\<lambda>t. map (member_bind lt t) (stored_columns (m_metadata m))) ts)\<rparr>))"
proof -
  let ?cols = "stored_columns (m_metadata m)"
  let ?n = "length ts * length ?cols"
  have sql: "''INSERT INTO '' @ table @ ''('' @ join '', '' (map getColumnName ?cols) @ '') VALUES''
      @ concat (map (\<lambda>j. (if 0 < j then '', '' else []) @ ''('' @ placeholders (length ?cols) @ '')'') [0..<length ts])
      = insert_text table (m_metadata m) (length ts)"
    by (simp only: insert_text_def placeholders_eq separators_before)
  obtain k where "rfold (\<lambda>t. rfold (bind_member lt t) (m_metadata m)) ts (1, Statement_new (Inr (rc, ?n)))
    = Inr (k, (Statement_new (Inr (rc, ?n)))\<lparr>st_paramBind := concat (map (\<lambda>t. map (member_bind lt t) ?cols) ts)\<rparr>)"
    using bind_objects_from[OF assms(3), of "[]" ?n "Statement_new (Inr (rc, ?n))" lt]
    by (auto simp: prepared_eq simp flip: new_params[unfolded append_Nil])
  then show ?thesis
    using assms(1,2,4)
    by (simp add: Create_all_def insert_columns_eq stored_columns_def[symmetric] prepareStatement_def
        rmap_def case_prod_beta sql[unfolded append.simps])
qed

section \<open>Reading rows into objects\<close>

lemma number_names_distinct:
  assumes "distinct xs"
  shows "number_names xs = zip xs (map int [0..<length xs])"
proof -
  have "fold (\<lambda>(i, c). uput c (int i)) (zip [0..<length xs] xs) []
      = fold (\<lambda>(k, v). uput k v) (zip xs (map int [0..<length xs])) []"
  proof -
    have "zip xs (map int [0..<length xs]) = map (\<lambda>(i, c). (c, int i)) (zip [0..<length xs] xs)"
      by (rule nth_equalityI) simp_all
    then show ?thesis by (simp add: fold_map comp_def case_prod_unfold)
  qed
  then show ?thesis
    unfolding number_names_def using fold_uput_distinct[of "[]" "zip xs (map int [0..<length xs])"] assms by simp
qed

lemma number_names_nth:
  assumes "distinct xs" "i < length xs"
  shows "uget (number_names xs) (xs ! i) = Some (int i)"
  unfolding number_names_distinct[OF assms(1)] uget_def
  using map_of_zip_nth[of xs "map int [0..<length xs]" i] assms by simp

lemma map_of_put_member [simp]: "map_of (put_member off v t) = (map_of t)(off \<mapsto> v)"
  by (induction off v t rule: put_member.induct) auto

text \<open>The current row of \<open>r\<close> has the inserted columns with the parameters of the insert.\<close>

definition shows_object :: "prepared_result \<Rightarrow> field_meta list \<Rightarrow> object \<Rightarrow> bool" where
  "shows_object r cols t \<longleftrightarrow> st_numField (pr_stmt r) = Some (length cols)
     \<and> st_nameToIndex (pr_stmt r) = number_names (map getColumnName cols)
     \<and> st_resBind (pr_stmt r) = map (member_bind localtime_utc t) cols"

definition member_in_range :: "object \<Rightarrow> field_meta \<Rightarrow> bool" where
  "member_in_range t f \<longleftrightarrow> (case get_member f t of
      Inr (FInt x) \<Rightarrow> - (2 ^ 31) \<le> x \<and> x < 2 ^ 31
    | Inr (FTime x) \<Rightarrow> - (2 ^ 62) \<le> x \<and> x < 2 ^ 62
    | _ \<Rightarrow> True)"

lemma column_cell:
  assumes "shows_object r cols t" "distinct (map getColumnName cols)" "j < length cols"
  shows "getRes_name (getColumnName (cols ! j)) (pr_stmt r) = getRes (int j) (pr_stmt r)"
    "shows_bind (pr_stmt r) j (member_bind localtime_utc t (cols ! j))"
  using assms number_names_nth[OF assms(2), of j]
  by (simp_all add: shows_object_def getRes_name_def shows_bind_def)

lemma column_reads:
  assumes "shows_object r cols t" "distinct (map getColumnName cols)" "j < length cols"
    and "member_in_range t (cols ! j)" "has_branch (cols ! j)"
  defines "c \<equiv> getColumnName (cols ! j)" and "v \<equiv> get_member (cols ! j) t"
  shows "v = Inr (FInt x) \<Longrightarrow> rs_getInt c (Prepared_Rows r) = Inr x"
    "v = Inr (FString s) \<Longrightarrow> rs_getString c (Prepared_Rows r) = Inr s"
    "v = Inr (FTime ts) \<Longrightarrow> rs_getTime mktime_utc c (Prepared_Rows r) = Inr ts"
proof -
  note cell = column_cell[OF assms(1-3), folded c_def]
  show "rs_getInt c (Prepared_Rows r) = Inr x" if v: "v = Inr (FInt x)"
  proof -
    have "member_bind localtime_utc t (cols ! j) = newParam MYSQL_TYPE_LONG (le_bytes 4 (nat (x mod 2 ^ 32))) 4"
      using v assms(5) by (simp add: member_bind_def v_def)
    from newParam_res[OF cell(2)[unfolded this]] show ?thesis
      using v assms(4) read_int_param[of x "[]"]
      by (simp add: pr_getInt_name_def cell(1) through_def member_in_range_def v_def)
  qed
  show "rs_getString c (Prepared_Rows r) = Inr s" if v: "v = Inr (FString s)"
  proof -
    have "member_bind localtime_utc t (cols ! j) = newParam MYSQL_TYPE_STRING s (length s + 1)"
      using v assms(5) by (simp add: member_bind_def v_def)
    from newParam_res[OF cell(2)[unfolded this]] show ?thesis
      by (simp add: pr_getString_name_def cell(1) cell_string_def through_def read_bytes_prefix)
  qed
  show "rs_getTime mktime_utc c (Prepared_Rows r) = Inr ts" if v: "v = Inr (FTime ts)"
  proof -
    have "member_bind localtime_utc t (cols ! j) = newParam MYSQL_TYPE_TIMESTAMP
        (bytes_of_time (toMysqlTime localtime_utc MYSQL_TIMESTAMP_DATETIME ts)) 40"
      using v assms(5) by (simp add: member_bind_def v_def)
    from newParam_res[OF cell(2)[unfolded this]] show ?thesis
      using v assms(4) mysql_time_roundtrip[of ts]
      by (simp add: pr_getTime_name_def cell(1) cell_time_def through_def read_time_bytes
          Timestamp_of_mysql_kind member_in_range_def v_def)
  qed
qed

definition copy_member :: "object \<Rightarrow> field_meta \<Rightarrow> object \<Rightarrow> object" where
  "copy_member t f acc =
     (if has_branch f then put_member (the (fieldOffset f)) (projr (get_member f t)) acc else acc)"

lemma fill_column_copies:
  assumes "shows_object r cols t" "distinct (map getColumnName (m_metadata m))"
    and "m_columnToIndex m = number_names (map getColumnName (m_metadata m))"
    and "cols = stored_columns (m_metadata m)" "f \<in> set cols" "fieldOffset f \<noteq> None"
    and "member_ok t f" "member_in_range t f"
  shows "fill_column mktime_utc m (Prepared_Rows r) (getColumnName f) acc = Inr (copy_member t f acc)"
proof -
  obtain j where j: "j < length cols" "f = cols ! j" using assms(5) by (metis in_set_conv_nth)
  obtain i where i: "i < length (m_metadata m)" "f = m_metadata m ! i"
    using assms(4,5) by (metis (no_types, lifting) in_set_conv_nth mem_Collect_eq set_filter stored_columns_def)
  have d: "distinct (map getColumnName cols)"
    using assms(2,4) by (simp add: stored_columns_def distinct_map_filter)
  have look: "uget (m_columnToIndex m) (getColumnName f) = Some (int i)"
    using number_names_nth[OF assms(2), of i] i by (simp add: assms(3))
  note reads = column_reads[OF assms(1) d j(1), folded j(2), OF assms(8)]
  show ?thesis
  proof (cases "has_branch f")
    case True
    note reads = reads[OF True]
    from True assms(7) consider x where "cppType f = ''int''" "get_member f t = Inr (FInt x)"
      | s where "cppType f \<noteq> ''int''" "getCppTypeName (cppType f) = ''string''" "get_member f t = Inr (FString s)"
      | ts where "cppType f \<noteq> ''int''" "getCppTypeName (cppType f) = ''Timestamp''" "get_member f t = Inr (FTime ts)"
      by (auto simp: has_branch_def member_ok_def split: if_splits)
    then show ?thesis
      using look i reads True assms(6)
      by cases (auto simp: fill_column_def copy_member_def set_member_def)
  next
    case False
    then show ?thesis
      using look i by (simp add: fill_column_def copy_member_def has_branch_def)
  qed
qed

lemma copied_members:
  assumes "distinct (map fieldOffset cols)" "\<forall>f \<in> set cols. fieldOffset f \<noteq> None" "f \<in> set cols"
    and "has_branch f" "member_ok t f"
  shows "get_member f (fold (copy_member t) cols acc) = get_member f t"
proof -
  have keep: "map_of (fold (copy_member t) gs acc) off = map_of acc off"
    if "\<forall>g \<in> set gs. fieldOffset g \<noteq> None \<and> fieldOffset g \<noteq> Some off" for gs acc off
    using that by (induction gs arbitrary: acc) (auto simp: copy_member_def)
  obtain xs ys where cols: "cols = xs @ f # ys" using assms(3) by (meson split_list)
  obtain off where off: "fieldOffset f = Some off" using assms(2,3) by blast
  have "fieldOffset f \<notin> set (map fieldOffset ys)" using assms(1) by (simp add: cols)
  then have "\<forall>g \<in> set ys. fieldOffset g \<noteq> None \<and> fieldOffset g \<noteq> Some off"
    using assms(2) off by (force simp: cols)
  then have "map_of (fold (copy_member t) cols acc) off
      = map_of (copy_member t f (fold (copy_member t) xs acc)) off"
    by (simp add: cols keep)
  then have "map_of (fold (copy_member t) cols acc) off = Some (projr (get_member f t))"
    using assms(4) off by (simp add: copy_member_def)
  moreover have "\<exists>v. get_member f t = Inr v"
    using assms(4,5) by (auto simp: has_branch_def member_ok_def split: if_splits)
  ultimately show ?thesis using off by (auto simp: get_member_def)
qed


lemma Update_resets:
  "Update db lt fp args m = Inr (n, m') \<Longrightarrow> \<exists>cs. m' = reset (m\<lparr>m_constraints := cs\<rparr>)"
  by (auto simp: Update_def Let_def case_prod_beta rbind_eq_Inr_iff rmap_eq_Inr_iff)

section \<open>Properties\<close>


text \<open>
  C8: An object written by \<^verbatim>\<open>Create\<close> is read back by \<^verbatim>\<open>fillObject\<close>: from a row that holds
  the parameters of its insert, every stored \<^verbatim>\<open>int\<close>, string and timestamp member of a
  blank object gets the value it had (in UTC).
\<close>

theorem created_object_read_back:
  assumes "m_columnToIndex m = number_names (map getColumnName (m_metadata m))"
    and "distinct (map getColumnName (m_metadata m))"
    and "distinct (map fieldOffset (m_metadata m))" "\<forall>f \<in> set (m_metadata m). fieldOffset f \<noteq> None"
    and "\<forall>f \<in> set (stored_columns (m_metadata m)). member_ok t f \<and> member_in_range t f"
    and "shows_object r (stored_columns (m_metadata m)) t"
  shows "\<exists>t'. fillObject mktime_utc m (Prepared_Rows r)
       (map getColumnName (stored_columns (m_metadata m))) blank = Inr t'
     \<and> (\<forall>f \<in> set (stored_columns (m_metadata m)). has_branch f \<longrightarrow> get_member f t' = get_member f t)"
proof -
  let ?cols = "stored_columns (m_metadata m)"
  have sub: "set ?cols \<subseteq> set (m_metadata m)" by (auto simp: stored_columns_def)
  have fill: "fill_column mktime_utc m (Prepared_Rows r) (getColumnName f) acc = Inr (copy_member t f acc)"
    if "f \<in> set ?cols" for f acc
    using that sub assms(4,5) by (intro fill_column_copies[OF assms(6,2,1) refl]) auto
  have "rfold (fill_column mktime_utc m (Prepared_Rows r)) (map getColumnName fs) acc = Inr (fold (copy_member t) fs acc)"
    if "set fs \<subseteq> set ?cols" for fs acc
    using that by (induction fs arbitrary: acc) (simp_all add: fill)
  then have "fillObject mktime_utc m (Prepared_Rows r) (map getColumnName ?cols) blank
      = Inr (fold (copy_member t) ?cols blank)"
    by (simp add: fillObject_def)
  moreover have "distinct (map fieldOffset ?cols)"
    using assms(3) by (simp add: stored_columns_def distinct_map_filter)
  then have "get_member f (fold (copy_member t) ?cols blank) = get_member f t" if "f \<in> set ?cols" "has_branch f" for f
    using copied_members[of ?cols f t blank] that sub assms(4,5) by auto
  ultimately show ?thesis by blast
qed




section \<open>Witnesses\<close>

definition demo_user :: "field_meta list" where
  "demo_user =
     [FieldMeta_default\<lparr>fieldName := ''id'', cppType := ''int'', columnName := Some ''id'', fieldOffset := Some 0\<rparr>,
      FieldMeta_default\<lparr>fieldName := ''name'', cppType := ''std::string'', columnName := Some ''name'',
        fieldOffset := Some 8\<rparr>]"

definition demo_model :: model where
  "demo_model = \<lparr>m_typeid = ''4User'', m_metadata = demo_user, m_indices = [],
     m_columnToIndex = [(''id'', 0), (''name'', 1)], m_tableName = Some ''t'', m_selectedColumns = [],
     m_constraints = [], m_conn_open = True, m_rawSql = [], m_status = INIT, m_lost = []\<rparr>"

definition demo_object :: object where
  "demo_object = [(0, FInt 7), (8, FString ''Ann'')]"

definition demo_db :: dbms where
  "demo_db = \<lparr>db_prepare = (\<lambda>sql. Inr ([], length (filter (\<lambda>c. c = CHR ''?'') sql))),
     db_run = (\<lambda>sql ps. \<lparr>sv_bind_param = None, sv_execute = None, sv_bind_result = None,
       sv_store_result = None, sv_rows = [], sv_affected = 1\<rparr>)\<rparr>"

lemmas demo_model_defs = demo_model_def demo_user_def FieldMeta_default_def getColumnName_def
  stored_columns_def demo_object_def member_ok_def get_member_def member_in_range_def has_branch_def

lemma demo_columns_stored: "stored_columns (m_metadata demo_model) = demo_user"
  by (simp add: demo_model_defs)

lemma demo_table: "getTableName demo_model = Inr ''t''"
proof -
  have "getClassName ''4User'' = Inr ''User''" by code_simp
  then show ?thesis by (simp add: getTableName_def getDefaultTableName_def demo_model_def)
qed

lemma demo_members: "\<forall>f \<in> set demo_user. member_ok demo_object f \<and> member_in_range demo_object f"
  by (simp add: demo_model_defs)

lemma demo_run_update: "st_open st \<Longrightarrow> run_update demo_db sql st = Inr (1, st)"
  by (simp add: run_update_def stmt_executeUpdate_def demo_db_def stop_cases)

lemma demo_open: "m_conn_open demo_model" "reset demo_model = demo_model"
  by (simp_all add: demo_model_def reset_def)

lemma demo_insert:
  "db_prepare demo_db (insert_text ''t'' (m_metadata demo_model) 1) = Inr ([], length demo_user)"
  "db_prepare demo_db (insert_text ''t'' (m_metadata demo_model) 0) = Inr ([], 0)"
  unfolding insert_text_def demo_columns_stored
  by (simp_all add: demo_db_def demo_user_def getColumnName_def numeral_2_eq_2)


theorem created_object_witness:
  "\<exists>t'. fillObject mktime_utc demo_model (Prepared_Rows (PreparedResult_new
        ((Statement_new (Inr ([\<lparr>cm_name = ''id'', cm_length = 11, cm_type = MYSQL_TYPE_LONG\<rparr>,
           \<lparr>cm_name = ''name'', cm_length = 50, cm_type = MYSQL_TYPE_VAR_STRING\<rparr>], 0)))
          \<lparr>st_resBind := map (member_bind localtime_utc demo_object) demo_user\<rparr>) 1)) [''id'', ''name''] [] = Inr t'
     \<and> get_member (hd demo_user) t' = Inr (FInt 7)"
proof -
  let ?r = "PreparedResult_new
        ((Statement_new (Inr ([\<lparr>cm_name = ''id'', cm_length = 11, cm_type = MYSQL_TYPE_LONG\<rparr>,
           \<lparr>cm_name = ''name'', cm_length = 50, cm_type = MYSQL_TYPE_VAR_STRING\<rparr>], 0)))
          \<lparr>st_resBind := map (member_bind localtime_utc demo_object) demo_user\<rparr>) 1"
  have "shows_object ?r (stored_columns (m_metadata demo_model)) demo_object"
    unfolding demo_columns_stored
    by (simp add: shows_object_def PreparedResult_new_def Statement_new_eq number_names_def)
      (simp add: demo_user_def getColumnName_def)
  moreover have "m_columnToIndex demo_model = number_names (map getColumnName (m_metadata demo_model))"
    by (simp add: demo_model_def demo_user_def getColumnName_def number_names_def)
  ultimately show ?thesis
    using created_object_read_back[of demo_model demo_object ?r "[]"] demo_members
    unfolding demo_columns_stored by (auto simp: demo_model_defs)
qed



end
