(* ===== verification/Sql_Conn.thy ===== *)
theory Sql_Conn
  imports Results
begin

text \<open>
  \<^verbatim>\<open>mysql4cpp/sqlconn.cpp\<close> and \<^verbatim>\<open>databasemetadata.cpp\<close>: the owner of one MySQL handle, its
  moves, and what it sends over the handle. The answers of the MySQL C API are arguments;
  calling it with a null handle is undefined. \<open>c_id\<close> is \<open>None\<close> while the member is
  uninitialised; \<open>c_pool\<close> tells whether the pointer to the pool is set.
\<close>

text \<open>A connected \<^verbatim>\<open>MYSQL\<close> object: its identity and what it was connected to.\<close>

record mysql =
  h_id :: nat
  h_host :: string
  h_user :: string
  h_password :: string
  h_port :: int
  h_schema :: string

record sqlconn =
  c_handle :: "mysql option"
  c_error :: string
  c_id :: "int option"
  c_pool :: bool

section \<open>Construction and moves\<close>

definition SqlConn_default :: sqlconn where
  "SqlConn_default = \<lparr>c_handle = None, c_error = [], c_id = None, c_pool = False\<rparr>"

text \<open>\<open>gid\<close> is the static \<^verbatim>\<open>globalId\<close>, a 32-bit \<^verbatim>\<open>int\<close> that is counted up under its mutex.\<close>

definition SqlConn_new :: "mysql option \<Rightarrow> bool \<Rightarrow> int \<Rightarrow> (sqlconn \<times> int) res" where
  "SqlConn_new mysql pool gid =
     rmap (Pair \<lparr>c_handle = mysql, c_error = [], c_id = Some gid, c_pool = pool\<rparr>) (i32 (gid + 1))"

definition moved_from :: "sqlconn \<Rightarrow> sqlconn" where
  "moved_from c = c\<lparr>c_handle := None, c_pool := False\<rparr>"

text \<open>The new object and what is left of the old one.\<close>

definition SqlConn_move :: "sqlconn \<Rightarrow> sqlconn \<times> sqlconn" where
  "SqlConn_move conn = (conn, moved_from conn)"

text \<open>
  Assignment of a moved object to another one: the target, the source, and the handle that
  the target owned before, which its \<^verbatim>\<open>unique_ptr\<close> closes.
\<close>

definition SqlConn_assign :: "sqlconn \<Rightarrow> sqlconn \<Rightarrow> sqlconn \<times> sqlconn \<times> mysql option" where
  "SqlConn_assign this conn =
     (\<lparr>c_handle = c_handle conn, c_error = c_error conn, c_id = c_id conn, c_pool = c_pool conn\<rparr>,
      moved_from conn, c_handle this)"

section \<open>Members\<close>

definition getId :: "sqlconn \<Rightarrow> int res" where
  "getId c = (case c_id c of Some i \<Rightarrow> Inr i | None \<Rightarrow> Inl UB)"

definition isOpen :: "sqlconn \<Rightarrow> bool" where
  "isOpen c \<longleftrightarrow> c_handle c \<noteq> None"

text \<open>\<open>err\<close> is the text \<^verbatim>\<open>mysql_error\<close> gives for the handle.\<close>

definition setInternalError :: "string \<Rightarrow> sqlconn \<Rightarrow> sqlconn" where
  "setInternalError err c = c\<lparr>c_error := err\<rparr>"

definition setError :: "string \<Rightarrow> sqlconn \<Rightarrow> sqlconn" where
  "setError err c = c\<lparr>c_error := err\<rparr>"

definition getError :: "sqlconn \<Rightarrow> string" where
  "getError c = c_error c"

definition with_handle :: "(mysql \<Rightarrow> 'a) \<Rightarrow> sqlconn \<Rightarrow> 'a res" where
  "with_handle f c = (case c_handle c of None \<Rightarrow> Inl UB | Some h \<Rightarrow> Inr (f h))"

section \<open>Statements over the connection\<close>

text \<open>
  What \<^verbatim>\<open>mysql_store_result\<close> gives after a text was sent: nothing (after an error, or a text
  without a result), or columns and rows.
\<close>

type_synonym text_answer = "(column_meta list \<times> text_row list) option"

definition conn_executeQuery :: "(string \<Rightarrow> text_answer) \<Rightarrow> string \<Rightarrow> sqlconn \<Rightarrow> result_set res" where
  "conn_executeQuery answer sql =
     with_handle (\<lambda>h. case answer sql of
        None \<Rightarrow> Invalid
      | Some (cols, rows) \<Rightarrow> Sql_Rows (SqlResult_new cols rows))"

text \<open>The result is that of \<^verbatim>\<open>mysql_affected_rows\<close>.\<close>

definition conn_executeUpdate :: "(string \<Rightarrow> 64 word) \<Rightarrow> string \<Rightarrow> sqlconn \<Rightarrow> 64 word res" where
  "conn_executeUpdate answer sql = with_handle (\<lambda>h. answer sql)"

text \<open>\<open>failed\<close> is the answer of the C function: not zero.\<close>

definition setAutocommit :: "(bool \<Rightarrow> bool) \<Rightarrow> bool \<Rightarrow> sqlconn \<Rightarrow> bool res" where
  "setAutocommit failed mode = with_handle (\<lambda>h. if failed mode then False else True)"

definition commit :: "bool \<Rightarrow> sqlconn \<Rightarrow> bool res" where
  "commit failed = with_handle (\<lambda>h. if failed then False else True)"

definition rollback :: "bool \<Rightarrow> sqlconn \<Rightarrow> bool res" where
  "rollback failed = with_handle (\<lambda>h. if failed then False else True)"

text \<open>
  \<^verbatim>\<open>testConn\<close> reads the first cell of the first row through raw pointers: a missing result,
  row or value is a null pointer, which the \<^verbatim>\<open>catch\<close> around it does not see.
\<close>

fun first_cell :: "text_row list option \<Rightarrow> string res" where
  "first_cell (Some ((Some s # _) # _)) = Inr s"
| "first_cell _ = Inl UB"

definition testConn :: "text_row list option \<Rightarrow> int \<Rightarrow> sqlconn \<Rightarrow> bool res" where
  "testConn rows expect c =
     rbind (with_handle (\<lambda>h. rows) c) (\<lambda>rows.
     rbind (first_cell rows) (\<lambda>s. rmap (\<lambda>val. val = expect) (ato i32 s)))"

section \<open>Reading the information schema\<close>

text \<open>The texts of \<^verbatim>\<open>getTables\<close>, \<^verbatim>\<open>getColumns\<close> and \<^verbatim>\<open>getIndices\<close>; patterns go in unescaped.\<close>

definition select_clause :: "string list \<Rightarrow> string" where
  "select_clause sel = ''SELECT '' @ (if length sel = 0 then ''*''
     else concat (map (\<lambda>(i, c). (if i > 0 then '', '' else []) @ c) (zip [0..<length sel] sel)))"

definition tables_sql :: "string \<Rightarrow> string \<Rightarrow> string list \<Rightarrow> string" where
  "tables_sql schema table sel = select_clause sel
     @ '' FROM TABLES WHERE TABLE_SCHEMA LIKE '' @ [char_of (39::nat)] @ schema @ [char_of (39::nat)]
     @ '' AND TABLE_NAME LIKE '' @ [char_of (39::nat)] @ table @ [char_of (39::nat)]"

definition columns_sql :: "string \<Rightarrow> string \<Rightarrow> string \<Rightarrow> string list \<Rightarrow> string" where
  "columns_sql schema table column sel = select_clause sel
     @ '' FROM COLUMNS WHERE TABLE_SCHEMA LIKE '' @ [char_of (39::nat)] @ schema @ [char_of (39::nat)]
     @ '' AND TABLE_NAME LIKE '' @ [char_of (39::nat)] @ table @ [char_of (39::nat)]
     @ '' AND COLUMN_NAME LIKE '' @ [char_of (39::nat)] @ column @ [char_of (39::nat)]"

definition indices_sql :: "string \<Rightarrow> string \<Rightarrow> string list \<Rightarrow> string" where
  "indices_sql schema table sel = select_clause sel
     @ '' FROM STATISTICS WHERE TABLE_SCHEMA LIKE '' @ [char_of (39::nat)] @ schema @ [char_of (39::nat)]
     @ '' AND TABLE_NAME LIKE '' @ [char_of (39::nat)] @ table @ [char_of (39::nat)]"

text \<open>\<^verbatim>\<open>DatabaseMetadata\<close> is its connection.\<close>

definition getTables :: "(string \<Rightarrow> text_answer) \<Rightarrow> string \<Rightarrow> string \<Rightarrow> string list \<Rightarrow> sqlconn \<Rightarrow> result_set res" where
  "getTables answer schema table sel = conn_executeQuery answer (tables_sql schema table sel)"

definition getColumns :: "(string \<Rightarrow> text_answer) \<Rightarrow> string \<Rightarrow> string \<Rightarrow> string \<Rightarrow> string list \<Rightarrow> sqlconn
    \<Rightarrow> result_set res" where
  "getColumns answer schema table column sel = conn_executeQuery answer (columns_sql schema table column sel)"

definition getIndices :: "(string \<Rightarrow> text_answer) \<Rightarrow> string \<Rightarrow> string \<Rightarrow> string list \<Rightarrow> sqlconn \<Rightarrow> result_set res" where
  "getIndices answer schema table sel = conn_executeQuery answer (indices_sql schema table sel)"

section \<open>Facts\<close>

lemma with_handle_eq_Inr: "with_handle f c = Inr x \<longleftrightarrow> (\<exists>h. c_handle c = Some h \<and> x = f h)"
  by (auto simp: with_handle_def split: option.splits)

lemma with_handle_open [simp]: "c_handle c = Some h \<Longrightarrow> with_handle f c = Inr (f h)"
  by (simp add: with_handle_def)

lemma with_handle_null [simp]: "c_handle c = None \<Longrightarrow> with_handle f c = Inl UB"
  by (simp add: with_handle_def)

lemma moved_from_simps [simp]:
  "c_handle (moved_from c) = None" "c_pool (moved_from c) = False" "c_id (moved_from c) = c_id c"
  "c_error (moved_from c) = c_error c"
  by (simp_all add: moved_from_def)

lemma SqlConn_assign_eq: "SqlConn_assign this conn = (conn, moved_from conn, c_handle this)"
  by (simp add: SqlConn_assign_def)

lemma SqlConn_new_eq_Inr:
  "SqlConn_new h p gid = Inr (c, gid') \<longleftrightarrow> i32 (gid + 1) = Inr gid'
     \<and> c = \<lparr>c_handle = h, c_error = [], c_id = Some gid, c_pool = p\<rparr>"
  by (auto simp: SqlConn_new_def rmap_eq_Inr_iff)

lemma select_clause_join: "select_clause sel = ''SELECT '' @ (if sel = [] then ''*'' else join '', '' sel)"
proof -
  have *: "concat (map (\<lambda>(i, c). (if i > 0 then '', '' else []) @ c) (zip [Suc n..<Suc n + length cs] cs))
      = concat (map (\<lambda>c. '', '' @ c) cs)" for n cs
  proof (induction cs arbitrary: n)
    case (Cons c cs)
    then show ?case by (simp add: upt_rec[of "Suc n"] del: upt_Suc) (metis add_Suc)
  qed simp
  have j: "join '', '' (c # cs) = c @ concat (map (\<lambda>c. '', '' @ c) cs)" for c cs
    by (induction cs arbitrary: c) simp_all
  show ?thesis
  proof (cases sel)
    case (Cons c cs)
    have "concat (map (\<lambda>(i, c). (if i > 0 then '', '' else []) @ c) (zip [0..<length sel] sel))
        = c @ concat (map (\<lambda>c. '', '' @ c) cs)"
      using *[of 0 cs] by (simp add: Cons upt_rec[of 0] del: upt_Suc)
    then show ?thesis by (simp add: select_clause_def Cons j)
  qed (simp add: select_clause_def)
qed

end
