(* ===== verification/Pool.thy ===== *)
theory Pool
  imports Sql_Conn
begin

text \<open>
  \<^verbatim>\<open>mysql4cpp/connectionpool.cpp\<close>: the pool of connections, with the static counter of
  \<^verbatim>\<open>SqlConn\<close>. Every operation runs under the mutex of the pool except for the wait in
  \<^verbatim>\<open>getConn\<close>, which releases it; the code between two waits is one atomic step, and threads
  interleave at the waits.
\<close>

section \<open>State\<close>

record settings =
  p_host :: string
  p_username :: string
  p_password :: string
  p_port :: int
  p_db :: string
  poolSize :: int
  maxWait :: int
  maxRetry :: int
  waitInterval :: int
  testOnBorrow :: bool
  testSql :: string

text \<open>
  \<open>p_settings\<close> is \<open>None\<close> before \<^verbatim>\<open>configure\<close>. The two \<^verbatim>\<open>unordered_set\<close>s are lists
  without repetitions; which element \<^verbatim>\<open>begin()\<close> gives is an argument where it matters.
\<close>

record conn_pool =
  p_settings :: "settings option"
  idle :: "int list"
  used :: "int list"
  connections :: "int \<Rightarrow> sqlconn option"

definition ConnectionPool_new :: conn_pool where
  "ConnectionPool_new = \<lparr>p_settings = None, idle = [], used = [], connections = Map.empty\<rparr>"

text \<open>\<open>waitInterval\<close> is a C quotient: dividing by zero is undefined.\<close>

definition configure :: "string \<Rightarrow> string \<Rightarrow> string \<Rightarrow> int \<Rightarrow> string \<Rightarrow> int \<Rightarrow> int \<Rightarrow> int \<Rightarrow> bool \<Rightarrow> string
    \<Rightarrow> conn_pool \<Rightarrow> conn_pool res" where
  "configure host username password port db sz wait retry test sql p =
     (if retry = 0 then Inl UB
      else rmap (\<lambda>q. p\<lparr>p_settings := Some \<lparr>p_host = host, p_username = username, p_password = password,
             p_port = port, p_db = db, poolSize = sz, maxWait = wait, maxRetry = retry,
             waitInterval = q, testOnBorrow = test, testSql = sql\<rparr>\<rparr>) (i32 (cdiv wait retry)))"

definition pool_get :: "(settings \<Rightarrow> 'a) \<Rightarrow> conn_pool \<Rightarrow> 'a res" where
  "pool_get f p = (case p_settings p of Some s \<Rightarrow> Inr (f s) | None \<Rightarrow> Inl UB)"

definition getHost :: "conn_pool \<Rightarrow> string res" where "getHost = pool_get p_host"
definition getUsername :: "conn_pool \<Rightarrow> string res" where "getUsername = pool_get p_username"
definition getPassword :: "conn_pool \<Rightarrow> string res" where "getPassword = pool_get p_password"
definition getPort :: "conn_pool \<Rightarrow> int res" where "getPort = pool_get p_port"

section \<open>Borrowing a connection\<close>

text \<open>
  The answers to a new connection: whether \<^verbatim>\<open>mysql_real_connect\<close> succeeds, the result of
  the test query, and the text \<^verbatim>\<open>mysql_error\<close> gives for a null handle.
\<close>

record answers =
  an_connects :: bool
  an_test :: "text_row list option"
  an_error :: string

definition handle_of :: "settings \<Rightarrow> nat \<Rightarrow> mysql" where
  "handle_of s h = \<lparr>h_id = h, h_host = p_host s, h_user = p_username s, h_password = p_password s,
     h_port = p_port s, h_schema = p_db s\<rparr>"

text \<open>\<open>h\<close> is the identity of the \<^verbatim>\<open>new MYSQL\<close>. A failed connection takes an id all the same.\<close>

definition newConnection :: "answers \<Rightarrow> nat \<Rightarrow> settings \<Rightarrow> int \<Rightarrow> (sqlconn \<times> int) res" where
  "newConnection an h s gid =
     (if \<not> an_connects an
      then rmap (\<lambda>(c, g). (setInternalError (an_error an) c, g)) (SqlConn_new None False gid)
      else SqlConn_new (Some (handle_of s h)) True gid)"

definition total :: "conn_pool \<Rightarrow> int" where
  "total p = int (length (idle p)) + int (length (used p))"

text \<open>The condition of the loop, with \<^verbatim>\<open>total\<close> recomputed since the last wait.\<close>

definition must_wait :: "settings \<Rightarrow> int \<Rightarrow> conn_pool \<Rightarrow> bool" where
  "must_wait s i p \<longleftrightarrow> i < maxRetry s \<and> length (idle p) = 0 \<and> total p = poolSize s"

text \<open>What follows the loop. \<open>pick\<close> is \<^verbatim>\<open>begin()\<close> of the idle set.\<close>

definition take_conn :: "answers \<Rightarrow> nat \<Rightarrow> (int list \<Rightarrow> int) \<Rightarrow> settings \<Rightarrow> conn_pool \<Rightarrow> int
    \<Rightarrow> (sqlconn \<times> conn_pool \<times> int) res" where
  "take_conn an h pick s p gid =
     (if length (idle p) > 0 then
        let connId = pick (idle p)
        in case connections p connId of
             None \<Rightarrow> Inl Out_Of_Range
           | Some c \<Rightarrow>
               let conn = fst (SqlConn_move c)
               in Inr (conn, p\<lparr>idle := removeAll connId (idle p), connections := (connections p)(connId := None),
                       used := List.insert connId (used p)\<rparr>, gid)
      else if total p < poolSize s then
        rbind (newConnection an h s gid) (\<lambda>(conn, gid).
          if \<not> isOpen conn then Inr (conn, p, gid)
          else rbind (if testOnBorrow s then testConn (an_test an) 1 conn else Inr True) (\<lambda>ok.
            if \<not> ok then Inr (setError ''sql test fail'' conn, p, gid)
            else rmap (\<lambda>i. (conn, p\<lparr>used := List.insert i (used p)\<rparr>, gid)) (getId conn)))
      else
        rmap (\<lambda>(invalid, gid). (setError ''failed to create new connection'' invalid, p, gid))
          (SqlConn_new None False gid))"

text \<open>
  One atomic stretch of \<^verbatim>\<open>getConn\<close>, from the test of the loop condition with counter \<open>i\<close>: it
  either waits, or returns.
\<close>

definition get_stretch :: "answers \<Rightarrow> nat \<Rightarrow> (int list \<Rightarrow> int) \<Rightarrow> settings \<Rightarrow> int \<Rightarrow> conn_pool \<Rightarrow> int
    \<Rightarrow> (sqlconn \<times> conn_pool \<times> int) option res" where
  "get_stretch an h pick s i p gid =
     (if must_wait s i p then Inr None else rmap Some (take_conn an h pick s p gid))"

text \<open>
  A whole call, by the pool as the thread finds it each time it holds the mutex: \<open>seen i\<close>
  after \<open>i\<close> waits, with the counter of the ids. The result comes with the number of waits.
\<close>

function get_loop :: "answers \<Rightarrow> nat \<Rightarrow> (int list \<Rightarrow> int) \<Rightarrow> settings \<Rightarrow> (int \<Rightarrow> conn_pool \<times> int) \<Rightarrow> int
    \<Rightarrow> (int \<times> sqlconn \<times> conn_pool \<times> int) res" where
  "get_loop an h pick s seen i =
     (if must_wait s i (fst (seen i)) then get_loop an h pick s seen (i + 1)
      else rmap (Pair i) (take_conn an h pick s (fst (seen i)) (snd (seen i))))"
  by pat_completeness auto
termination
  by (relation "measure (\<lambda>(an, h, pick, s, seen, i). nat (maxRetry s - i))") (auto simp: must_wait_def)

declare get_loop.simps [simp del]

definition getConn :: "answers \<Rightarrow> nat \<Rightarrow> (int list \<Rightarrow> int) \<Rightarrow> (int \<Rightarrow> conn_pool \<times> int)
    \<Rightarrow> (int \<times> sqlconn \<times> conn_pool \<times> int) res" where
  "getConn an h pick seen =
     (case p_settings (fst (seen 0)) of
        None \<Rightarrow> Inl UB
      | Some s \<Rightarrow> get_loop an h pick s seen 0)"

section \<open>Returning a connection\<close>

text \<open>The pool, what is left of the caller's object, and a handle that is closed.\<close>

definition releaseConn :: "sqlconn \<Rightarrow> conn_pool \<Rightarrow> (conn_pool \<times> sqlconn \<times> mysql option) res" where
  "releaseConn conn p =
     rbind (getId conn) (\<lambda>i.
       if i \<notin> set (used p) then Inr (p, conn, None)
       else let slot = (case connections p i of Some c \<Rightarrow> c | None \<Rightarrow> SqlConn_default);
                (slot, conn, closed) = SqlConn_assign slot conn
            in Inr (p\<lparr>connections := (connections p)(i \<mapsto> slot), used := removeAll i (used p),
                      idle := List.insert i (idle p)\<rparr>, conn, closed))"

definition SqlConn_close :: "sqlconn \<Rightarrow> conn_pool \<Rightarrow> (conn_pool \<times> sqlconn \<times> mysql option) res" where
  "SqlConn_close conn p = (if c_pool conn then releaseConn conn p else Inr (p, conn, None))"

text \<open>
  \<^verbatim>\<open>SqlConn::getMetadata\<close>: a connection of its own to the information schema, outside the
  pool. It reads the settings through the pool pointer, which may be null.
\<close>

definition getMetadata :: "bool \<Rightarrow> nat \<Rightarrow> conn_pool \<Rightarrow> sqlconn \<Rightarrow> int \<Rightarrow> (sqlconn \<times> int) res" where
  "getMetadata connects h p c gid =
     (if \<not> c_pool c then Inl UB
      else rbind (getHost p) (\<lambda>host. rbind (getUsername p) (\<lambda>user.
           rbind (getPassword p) (\<lambda>password. rbind (getPort p) (\<lambda>port.
             if \<not> connects then SqlConn_new None False gid
             else SqlConn_new (Some \<lparr>h_id = h, h_host = host, h_user = user, h_password = password,
                    h_port = port, h_schema = ''information_schema''\<rparr>) False gid)))))"

end
