(* ===== verification/Schema_Load.thy ===== *)
theory Schema_Load
  imports Pool Datatypes
begin

text \<open>
  \<^verbatim>\<open>DataLoader::loadFromDB\<close> of \<^verbatim>\<open>tinyorm/dataloader.h\<close>: the columns and the indices of a
  table read from the information schema. The answers of the schema are an argument; what
  they look like when they describe a table is \<open>describes\<close>.
\<close>

section \<open>The two loops\<close>

text \<open>The reference parameters: columns, indices, numbering of the columns.\<close>

type_synonym db_params = "field_meta list \<times> index_info umap \<times> int umap"

definition column_row :: "json \<Rightarrow> sql_result \<Rightarrow> field_meta list \<times> int umap \<times> int
    \<Rightarrow> (field_meta list \<times> int umap \<times> int) res" where
  "column_row conf r st = (case st of (flds, nameToIndex, index) \<Rightarrow>
     rbind (sq_getString_name ''COLUMN_NAME'' r) (\<lambda>name.
     rbind (sq_getString_name ''COLUMN_TYPE'' r) (\<lambda>type.
     rbind (sq_getString_name ''IS_NULLABLE'' r) (\<lambda>nullable.
     rbind (sq_getString_name ''COLUMN_DEFAULT'' r) (\<lambda>dflt.
     rbind (sq_getString_name ''EXTRA'' r) (\<lambda>ext.
       let field = FieldMeta_default\<lparr>columnName := Some name, fieldName := dbToCpp name False,
             columnType := Some type, cppType := dbTypeToCppType conf type,
             notNull := (nullable = ''NO''), defaultVal := dflt, extra := ext\<rparr>;
           field = (if extra field = ''auto_increment'' then field\<lparr>autoInc := True, extra := []\<rparr> else field)
       in Inr (flds @ [fst (FieldMeta_move field)], uput name index nameToIndex, index + 1)))))))"

text \<open>
  The primary key marks its first column, looked up by \<^verbatim>\<open>operator[]\<close>, which enters 0 for a
  name it does not know.
\<close>

definition index_row :: "sql_result \<Rightarrow> db_params \<Rightarrow> db_params res" where
  "index_row r st = (case st of (flds, indices, nameToIndex) \<Rightarrow>
     rbind (sq_getString_name ''INDEX_NAME'' r) (\<lambda>name.
     rbind (sq_getString_name ''COLUMN_NAME'' r) (\<lambda>col.
       case uget indices name of
         Some ind \<Rightarrow> Inr (flds, uput name (ind\<lparr>ix_columns := ix_columns ind @ [col]\<rparr>) indices, nameToIndex)
       | None \<Rightarrow>
           let ind = Index_default\<lparr>ix_name := name, ix_columns := [col]\<rparr>
           in if name = ''PRIMARY'' then
                let i = (case uget nameToIndex col of Some i \<Rightarrow> i | None \<Rightarrow> 0)
                in if nat i \<ge> length flds then Inl UB
                   else Inr (flds[nat i := (flds ! nat i)\<lparr>isPk := True\<rparr>],
                             uput name (ind\<lparr>ix_type := INDEX_TYPE_PRI\<rparr>) indices, uput col i nameToIndex)
              else rmap (\<lambda>nu. (flds, uput name (ind\<lparr>ix_type :=
                     (if nu = 1 then INDEX_TYPE_MUL else INDEX_TYPE_UNI)\<rparr>) indices, nameToIndex))
                   (sq_getLong_name ''NON_UNIQUE'' r))))"

text \<open>
  The result set of an information schema query, and the loop over it. A result of a
  prepared statement does not occur here.
\<close>

fun rs_loop :: "(sql_result \<Rightarrow> 'a \<Rightarrow> 'a res) \<Rightarrow> 'a \<Rightarrow> result_set \<Rightarrow> 'a res option" where
  "rs_loop body a (Sql_Rows r) = map_option (rmap snd) (fetch_loop sq_hasNext sq_next body r a)"
| "rs_loop body a _ = Some (Inl UB)"

definition column_select :: "string list" where
  "column_select = [''COLUMN_NAME'', ''COLUMN_TYPE'', ''IS_NULLABLE'', ''COLUMN_DEFAULT'', ''EXTRA'']"

definition index_select :: "string list" where
  "index_select = [''INDEX_NAME'', ''NON_UNIQUE'', ''COLUMN_NAME'']"

text \<open>\<open>meta\<close> is the connection to the information schema that \<^verbatim>\<open>getMetadata\<close> made.\<close>

definition loadFromDB :: "json \<Rightarrow> (string \<Rightarrow> text_answer) \<Rightarrow> sqlconn \<Rightarrow> string \<Rightarrow> string \<Rightarrow> db_params
    \<Rightarrow> db_params res option" where
  "loadFromDB conf answer meta db tableName params = (case params of (flds, indices, nameToIndex) \<Rightarrow>
     (case rbind (getColumns answer db tableName ''%%'' column_select meta) (\<lambda>rs. rmap (Pair rs) (rs_hasNext rs)) of
        Inl e \<Rightarrow> Some (Inl e)
      | Inr (rs, has_row) \<Rightarrow>
          if \<not> has_row then Some (Inr params)
          else (case rs_loop (column_row conf) (flds, nameToIndex, 0) rs of
              None \<Rightarrow> None
            | Some (Inl e) \<Rightarrow> Some (Inl e)
            | Some (Inr (flds, nameToIndex, index)) \<Rightarrow>
                (case getIndices answer db tableName index_select meta of
                   Inl e \<Rightarrow> Some (Inl e)
                 | Inr rs \<Rightarrow> rs_loop index_row (flds, indices, nameToIndex) rs))))"

section \<open>Reading the rows\<close>

text \<open>The cell of a named column in the current row.\<close>

lemma sq_nameToIndex_get:
  assumes "distinct (map cm_name cols)" "i < length cols"
  shows "uget (fold (\<lambda>(i, c). uput (cm_name c) (int i)) (zip [0..<length cols] cols) m) (cm_name (cols ! i))
    = Some (int i)"
  using assms
proof (induction cols rule: rev_induct)
  case (snoc c cols)
  have "zip [0..<length (cols @ [c])] (cols @ [c]) = zip [0..<length cols] cols @ [(length cols, c)]"
    by simp
  moreover have "cm_name (cols ! i) \<noteq> cm_name c" if "i < length cols"
    using snoc.prems(1) imageI[OF nth_mem[OF that], of cm_name] by auto
  ultimately show ?case using snoc by (auto simp: nth_append less_Suc_eq)
qed simp

definition same_columns :: "sql_result \<Rightarrow> sql_result \<Rightarrow> bool" where
  "same_columns r s \<longleftrightarrow> sq_fields s = sq_fields r \<and> sq_nameToIndex s = sq_nameToIndex r"

text \<open>The accessors only look at the columns and the current row.\<close>

definition at_row :: "sql_result \<Rightarrow> text_row \<Rightarrow> sql_result" where
  "at_row r row = r\<lparr>sq_row := Some row\<rparr>"

lemma sq_get_at_row:
  assumes "same_columns r s"
  shows "sq_get d t conv i s = sq_get d t conv i (at_row r (sq_current s))"
  using assms
  by (auto simp: sq_get_def same_columns_def at_row_def isValidIndex_def sq_cell_def sq_current_def
      split: option.splits)

lemma get_name_at_row:
  assumes "same_columns r s"
  shows "sq_getString_name k s = sq_getString_name k (at_row r (sq_current s))"
    "sq_getLong_name k s = sq_getLong_name k (at_row r (sq_current s))"
  using assms sq_get_at_row[OF assms]
  by (simp_all add: sq_getString_name_def sq_getString_def sq_getLong_name_def sq_getLong_def sq_index_def
      same_columns_def at_row_def)

lemma rows_at_row:
  assumes "same_columns r s"
  shows "column_row conf s a = column_row conf (at_row r (sq_current s)) a"
    "index_row s b = index_row (at_row r (sq_current s)) b"
  unfolding column_row_def index_row_def by (simp_all only: get_name_at_row[OF assms])

lemma SqlResult_new_simps [simp]:
  "sq_fields (SqlResult_new cols rows) = cols" "sq_pending (SqlResult_new cols rows) = rows"
  by (simp_all add: SqlResult_new_def)

lemma rs_loop_rows:
  assumes "length rows < 2 ^ 63"
    and "\<And>s a. same_columns (SqlResult_new cols rows) s \<Longrightarrow>
      body s a = body (at_row (SqlResult_new cols rows) (sq_current s)) a"
  shows "rs_loop body a (Sql_Rows (SqlResult_new cols rows))
    = Some (rfold (\<lambda>row. body (at_row (SqlResult_new cols rows) row)) rows a)"
proof -
  let ?r = "SqlResult_new cols rows"
  have fits: "sq_fits ?r" using assms(1) by (simp add: sq_fits_def SqlResult_new_def unat_of_nat)
  have "\<exists>s'. fetch_loop sq_hasNext sq_next body ?r a
     = Some (rmap (\<lambda>a'. (s', a')) (rfold (\<lambda>row. body (at_row ?r row)) (sq_pending ?r) a))"
    by (rule sql_rows.loop_all_rows[of ?r same_columns ?r, OF fits])
      (use assms(2) in \<open>auto simp: same_columns_def sq_next_def split: list.splits\<close>)
  then obtain s' where "fetch_loop sq_hasNext sq_next body ?r a
     = Some (rmap (\<lambda>a'. (s', a')) (rfold (\<lambda>row. body (at_row ?r row)) rows a))" by auto
  then show ?thesis
    by (cases "rfold (\<lambda>row. body (at_row ?r row)) rows a") simp_all
qed

lemma get_cell:
  assumes "distinct (map cm_name cols)" "i < length cols" "length row = length cols" "cm_name (cols ! i) = k"
  shows "isString (cm_type (cols ! i)) \<Longrightarrow> sq_getString_name k (at_row (SqlResult_new cols rows) row)
      = Inr (case row ! i of None \<Rightarrow> [] | Some s \<Rightarrow> c_string s)"
    and "isLong (cm_type (cols ! i)) \<Longrightarrow> sq_getLong_name k (at_row (SqlResult_new cols rows) row)
      = rbind (nonnull (row ! i)) (ato i64)"
proof -
  have "sq_index k (at_row (SqlResult_new cols rows) row) = int i + 1"
    using sq_nameToIndex_get[OF assms(1,2), of "[]"] assms(4)
    by (simp add: sq_index_def at_row_def SqlResult_new_def)
  then show "isString (cm_type (cols ! i)) \<Longrightarrow> sq_getString_name k (at_row (SqlResult_new cols rows) row)
      = Inr (case row ! i of None \<Rightarrow> [] | Some s \<Rightarrow> c_string s)"
    "isLong (cm_type (cols ! i)) \<Longrightarrow> sq_getLong_name k (at_row (SqlResult_new cols rows) row)
      = rbind (nonnull (row ! i)) (ato i64)"
    using assms(2,3)
    by (simp_all add: sq_getString_name_def sq_getString_def sq_getLong_name_def sq_getLong_def sq_get_def
        isValidIndex_def at_row_def sq_cell_def SqlResult_new_def split: option.splits)
qed

section \<open>A schema that describes a table\<close>

record column_desc =
  cd_name :: string
  cd_type :: string
  cd_nullable :: bool
  cd_default :: "string option"
  cd_extra :: string

record index_desc =
  id_name :: string
  id_unique :: bool
  id_column :: string

definition text_ok :: "string \<Rightarrow> bool" where
  "text_ok s \<longleftrightarrow> c_string s = s"

definition column_text :: "column_desc \<Rightarrow> text_row" where
  "column_text d = [Some (cd_name d), Some (cd_type d), Some (if cd_nullable d then ''YES'' else ''NO''),
     cd_default d, Some (cd_extra d)]"

definition index_text :: "index_desc \<Rightarrow> text_row" where
  "index_text d = [Some (id_name d), Some (if id_unique d then ''0'' else ''1''), Some (id_column d)]"

definition column_desc_ok :: "column_desc \<Rightarrow> bool" where
  "column_desc_ok d \<longleftrightarrow> text_ok (cd_name d) \<and> text_ok (cd_type d) \<and> text_ok (cd_extra d)
     \<and> (\<forall>s. cd_default d = Some s \<longrightarrow> text_ok s)"

definition index_desc_ok :: "index_desc \<Rightarrow> bool" where
  "index_desc_ok d \<longleftrightarrow> text_ok (id_name d) \<and> text_ok (id_column d)"

text \<open>
  The answer to the queries about table \<open>t\<close> of database \<open>db\<close>: result columns named as they
  were selected, of string types (\<^verbatim>\<open>NON_UNIQUE\<close> a \<^verbatim>\<open>BIGINT\<close>), and the rows of the description.
\<close>

definition describes :: "(string \<Rightarrow> text_answer) \<Rightarrow> string \<Rightarrow> string \<Rightarrow> column_desc list \<Rightarrow> index_desc list \<Rightarrow> bool" where
  "describes answer db t cds ids \<longleftrightarrow>
     (\<exists>ccols icols. answer (columns_sql db t ''%%'' column_select) = Some (ccols, map column_text cds)
       \<and> map cm_name ccols = column_select \<and> list_all (\<lambda>c. isString (cm_type c)) ccols
       \<and> answer (indices_sql db t index_select) = Some (icols, map index_text ids)
       \<and> map cm_name icols = index_select \<and> isString (cm_type (icols ! 0)) \<and> isLong (cm_type (icols ! 1))
       \<and> isString (cm_type (icols ! 2)))
     \<and> length cds < 2 ^ 63 \<and> length ids < 2 ^ 63
     \<and> list_all column_desc_ok cds \<and> list_all index_desc_ok ids"

text \<open>The column and the index step by their descriptions.\<close>

definition desc_field :: "json \<Rightarrow> column_desc \<Rightarrow> field_meta" where
  "desc_field conf d = FieldMeta_default\<lparr>columnName := Some (cd_name d), fieldName := dbToCpp (cd_name d) False,
     columnType := Some (cd_type d), cppType := dbTypeToCppType conf (cd_type d), notNull := (\<not> cd_nullable d),
     defaultVal := (case cd_default d of None \<Rightarrow> [] | Some s \<Rightarrow> s),
     autoInc := (cd_extra d = ''auto_increment''),
     extra := (if cd_extra d = ''auto_increment'' then [] else cd_extra d)\<rparr>"

lemma column_row_desc:
  assumes "map cm_name cols = column_select" "list_all (\<lambda>c. isString (cm_type c)) cols" "column_desc_ok d"
  shows "column_row conf (at_row (SqlResult_new cols rows) (column_text d)) (flds, nti, n)
    = Inr (flds @ [desc_field conf d], uput (cd_name d) n nti, n + 1)"
proof -
  have len: "length cols = 5" using arg_cong[OF assms(1), of length] by (simp add: column_select_def)
  have names: "cm_name (cols ! i) = column_select ! i" if "i < 5" for i
    using that len assms(1) by (metis nth_map)
  have str: "isString (cm_type (cols ! i))" if "i < 5" for i
    using that len assms(2) by (simp add: list_all_length)
  have "distinct (map cm_name cols)" unfolding assms(1) by (simp add: column_select_def)
  note cell = get_cell(1)[OF this, of _ "column_text d" _ rows, unfolded len, OF _ _ names str]
  have cells_at: "length (column_text d) = 5" "column_text d ! 0 = Some (cd_name d)" "column_text d ! 1 = Some (cd_type d)"
    "column_text d ! 2 = Some (if cd_nullable d then ''YES'' else ''NO'')" "column_text d ! 3 = cd_default d"
    "column_text d ! 4 = Some (cd_extra d)"
    by (simp_all add: column_text_def)
  have sel: "column_select ! 0 = ''COLUMN_NAME''" "column_select ! 1 = ''COLUMN_TYPE''"
    "column_select ! 2 = ''IS_NULLABLE''" "column_select ! 3 = ''COLUMN_DEFAULT''" "column_select ! 4 = ''EXTRA''"
    by (simp_all add: column_select_def)
  have yes: "c_string ''YES'' = ''YES''" "c_string ''NO'' = ''NO''" by code_simp+
  note ok = assms(3)[unfolded column_desc_ok_def text_ok_def]
  have cells: "sq_getString_name ''COLUMN_NAME'' (at_row (SqlResult_new cols rows) (column_text d)) = Inr (cd_name d)"
    "sq_getString_name ''COLUMN_TYPE'' (at_row (SqlResult_new cols rows) (column_text d)) = Inr (cd_type d)"
    "sq_getString_name ''EXTRA'' (at_row (SqlResult_new cols rows) (column_text d)) = Inr (cd_extra d)"
    using cell[of 0] cell[of 1] cell[of 4] ok by (simp_all only: cells_at sel) simp_all
  have null: "sq_getString_name ''IS_NULLABLE'' (at_row (SqlResult_new cols rows) (column_text d))
       = Inr (if cd_nullable d then ''YES'' else ''NO'')"
    using cell[of 2] yes by (simp only: cells_at sel) (cases "cd_nullable d"; simp)
  have dflt: "sq_getString_name ''COLUMN_DEFAULT'' (at_row (SqlResult_new cols rows) (column_text d))
       = Inr (case cd_default d of None \<Rightarrow> [] | Some s \<Rightarrow> s)"
    using cell[of 3] ok by (simp only: cells_at sel) (cases "cd_default d"; simp)
  show ?thesis
    by (simp add: column_row_def cells null dflt FieldMeta_move_def desc_field_def Let_def)
      (simp add: FieldMeta_default_def)
qed

text \<open>The index step, and the primary key's mark, by their descriptions.\<close>

definition desc_index_step :: "index_desc \<Rightarrow> index_info umap \<Rightarrow> index_info umap" where
  "desc_index_step d indices = (case uget indices (id_name d) of
     Some ind \<Rightarrow> uput (id_name d) (ind\<lparr>ix_columns := ix_columns ind @ [id_column d]\<rparr>) indices
   | None \<Rightarrow> uput (id_name d) \<lparr>ix_type = (if id_name d = ''PRIMARY'' then INDEX_TYPE_PRI
       else if id_unique d then INDEX_TYPE_UNI else INDEX_TYPE_MUL), ix_name = id_name d,
       ix_columns = [id_column d]\<rparr> indices)"

definition mark_primary :: "index_desc \<Rightarrow> index_info umap \<Rightarrow> int umap \<Rightarrow> field_meta list \<Rightarrow> field_meta list" where
  "mark_primary d indices nti flds =
     (if id_name d = ''PRIMARY'' \<and> uget indices (id_name d) = None
      then flds[nat (the (uget nti (id_column d))) := (flds ! nat (the (uget nti (id_column d))))\<lparr>isPk := True\<rparr>]
      else flds)"

lemma index_row_desc:
  assumes "map cm_name cols = index_select" "isString (cm_type (cols ! 0))" "isLong (cm_type (cols ! 1))"
    "isString (cm_type (cols ! 2))" "index_desc_ok d"
    and "id_name d = ''PRIMARY'' \<longrightarrow> (\<exists>i. uget nti (id_column d) = Some i \<and> nat i < length flds)"
  shows "\<exists>nti'. index_row (at_row (SqlResult_new cols rows) (index_text d)) (flds, indices, nti)
      = Inr (mark_primary d indices nti flds, desc_index_step d indices, nti')
    \<and> (\<forall>k. uget nti' k = uget nti k)"
proof -
  have len: "length cols = 3" using arg_cong[OF assms(1), of length] by (simp add: index_select_def)
  have names: "cm_name (cols ! i) = index_select ! i" if "i < 3" for i
    using that len assms(1) by (metis nth_map)
  have dist: "distinct (map cm_name cols)" unfolding assms(1) by (simp add: index_select_def)
  note cell = get_cell[OF dist, of _ "index_text d" _ rows, unfolded len, OF _ _ names]
  have cells_at: "length (index_text d) = 3" "index_text d ! 0 = Some (id_name d)"
    "index_text d ! 1 = Some (if id_unique d then ''0'' else ''1'')" "index_text d ! 2 = Some (id_column d)"
    by (simp_all add: index_text_def)
  have sel: "index_select ! 0 = ''INDEX_NAME''" "index_select ! 1 = ''NON_UNIQUE''"
    "index_select ! 2 = ''COLUMN_NAME''"
    by (simp_all add: index_select_def)
  have num: "ato i64 ''0'' = Inr 0" "ato i64 ''1'' = Inr 1" by code_simp+
  note ok = assms(5)[unfolded index_desc_ok_def text_ok_def]
  have cells: "sq_getString_name ''INDEX_NAME'' (at_row (SqlResult_new cols rows) (index_text d)) = Inr (id_name d)"
    "sq_getString_name ''COLUMN_NAME'' (at_row (SqlResult_new cols rows) (index_text d)) = Inr (id_column d)"
    using cell(1)[of 0] cell(1)[of 2] ok assms(2,4) by (simp_all only: cells_at sel) simp_all
  have long: "sq_getLong_name ''NON_UNIQUE'' (at_row (SqlResult_new cols rows) (index_text d))
      = Inr (if id_unique d then 0 else 1)"
    using cell(2)[of 1] assms(3) num
    by (simp only: cells_at sel) (cases "id_unique d"; simp add: nonnull_def)
  show ?thesis
  proof (cases "uget indices (id_name d)")
    case (Some ind)
    then show ?thesis by (simp add: index_row_def cells desc_index_step_def mark_primary_def)
  next
    case None
    show ?thesis
    proof (cases "id_name d = ''PRIMARY''")
      case True
      then obtain i where "uget nti (id_column d) = Some i" "nat i < length flds" using assms(6) by blast
      then show ?thesis using None True
        by (auto simp: index_row_def cells desc_index_step_def mark_primary_def Index_default_def)
    next
      case False
      then show ?thesis using None
        by (simp add: index_row_def cells long desc_index_step_def mark_primary_def Index_default_def)
    qed
  qed
qed

section \<open>What is loaded\<close>

lemma column_rows_desc:
  assumes "map cm_name cols = column_select" "list_all (\<lambda>c. isString (cm_type c)) cols"
    "list_all column_desc_ok cds"
  shows "rfold (\<lambda>row. column_row conf (at_row (SqlResult_new cols rows) row)) (map column_text cds) (flds, nti, int n)
    = Inr (flds @ map (desc_field conf) cds,
           fold (\<lambda>(i, c). uput c (int i)) (zip [n..<n + length cds] (map cd_name cds)) nti, int (n + length cds))"
  using assms(3)
proof (induction cds arbitrary: flds nti n)
  case (Cons d cds)
  have "zip [n..<n + length (d # cds)] (map cd_name (d # cds))
      = (n, cd_name d) # zip [Suc n..<Suc n + length cds] (map cd_name cds)"
    by (simp add: upt_rec[of n] del: upt_Suc)
  then show ?case
    using Cons.IH[of "flds @ [desc_field conf d]" "uput (cd_name d) (int n) nti" "Suc n"] Cons.prems
    by (simp add: column_row_desc[OF assms(1,2)] add_ac del: upt_Suc)
qed simp

text \<open>
  The columns of an index in the order of their rows; its type from its first row. The name
  \<^verbatim>\<open>PRIMARY\<close> stands for the primary key.
\<close>

definition desc_index :: "index_desc list \<Rightarrow> string \<Rightarrow> index_info option" where
  "desc_index ids k = (case filter (\<lambda>d. id_name d = k) ids of
     [] \<Rightarrow> None
   | d # ds \<Rightarrow> Some \<lparr>ix_type = (if k = ''PRIMARY'' then INDEX_TYPE_PRI
       else if id_unique d then INDEX_TYPE_UNI else INDEX_TYPE_MUL), ix_name = k,
       ix_columns = map id_column (d # ds)\<rparr>)"

lemma desc_index_snoc:
  assumes "\<forall>k. uget m k = desc_index ids k"
  shows "uget (desc_index_step d m) k = desc_index (ids @ [d]) k"
  using assms
  by (cases "filter (\<lambda>x. id_name x = id_name d) ids")
    (auto simp: desc_index_step_def desc_index_def split: list.splits)

text \<open>The primary key is marked on the first of its columns.\<close>

definition desc_primary :: "index_desc list \<Rightarrow> string option" where
  "desc_primary ids = (case filter (\<lambda>d. id_name d = ''PRIMARY'') ids of [] \<Rightarrow> None | d # ds \<Rightarrow> Some (id_column d))"

definition desc_table :: "json \<Rightarrow> column_desc list \<Rightarrow> index_desc list \<Rightarrow> field_meta list" where
  "desc_table conf cds ids = map (\<lambda>d. (desc_field conf d)\<lparr>isPk := (desc_primary ids = Some (cd_name d))\<rparr>) cds"

lemma desc_table_mark:
  assumes "distinct (map cd_name cds)" "i < length cds" "cd_name (cds ! i) = id_column d"
    and "desc_primary ids = None" "id_name d = ''PRIMARY''"
  shows "(desc_table conf cds ids)[i := (desc_table conf cds ids ! i)\<lparr>isPk := True\<rparr>] = desc_table conf cds (ids @ [d])"
proof -
  have "desc_primary (ids @ [d]) = Some (id_column d)"
    using assms(4,5) by (auto simp: desc_primary_def split: list.splits)
  moreover have "cd_name (cds ! j) = id_column d \<longleftrightarrow> j = i" if "j < length cds" for j
    using assms(1-3) that by (metis length_map nth_eq_iff_index_eq nth_map)
  ultimately show ?thesis using assms
    by (intro nth_equalityI) (auto simp: desc_table_def nth_list_update eq_commute[of "id_column d"])
qed

lemma number_get:
  "distinct ns \<Longrightarrow> i < length ns \<Longrightarrow>
   uget (fold (\<lambda>(i, c). uput c (int i)) (zip [0..<length ns] ns) m) (ns ! i) = Some (int i)"
proof (induction ns rule: rev_induct)
  case (snoc c ns)
  have "zip [0..<length (ns @ [c])] (ns @ [c]) = zip [0..<length ns] ns @ [(length ns, c)]" by simp
  then show ?case using snoc by (auto simp: nth_append less_Suc_eq)
qed simp

lemma index_rows_desc:
  assumes cols: "map cm_name cols = index_select" "isString (cm_type (cols ! 0))" "isLong (cm_type (cols ! 1))"
    "isString (cm_type (cols ! 2))"
    and dist: "distinct (map cd_name cds)"
    and nti: "\<forall>i < length cds. uget nti (cd_name (cds ! i)) = Some (int i)"
    and ids: "list_all index_desc_ok ids" "\<forall>d \<in> set ids. id_name d = ''PRIMARY'' \<longrightarrow> id_column d \<in> cd_name ` set cds"
  shows "\<exists>indices nti'. rfold (\<lambda>row. index_row (at_row (SqlResult_new cols rows) row)) (map index_text ids)
       (desc_table conf cds [], [], nti) = Inr (desc_table conf cds ids, indices, nti')
     \<and> (\<forall>k. uget indices k = desc_index ids k) \<and> (\<forall>k. uget nti' k = uget nti k)
     \<and> distinct (map fst indices)"
  using ids
proof (induction ids rule: rev_induct)
  case Nil
  then show ?case by (simp add: uget_def desc_index_def)
next
  case (snoc d ids)
  then obtain indices nti' where IH: "rfold (\<lambda>row. index_row (at_row (SqlResult_new cols rows) row)) (map index_text ids)
       (desc_table conf cds [], [], nti) = Inr (desc_table conf cds ids, indices, nti')"
    "\<forall>k. uget indices k = desc_index ids k" "\<forall>k. uget nti' k = uget nti k" "distinct (map fst indices)" by auto
  have known: "\<exists>i. i < length cds \<and> cd_name (cds ! i) = id_column d \<and> uget nti' (id_column d) = Some (int i)"
    if "id_name d = ''PRIMARY''"
  proof -
    have "id_column d \<in> cd_name ` set cds" using snoc.prems(2) that by simp
    then obtain i where "i < length cds" "cd_name (cds ! i) = id_column d" by (auto simp: in_set_conv_nth)
    then show ?thesis using nti IH(3) by metis
  qed
  have "\<exists>nti2. index_row (at_row (SqlResult_new cols rows) (index_text d)) (desc_table conf cds ids, indices, nti')
      = Inr (mark_primary d indices nti' (desc_table conf cds ids), desc_index_step d indices, nti2)
    \<and> (\<forall>k. uget nti2 k = uget nti' k)"
    by (rule index_row_desc[OF cols]) (use snoc.prems known in \<open>auto simp: desc_table_def\<close>)
  moreover have "mark_primary d indices nti' (desc_table conf cds ids) = desc_table conf cds (ids @ [d])"
  proof (cases "id_name d = ''PRIMARY'' \<and> uget indices (id_name d) = None")
    case True
    then have "desc_primary ids = None"
      using IH(2) by (auto simp: desc_index_def desc_primary_def split: list.splits)
    then show ?thesis using True known desc_table_mark[OF dist, of _ d ids conf]
      by (auto simp: mark_primary_def)
  next
    case False
    then have "desc_primary (ids @ [d]) = desc_primary ids"
      using IH(2) by (auto simp: desc_index_def desc_primary_def split: list.splits)
    then show ?thesis unfolding mark_primary_def if_not_P[OF False] by (simp add: desc_table_def)
  qed
  moreover have "distinct (map fst (desc_index_step d indices))"
    using IH(4) by (auto simp: desc_index_step_def split: option.splits)
  ultimately show ?case using IH desc_index_snoc[OF IH(2)] by (auto simp: rfold_append)
qed

lemma number_get_None:
  "k \<notin> set ns \<Longrightarrow> length js = length ns \<Longrightarrow> uget (fold (\<lambda>(i, c). uput c (f i)) (zip js ns) m) k = uget m k"
  by (induction ns arbitrary: js m) (auto simp: length_Suc_conv)

lemma load_described:
  assumes d: "describes answer db t cds ids" and h: "c_handle meta = Some h" and ne: "cds \<noteq> []"
    and dist: "distinct (map cd_name cds)"
    and pk: "\<forall>d \<in> set ids. id_name d = ''PRIMARY'' \<longrightarrow> id_column d \<in> cd_name ` set cds"
  shows "\<exists>indices nti. loadFromDB conf answer meta db t ([], [], []) = Some (Inr (desc_table conf cds ids, indices, nti))
    \<and> (\<forall>k. uget indices k = desc_index ids k) \<and> distinct (map fst indices)
    \<and> (\<forall>i < length cds. uget nti (cd_name (cds ! i)) = Some (int i))
    \<and> (\<forall>k. k \<notin> cd_name ` set cds \<longrightarrow> uget nti k = None)"
proof -
  obtain ccols icols where
    c: "answer (columns_sql db t ''%%'' column_select) = Some (ccols, map column_text cds)"
      "map cm_name ccols = column_select" "list_all (\<lambda>c. isString (cm_type c)) ccols"
    and i: "answer (indices_sql db t index_select) = Some (icols, map index_text ids)"
      "map cm_name icols = index_select" "isString (cm_type (icols ! 0))" "isLong (cm_type (icols ! 1))"
      "isString (cm_type (icols ! 2))"
    and len: "length cds < 2 ^ 63" "length ids < 2 ^ 63"
    and ok: "list_all column_desc_ok cds" "list_all index_desc_ok ids"
    using d unfolding describes_def by blast
  let ?nti = "fold (\<lambda>(i, c). uput c (int i)) (zip [0..<length cds] (map cd_name cds)) []"
  have flds: "map (desc_field conf) cds = desc_table conf cds []"
    by (simp add: desc_table_def desc_primary_def desc_field_def FieldMeta_default_def)
  have "rs_loop (column_row conf) ([], [], 0) (Sql_Rows (SqlResult_new ccols (map column_text cds)))
      = Some (rfold (\<lambda>row. column_row conf (at_row (SqlResult_new ccols (map column_text cds)) row))
          (map column_text cds) ([], [], 0))"
    by (rule rs_loop_rows) (use len(1) rows_at_row(1) in auto)
  also have "\<dots> = Some (Inr (desc_table conf cds [], ?nti, int (length cds)))"
    using column_rows_desc[OF c(2,3) ok(1), of conf "map column_text cds" "[]" "[]" 0] by (simp add: flds)
  finally have 1: "rs_loop (column_row conf) ([], [], 0) (Sql_Rows (SqlResult_new ccols (map column_text cds)))
      = Some (Inr (desc_table conf cds [], ?nti, int (length cds)))" .
  have nti: "\<forall>i < length cds. uget ?nti (cd_name (cds ! i)) = Some (int i)"
    using number_get[OF dist, of _ "[]"] by auto
  have none: "uget ?nti k = None" if "k \<notin> cd_name ` set cds" for k
    using that number_get_None[of k "map cd_name cds" "[0..<length cds]" int "[]"] by (simp add: uget_def)
  have "rs_loop index_row (desc_table conf cds [], [], ?nti) (Sql_Rows (SqlResult_new icols (map index_text ids)))
      = Some (rfold (\<lambda>row. index_row (at_row (SqlResult_new icols (map index_text ids)) row))
          (map index_text ids) (desc_table conf cds [], [], ?nti))"
    by (rule rs_loop_rows) (use len(2) rows_at_row(2) in auto)
  moreover obtain indices nti' where "rfold (\<lambda>row. index_row (at_row (SqlResult_new icols (map index_text ids)) row))
       (map index_text ids) (desc_table conf cds [], [], ?nti) = Inr (desc_table conf cds ids, indices, nti')"
     and ind: "\<forall>k. uget indices k = desc_index ids k" "\<forall>k. uget nti' k = uget ?nti k" "distinct (map fst indices)"
    using index_rows_desc[OF i(2-5) dist nti ok(2) pk, of "map index_text ids" conf] by blast
  ultimately have 2: "rs_loop index_row (desc_table conf cds [], [], ?nti)
      (Sql_Rows (SqlResult_new icols (map index_text ids))) = Some (Inr (desc_table conf cds ids, indices, nti'))"
    by simp
  have has: "sq_hasNext (SqlResult_new ccols (map column_text cds))"
    using ne len(1) by (simp add: sq_hasNext_def SqlResult_new_def word_le_nat_alt unat_of_nat Suc_le_eq)
  have "loadFromDB conf answer meta db t ([], [], []) = Some (Inr (desc_table conf cds ids, indices, nti'))"
    using h has
    by (simp add: loadFromDB_def getColumns_def getIndices_def conn_executeQuery_def c(1) i(1) 1 2
        del: rs_loop.simps)
  then show ?thesis using ind nti none by (intro exI[of _ indices] exI[of _ nti']) simp
qed

lemma load_absent:
  assumes "describes answer db t [] ids" "c_handle meta = Some h"
  shows "loadFromDB conf answer meta db t params = Some (Inr params)"
  using assms
  by (cases params) (auto simp: describes_def loadFromDB_def getColumns_def conn_executeQuery_def
      sq_hasNext_def SqlResult_new_def)

lemma load_unconnected:
  "c_handle meta = None \<Longrightarrow> loadFromDB conf answer meta db t params = Some (Inl UB)"
  by (cases params) (simp add: loadFromDB_def getColumns_def conn_executeQuery_def)

section \<open>Property\<close>

text \<open>
  C10: The schema is read off the information schema: from its rows for a table
  \<^verbatim>\<open>loadFromDB\<close> makes one field per column, in order, with the names, types, nullability,
  default and extra of the row, the first column of the index called \<^verbatim>\<open>PRIMARY\<close> as the primary
  key; one index per name with its columns in order; and the numbers of the columns.
\<close>

theorem schema_loaded:
  assumes "describes answer db t cds ids" "c_handle meta = Some h" "cds \<noteq> []" "distinct (map cd_name cds)"
    and "\<forall>d \<in> set ids. id_name d = ''PRIMARY'' \<longrightarrow> id_column d \<in> cd_name ` set cds"
  shows "\<exists>indices nti. loadFromDB conf answer meta db t ([], [], []) = Some (Inr (desc_table conf cds ids, indices, nti))
    \<and> (\<forall>k. uget indices k = desc_index ids k) \<and> (\<forall>i < length cds. uget nti (cd_name (cds ! i)) = Some (int i))"
  using load_described[OF assms, of conf] by blast

end
