(* ===== verification/Migration.thy ===== *)
theory Migration
  imports Schema_Load Query Data_File "HOL-Library.Multiset"
begin

text \<open>
  The migration side of \<^verbatim>\<open>tinyorm/model.h\<close>: the commands that turn the stored description of
  a table into that of a model, the SQL text of each command, \<^verbatim>\<open>MysqlMigrator::migrate\<close>, which
  sorts and runs them, and \<^verbatim>\<open>Model::AutoMigrate\<close> with \<^verbatim>\<open>Model::saveModel\<close>.
\<close>

section \<open>Commands\<close>

datatype mig_action =
    MIGACTION_CREATE_TABLE | MIGACTION_ADD_COLUMN | MIGACTION_CHANGE_COLUMN
  | MIGACTION_ADD_INDEX | MIGACTION_CHANGE_TABLENAME | MIGACTION_DROP_INDEX

datatype cmd = Cmd (cmd_action: mig_action) (cmd_priority: int) (targetName: string) (prevTargetName: string)

fun action_priority :: "mig_action \<Rightarrow> int" where
  "action_priority MIGACTION_CREATE_TABLE = 1"
| "action_priority MIGACTION_CHANGE_TABLENAME = 1"
| "action_priority MIGACTION_ADD_COLUMN = 2"
| "action_priority MIGACTION_CHANGE_COLUMN = 2"
| "action_priority MIGACTION_DROP_INDEX = 3"
| "action_priority MIGACTION_ADD_INDEX = 4"

definition Cmd_new :: "string \<Rightarrow> mig_action \<Rightarrow> string \<Rightarrow> cmd" where
  "Cmd_new tar ac prevTar = Cmd ac (action_priority ac) tar prevTar"

text \<open>\<^verbatim>\<open>operator<\<close> compares priorities: commands of one priority are not ordered.\<close>

definition Cmd_less :: "cmd \<Rightarrow> cmd \<Rightarrow> bool" where
  "Cmd_less a b \<longleftrightarrow> cmd_priority a < cmd_priority b"

text \<open>The preorder of the library that it gives, so that \<open>sorted_wrt\<close> and its lemmas apply.\<close>

instantiation cmd :: preorder
begin

definition less_cmd :: "cmd \<Rightarrow> cmd \<Rightarrow> bool" where
  "less_cmd a b \<longleftrightarrow> Cmd_less a b"

definition less_eq_cmd :: "cmd \<Rightarrow> cmd \<Rightarrow> bool" where
  "less_eq_cmd a b \<longleftrightarrow> \<not> Cmd_less b a"

instance
  by standard (auto simp: less_cmd_def less_eq_cmd_def Cmd_less_def)

end

lemma cmd_le_iff: "a \<le> b \<longleftrightarrow> cmd_priority a \<le> cmd_priority b"
  by (auto simp: less_eq_cmd_def Cmd_less_def)

text \<open>
  \<^verbatim>\<open>std::sort\<close> may put commands of one priority in any order; it is an argument, and this is
  what the standard promises of it.
\<close>

definition sorts :: "(cmd list \<Rightarrow> cmd list) \<Rightarrow> bool" where
  "sorts sorter \<longleftrightarrow> (\<forall>cs. mset (sorter cs) = mset cs \<and> sorted_wrt (\<le>) (sorter cs))"

section \<open>The text of a command\<close>

text \<open>\<^verbatim>\<open>metadata[columnToIndex[name]]\<close>: an unknown name counts as the first column.\<close>

definition getMetadata_of :: "string \<Rightarrow> model \<Rightarrow> field_meta res" where
  "getMetadata_of name m =
     (let i = (case uget (m_columnToIndex m) name of Some i \<Rightarrow> i | None \<Rightarrow> 0)
      in if nat i \<ge> length (m_metadata m) then Inl UB else Inr (m_metadata m ! nat i))"

definition getIndex :: "string \<Rightarrow> model \<Rightarrow> index_info" where
  "getIndex name m = (case uget (m_indices m) name of Some i \<Rightarrow> i | None \<Rightarrow> Index_default)"

definition comma_list :: "string list \<Rightarrow> string" where
  "comma_list xs = concat (map (\<lambda>(i, x). (if i > 0 then '', '' else []) @ x) (zip [0..<length xs] xs))"

definition create_column :: "json \<Rightarrow> field_meta \<Rightarrow> string" where
  "create_column conf f = getColumnName f @ '' '' @ getColumnType conf f
     @ (if isPk f then '' PRIMARY KEY'' @ (if autoInc f then '' AUTO_INCREMENT'' else [])
        else if notNull f then '' NOT NULL'' else [])
     @ (if length (defaultVal f) > 0 then '' DEFAULT '' @ defaultVal f else [])"

definition create_index :: "string \<times> index_info \<Rightarrow> string" where
  "create_index kv = (let (k, i) = kv in
     if k = ''PRIMARY'' then []
     else '', '' @ (if ix_type i = INDEX_TYPE_MUL then ''INDEX '' else ''UNIQUE '')
       @ ix_name i @ ''('' @ comma_list (ix_columns i) @ '')'')"

definition create_table_sql :: "json \<Rightarrow> string \<Rightarrow> model \<Rightarrow> string" where
  "create_table_sql conf table m = ''CREATE TABLE '' @ table @ ''(''
     @ comma_list (map (create_column conf) (m_metadata m))
     @ concat (map create_index (m_indices m)) @ '')''"

definition column_def_sql :: "json \<Rightarrow> string \<Rightarrow> field_meta \<Rightarrow> string" where
  "column_def_sql conf target f = target @ '' '' @ getColumnType conf f
     @ (if notNull f then '' NOT NULL '' else [])
     @ (if length (defaultVal f) > 0 then '' DEFAULT '' @ defaultVal f else [])
     @ extra f
     @ (if autoInc f then '' AUTO_INCREMENT '' else [])"

text \<open>Both names of the primary key's text and of an index in \<^verbatim>\<open>ADD\<close>; the former has no \<open>(\<close>.\<close>

definition add_index_sql :: "string \<Rightarrow> string \<Rightarrow> index_info \<Rightarrow> string" where
  "add_index_sql table target i = ''ALTER TABLE '' @ table @ '' ADD ''
     @ (if ix_type i = INDEX_TYPE_MUL then ''INDEX '' @ target @ ''(''
        else if ix_type i = INDEX_TYPE_UNI then ''UNIQUE '' @ target @ ''(''
        else ''PRIMARY KEY '')
     @ comma_list (ix_columns i) @ '')''"

definition command_sql :: "json \<Rightarrow> model \<Rightarrow> cmd \<Rightarrow> string res" where
  "command_sql conf m c =
     (let tar = targetName c; old = prevTargetName c in
      case cmd_action c of
        MIGACTION_CHANGE_TABLENAME \<Rightarrow> Inr (''ALTER TABLE '' @ old @ '' RENAME AS '' @ tar)
      | MIGACTION_CREATE_TABLE \<Rightarrow> rmap (\<lambda>table. create_table_sql conf table m) (getTableName m)
      | MIGACTION_CHANGE_COLUMN \<Rightarrow>
          rbind (getTableName m) (\<lambda>table. rmap (\<lambda>f. ''ALTER TABLE '' @ table @ '' CHANGE ''
             @ (if length old = 0 then tar else old) @ '' '' @ column_def_sql conf tar f) (getMetadata_of tar m))
      | MIGACTION_ADD_COLUMN \<Rightarrow>
          rbind (getTableName m) (\<lambda>table. rmap (\<lambda>f. ''ALTER TABLE '' @ table @ '' ADD COLUMN ''
             @ column_def_sql conf tar f) (getMetadata_of tar m))
      | MIGACTION_DROP_INDEX \<Rightarrow>
          rmap (\<lambda>table. ''ALTER TABLE '' @ table
            @ (if tar = ''PRIMARY'' then '' DROP PRIMARY KEY'' else '' DROP INDEX '' @ tar)) (getTableName m)
      | MIGACTION_ADD_INDEX \<Rightarrow>
          rmap (\<lambda>table. add_index_sql table tar (getIndex tar m)) (getTableName m))"

text \<open>The texts it runs, in order. What the server says to each is not looked at.\<close>

definition migrate :: "json \<Rightarrow> (cmd list \<Rightarrow> cmd list) \<Rightarrow> (string \<Rightarrow> 64 word) \<Rightarrow> sqlconn \<Rightarrow> model \<Rightarrow> cmd list
    \<Rightarrow> string list res" where
  "migrate conf sorter answer conn m cmds =
     rmapM (\<lambda>c. rbind (command_sql conf m c) (\<lambda>sql.
       rmap (\<lambda>n. sql) (conn_executeUpdate answer sql conn))) (sorter cmds)"

section \<open>The differences\<close>

text \<open>The static members with the previous version of the model.\<close>

record prev =
  tablenamePrev :: string
  fieldsPrev :: "field_meta list"
  indicesPrev :: "index_info umap"
  columnToIndexPrev :: "int umap"

definition prev_empty :: prev where
  "prev_empty = \<lparr>tablenamePrev = [], fieldsPrev = [], indicesPrev = [], columnToIndexPrev = []\<rparr>"

text \<open>
  A column that is unknown by its name is looked for by the name of its member: one that is
  found was renamed, otherwise it is new. A known one is compared.
\<close>

definition column_cmd :: "json \<Rightarrow> prev \<Rightarrow> field_meta \<Rightarrow> cmd list res" where
  "column_cmd conf pv f =
     (case uget (columnToIndexPrev pv) (getColumnName f) of
        None \<Rightarrow> (case find (\<lambda>g. fieldName g = fieldName f) (fieldsPrev pv) of
            None \<Rightarrow> Inr [Cmd_new (getColumnName f) MIGACTION_ADD_COLUMN []]
          | Some g \<Rightarrow> Inr [Cmd_new (getColumnName f) MIGACTION_CHANGE_COLUMN (getColumnName g)])
      | Some i \<Rightarrow>
          if nat i \<ge> length (fieldsPrev pv) then Inl UB
          else rmap (\<lambda>same. if same then [] else [Cmd_new (getColumnName f) MIGACTION_CHANGE_COLUMN []])
                 (field_eq conf f (fieldsPrev pv ! nat i)))"

definition old_index_cmds :: "index_info umap \<Rightarrow> string \<times> index_info \<Rightarrow> cmd list" where
  "old_index_cmds cur kv = (let (k, i) = kv in
     case uget cur k of
       None \<Rightarrow> [Cmd_new k MIGACTION_DROP_INDEX []]
     | Some j \<Rightarrow> if \<not> index_eq i j
         then [Cmd_new k MIGACTION_DROP_INDEX [], Cmd_new k MIGACTION_ADD_INDEX []] else [])"

definition new_index_cmds :: "index_info umap \<Rightarrow> string \<times> index_info \<Rightarrow> cmd list" where
  "new_index_cmds old kv = (case uget old (fst kv) of
     None \<Rightarrow> [Cmd_new (fst kv) MIGACTION_ADD_INDEX []] | Some j \<Rightarrow> [])"

text \<open>The block that runs when a previous version was found.\<close>

definition diff_cmds :: "json \<Rightarrow> model \<Rightarrow> prev \<Rightarrow> cmd list res" where
  "diff_cmds conf m pv =
     (if length (fieldsPrev pv) = 0 then Inr []
      else rbind (getTableName m) (\<lambda>table. rbind (getDefaultTableName m) (\<lambda>dflt.
        rmap (\<lambda>cols.
          (if length (tablenamePrev pv) \<noteq> 0 \<and> tablenamePrev pv \<noteq> table
           then [Cmd_new table MIGACTION_CHANGE_TABLENAME dflt] else [])
          @ concat cols
          @ concat (map (old_index_cmds (m_indices m)) (indicesPrev pv))
          @ concat (map (new_index_cmds (indicesPrev pv)) (m_indices m)))
        (rmapM (column_cmd conf pv) (m_metadata m)))))"

section \<open>AutoMigrate\<close>

definition obind :: "'a res option \<Rightarrow> ('a \<Rightarrow> 'b res option) \<Rightarrow> 'b res option" where
  "obind r f = (case r of None \<Rightarrow> None | Some (Inl e) \<Rightarrow> Some (Inl e) | Some (Inr x) \<Rightarrow> f x)"

lemma obind_simps [simp]:
  "obind None f = None" "obind (Some (Inl e)) f = Some (Inl e)" "obind (Some (Inr x)) f = f x"
  by (simp_all add: obind_def)

text \<open>
  Without a table name in the data file: the schema is asked for the table of the model,
  then for the one of the default name. \<open>metas\<close> are the connections made for the queries.
\<close>

definition load_schema :: "json \<Rightarrow> (string \<Rightarrow> text_answer) \<Rightarrow> (nat \<Rightarrow> sqlconn) \<Rightarrow> string \<Rightarrow> model \<Rightarrow> prev
    \<Rightarrow> (prev \<times> cmd list) res option" where
  "load_schema conf info metas db m pv =
     obind (Some (getTableName m)) (\<lambda>table.
     obind (loadFromDB conf info (metas 0) db table (fieldsPrev pv, indicesPrev pv, columnToIndexPrev pv))
       (\<lambda>(fs, ins, ci).
         if length fs \<noteq> 0
         then Some (Inr (pv\<lparr>fieldsPrev := fs, indicesPrev := ins, columnToIndexPrev := ci\<rparr>, []))
         else obind (Some (getDefaultTableName m)) (\<lambda>dflt.
              obind (loadFromDB conf info (metas 1) db dflt (fs, ins, ci)) (\<lambda>(fs, ins, ci).
                Some (Inr (pv\<lparr>fieldsPrev := fs, indicesPrev := ins, columnToIndexPrev := ci\<rparr>,
                  if length fs = 0 then [Cmd_new [] MIGACTION_CREATE_TABLE []]
                  else [Cmd_new table MIGACTION_CHANGE_TABLENAME dflt]))))))"

text \<open>
  The whole: the texts it ran, the model, which ends up with the old metadata, and the
  statics, which hold the new. \<open>file\<close> is the data file, \<open>conn\<close> the connection of the
  migrator.
\<close>

definition AutoMigrate :: "json \<Rightarrow> (cmd list \<Rightarrow> cmd list) \<Rightarrow> bytes option \<Rightarrow> (string \<Rightarrow> text_answer)
    \<Rightarrow> (nat \<Rightarrow> sqlconn) \<Rightarrow> (string \<Rightarrow> 64 word) \<Rightarrow> sqlconn \<Rightarrow> string \<Rightarrow> model \<Rightarrow> prev
    \<Rightarrow> (string list \<times> model \<times> prev) res option" where
  "AutoMigrate conf sorter file info metas answer conn db m pv =
     obind (Some (getClassName (m_typeid m))) (\<lambda>cls.
     obind (loadFromFile file cls (tablenamePrev pv, fieldsPrev pv, indicesPrev pv, columnToIndexPrev pv))
       (\<lambda>(t, fs, ins, ci).
     let pv = \<lparr>tablenamePrev = t, fieldsPrev = fs, indicesPrev = ins, columnToIndexPrev = ci\<rparr> in
     obind (if length t = 0 then load_schema conf info metas db m pv else Some (Inr (pv, []))) (\<lambda>(pv, cmds1).
     obind (Some (diff_cmds conf m pv)) (\<lambda>cmds2.
     obind (Some (migrate conf sorter answer conn m (cmds1 @ cmds2))) (\<lambda>sqls.
     obind (Some (getTableName m)) (\<lambda>table.
       Some (Inr (sqls, m\<lparr>m_metadata := fieldsPrev pv, m_indices := indicesPrev pv\<rparr>,
         pv\<lparr>tablenamePrev := table, fieldsPrev := m_metadata m, indicesPrev := m_indices m\<rparr>))))))))"

text \<open>The static \<^verbatim>\<open>saveModel\<close>: what it appends to the data file.\<close>

definition Model_saveModel :: "json \<Rightarrow> string \<Rightarrow> prev \<Rightarrow> bytes res" where
  "Model_saveModel conf typeid pv =
     rbind (getClassName typeid) (\<lambda>cls.
       saveModel conf (fieldsPrev pv) (indicesPrev pv) (Header_of cls (tablenamePrev pv)))"

end
