(* ===== verification/Migration_Laws.thy ===== *)
theory Migration_Laws
  imports Migration Data_File_Reload
begin

text \<open>
  What a migration does: a schema as an abstract value and the effect of each command on it,
  the proof that the commands of \<^verbatim>\<open>AutoMigrate\<close> lead from the previous version of a table to
  the model in whatever order the sort leaves commands of one priority, the migration of an
  unchanged model, and the creation of a new table.
\<close>

section \<open>A schema and the effect of a command\<close>

text \<open>
  The columns and the indices of a table by their names. \<open>None\<close>: the command names something
  that does not exist, or creates something that does.
\<close>

type_synonym schema = "(string \<Rightarrow> field_meta option) \<times> (string \<Rightarrow> index_info option)"

definition new_column :: "model \<Rightarrow> string \<Rightarrow> field_meta option" where
  "new_column m k = (case getMetadata_of k m of Inr f \<Rightarrow> Some f | Inl e \<Rightarrow> None)"

definition column_effect :: "model \<Rightarrow> cmd \<Rightarrow> (string \<Rightarrow> field_meta option) \<Rightarrow> (string \<Rightarrow> field_meta option) option" where
  "column_effect m c cols =
     (let tar = targetName c; old = (if prevTargetName c = [] then tar else prevTargetName c);
          f = new_column m tar in
      case cmd_action c of
        MIGACTION_ADD_COLUMN \<Rightarrow> if cols tar = None then Some (cols(tar := f)) else None
      | MIGACTION_CHANGE_COLUMN \<Rightarrow>
          if cols old \<noteq> None \<and> (tar = old \<or> cols tar = None) then Some (cols(old := None, tar := f)) else None
      | _ \<Rightarrow> Some cols)"

definition index_effect :: "model \<Rightarrow> cmd \<Rightarrow> (string \<Rightarrow> index_info option) \<Rightarrow> (string \<Rightarrow> index_info option) option" where
  "index_effect m c ixs =
     (let tar = targetName c in
      case cmd_action c of
        MIGACTION_DROP_INDEX \<Rightarrow> if ixs tar \<noteq> None then Some (ixs(tar := None)) else None
      | MIGACTION_ADD_INDEX \<Rightarrow> if ixs tar = None then Some (ixs(tar := Some (getIndex tar m))) else None
      | _ \<Rightarrow> Some ixs)"

definition effect :: "model \<Rightarrow> cmd \<Rightarrow> schema \<Rightarrow> schema option" where
  "effect m c sc = (case (column_effect m c (fst sc), index_effect m c (snd sc)) of
     (Some cols, Some ixs) \<Rightarrow> Some (cols, ixs) | _ \<Rightarrow> None)"

fun run_all :: "('a \<Rightarrow> 's \<Rightarrow> 's option) \<Rightarrow> 'a list \<Rightarrow> 's \<Rightarrow> 's option" where
  "run_all f [] s = Some s"
| "run_all f (c # cs) s = (case f c s of None \<Rightarrow> None | Some s' \<Rightarrow> run_all f cs s')"

lemma run_all_append: "run_all f (xs @ ys) s = (case run_all f xs s of None \<Rightarrow> None | Some s' \<Rightarrow> run_all f ys s')"
  by (induction xs arbitrary: s) (auto split: option.splits)

text \<open>Columns and indices are independent.\<close>

lemma run_all_effect:
  "run_all (column_effect m) cs cols = Some cols' \<Longrightarrow> run_all (index_effect m) cs ixs = Some ixs' \<Longrightarrow>
   run_all (effect m) cs (cols, ixs) = Some (cols', ixs')"
  by (induction cs arbitrary: cols ixs) (auto simp: effect_def split: option.splits)

lemma run_all_skip:
  "(\<And>c s. c \<in> set cs \<Longrightarrow> \<not> P c \<Longrightarrow> f c s = Some s) \<Longrightarrow> run_all f cs s = run_all f (filter P cs) s"
  by (induction cs arbitrary: s) (auto split: option.splits)

definition is_column_cmd :: "cmd \<Rightarrow> bool" where
  "is_column_cmd c \<longleftrightarrow> cmd_action c \<in> {MIGACTION_ADD_COLUMN, MIGACTION_CHANGE_COLUMN}"

definition is_index_cmd :: "cmd \<Rightarrow> bool" where
  "is_index_cmd c \<longleftrightarrow> cmd_action c \<in> {MIGACTION_DROP_INDEX, MIGACTION_ADD_INDEX}"

lemma column_effect_other: "\<not> is_column_cmd c \<Longrightarrow> column_effect m c cols = Some cols"
  by (cases "cmd_action c") (auto simp: column_effect_def is_column_cmd_def Let_def)

lemma index_effect_other: "\<not> is_index_cmd c \<Longrightarrow> index_effect m c ixs = Some ixs"
  by (cases "cmd_action c") (auto simp: index_effect_def is_index_cmd_def Let_def)

section \<open>Column commands in any order\<close>

text \<open>The columns a command reads or writes; commands that do not meet commute.\<close>

definition touched :: "cmd \<Rightarrow> string list" where
  "touched c = (if prevTargetName c = [] \<or> prevTargetName c = targetName c then [targetName c]
                else [targetName c, prevTargetName c])"

definition applicable :: "(string \<Rightarrow> field_meta option) \<Rightarrow> cmd \<Rightarrow> bool" where
  "applicable cols c \<longleftrightarrow>
     cmd_action c = MIGACTION_ADD_COLUMN \<and> cols (targetName c) = None \<and> prevTargetName c = []
   \<or> cmd_action c = MIGACTION_CHANGE_COLUMN \<and>
       (if prevTargetName c = [] \<or> prevTargetName c = targetName c then cols (targetName c) \<noteq> None
        else cols (prevTargetName c) \<noteq> None \<and> cols (targetName c) = None)"

lemma run_column_cmds:
  assumes "distinct (concat (map touched cs))" "\<forall>c \<in> set cs. applicable cols c"
  shows "\<exists>cols'. run_all (column_effect m) cs cols = Some cols'
    \<and> (\<forall>k. cols' k = (if k \<in> targetName ` set cs then new_column m k
         else if k \<in> set (concat (map touched cs)) then None else cols k))"
  using assms
proof (induction cs arbitrary: cols)
  case (Cons c cs)
  define old where "old = (if prevTargetName c = [] then targetName c else prevTargetName c)"
  define cols1 where "cols1 = cols(old := None, targetName c := new_column m (targetName c))"
  have app: "applicable cols c" using Cons.prems(2) by simp
  have add: "cmd_action c = MIGACTION_ADD_COLUMN \<Longrightarrow> cols1 = cols(targetName c := new_column m (targetName c))"
    using app by (auto simp: cols1_def old_def applicable_def)
  have step: "column_effect m c cols = Some cols1"
  proof (cases "cmd_action c = MIGACTION_ADD_COLUMN")
    case True
    then show ?thesis using app add by (simp add: column_effect_def applicable_def Let_def)
  next
    case False
    then show ?thesis using app
      by (auto simp: column_effect_def applicable_def Let_def old_def cols1_def split: if_splits)
  qed
  have out: "x \<noteq> old \<and> x \<noteq> targetName c" if "d \<in> set cs" "x \<in> set (touched d)" for d x
  proof -
    have "x \<notin> set (touched c)" using Cons.prems(1) that by auto
    then show ?thesis by (auto simp: touched_def old_def split: if_splits)
  qed
  have "applicable cols1 d" if d: "d \<in> set cs" for d
  proof -
    have same: "cols1 x = cols x" if "x \<in> set (touched d)" for x using out[OF d that] by (simp add: cols1_def)
    have t: "cols1 (targetName d) = cols (targetName d)" by (rule same) (simp add: touched_def)
    have p: "cols1 (prevTargetName d) = cols (prevTargetName d)"
      if "\<not> (prevTargetName d = [] \<or> prevTargetName d = targetName d)"
      by (rule same) (use that in \<open>simp add: touched_def\<close>)
    have "applicable cols d" using Cons.prems(2) d by simp
    then show ?thesis using t p by (cases "prevTargetName d = [] \<or> prevTargetName d = targetName d")
        (simp_all only: applicable_def if_True if_False simp_thms)
  qed
  then obtain cols' where cols': "run_all (column_effect m) cs cols1 = Some cols'"
    "\<forall>k. cols' k = (if k \<in> targetName ` set cs then new_column m k
         else if k \<in> set (concat (map touched cs)) then None else cols1 k)"
    using Cons.IH[of cols1] Cons.prems(1) by auto
  have "cols' k = (if k \<in> targetName ` set (c # cs) then new_column m k
         else if k \<in> set (concat (map touched (c # cs))) then None else cols k)" for k
  proof -
    have "set (touched c) = {targetName c, old}" by (auto simp: touched_def old_def)
    moreover have away: "x \<notin> set (concat (map touched cs))" if "x = targetName c \<or> x = old" for x
    proof
      assume "x \<in> set (concat (map touched cs))"
      then obtain d where "d \<in> set cs" "x \<in> set (touched d)" by auto
      from out[OF this] that show False by blast
    qed
    moreover have "targetName ` set cs \<subseteq> set (concat (map touched cs))" by (auto simp: touched_def)
    then have "x \<notin> targetName ` set cs" if "x = targetName c \<or> x = old" for x using away[OF that] by blast
    ultimately show ?thesis using cols'(2)[rule_format, of k]
      by (cases "k = targetName c"; cases "k = old") (simp_all add: cols1_def)
  qed
  then show ?case using step cols'(1) by auto
qed simp

section \<open>Index commands in sorted order\<close>

lemma run_drops:
  assumes "distinct (map targetName cs)" "\<forall>c \<in> set cs. cmd_action c = MIGACTION_DROP_INDEX \<and> ixs (targetName c) \<noteq> None"
  shows "run_all (index_effect m) cs ixs = Some (\<lambda>k. if k \<in> targetName ` set cs then None else ixs k)"
  using assms
proof (induction cs arbitrary: ixs)
  case (Cons c cs)
  have "\<forall>d \<in> set cs. (ixs(targetName c := None)) (targetName d) \<noteq> None"
    using Cons.prems by (auto simp: image_iff)
  with Cons show ?case by (auto simp: index_effect_def Let_def fun_eq_iff)
qed simp

lemma run_adds:
  assumes "distinct (map targetName cs)" "\<forall>c \<in> set cs. cmd_action c = MIGACTION_ADD_INDEX \<and> ixs (targetName c) = None"
  shows "run_all (index_effect m) cs ixs
    = Some (\<lambda>k. if k \<in> targetName ` set cs then Some (getIndex k m) else ixs k)"
  using assms
proof (induction cs arbitrary: ixs)
  case (Cons c cs)
  have "\<forall>d \<in> set cs. (ixs(targetName c := Some (getIndex (targetName c) m))) (targetName d) = None"
    using Cons.prems by (auto simp: image_iff)
  with Cons show ?case by (auto simp: index_effect_def Let_def fun_eq_iff)
qed simp

text \<open>Priorities as the constructor sets them.\<close>

definition well_made :: "cmd \<Rightarrow> bool" where
  "well_made c \<longleftrightarrow> cmd_priority c = action_priority (cmd_action c)"

lemma Cmd_new_simps [simp]:
  "cmd_action (Cmd_new t a p) = a" "targetName (Cmd_new t a p) = t" "prevTargetName (Cmd_new t a p) = p"
  "well_made (Cmd_new t a p)"
  by (simp_all add: Cmd_new_def well_made_def)

lemma Cmd_new_column [simp]:
  "touched (Cmd_new t a q) = (if q = [] \<or> q = t then [t] else [t, q])"
  "is_column_cmd (Cmd_new t a q) \<longleftrightarrow> a \<in> {MIGACTION_ADD_COLUMN, MIGACTION_CHANGE_COLUMN}"
  "is_index_cmd (Cmd_new t a q) \<longleftrightarrow> a \<in> {MIGACTION_DROP_INDEX, MIGACTION_ADD_INDEX}"
  "applicable cols (Cmd_new t MIGACTION_ADD_COLUMN q) \<longleftrightarrow> cols t = None \<and> q = []"
  "applicable cols (Cmd_new t MIGACTION_CHANGE_COLUMN q) \<longleftrightarrow>
     (if q = [] \<or> q = t then cols t \<noteq> None else cols q \<noteq> None \<and> cols t = None)"
  by (simp_all add: touched_def is_column_cmd_def is_index_cmd_def applicable_def)

lemma drops_before_adds:
  assumes "sorted_wrt (\<le>) cs" "\<forall>c \<in> set cs. well_made c \<and> is_index_cmd c"
  shows "cs = filter (\<lambda>c. cmd_action c = MIGACTION_DROP_INDEX) cs
            @ filter (\<lambda>c. cmd_action c = MIGACTION_ADD_INDEX) cs"
  using assms
proof (induction cs)
  case (Cons c cs)
  show ?case
  proof (cases "cmd_action c = MIGACTION_DROP_INDEX")
    case True
    then show ?thesis using Cons by simp
  next
    case False
    then have c: "cmd_action c = MIGACTION_ADD_INDEX" using Cons.prems(2) by (auto simp: is_index_cmd_def)
    have "cmd_action d = MIGACTION_ADD_INDEX" if "d \<in> set cs" for d
    proof -
      have "cmd_priority c \<le> cmd_priority d" "well_made d" "is_index_cmd d" "well_made c"
        using Cons.prems that by (auto simp: cmd_le_iff)
      then show ?thesis using c by (auto simp: well_made_def is_index_cmd_def)
    qed
    then have "filter (\<lambda>c. cmd_action c = MIGACTION_DROP_INDEX) cs = []"
      "filter (\<lambda>c. cmd_action c = MIGACTION_ADD_INDEX) cs = cs"
      by (auto simp: filter_empty_conv filter_id_conv)
    then show ?thesis using c by simp
  qed
qed simp

lemma sorted_wrt_filter_cmd: "sorted_wrt (\<le>) (cs :: cmd list) \<Longrightarrow> sorted_wrt (\<le>) (filter P cs)"
  by (induction cs) auto

lemma distinct_map_mset: "mset xs = mset ys \<Longrightarrow> distinct (map f xs) = distinct (map f ys)"
  by (metis mset_eq_imp_distinct_iff mset_map)

lemma distinct_concat_mset:
  assumes "mset xs = mset ys"
  shows "distinct (concat (map f xs)) = distinct (concat (map f ys))"
proof -
  have "mset (concat (map f zs)) = \<Sum>\<^sub># (image_mset (mset \<circ> f) (mset zs))" for zs :: "'a list"
    by (induction zs) auto
  then have "mset (concat (map f xs)) = mset (concat (map f ys))" using assms by simp
  then show ?thesis by (rule mset_eq_imp_distinct_iff)
qed

text \<open>The index commands of a sorted list, whatever the sort did within a priority.\<close>

lemma run_index_cmds:
  assumes "sorted_wrt (\<le>) cs" "\<forall>c \<in> set cs. well_made c"
    and drops: "distinct (map targetName (filter (\<lambda>c. cmd_action c = MIGACTION_DROP_INDEX) cs))"
      "\<forall>c \<in> set cs. cmd_action c = MIGACTION_DROP_INDEX \<longrightarrow> ixs (targetName c) \<noteq> None"
    and adds: "distinct (map targetName (filter (\<lambda>c. cmd_action c = MIGACTION_ADD_INDEX) cs))"
      "\<forall>c \<in> set cs. cmd_action c = MIGACTION_ADD_INDEX \<longrightarrow>
         ixs (targetName c) = None \<or> (\<exists>d \<in> set cs. cmd_action d = MIGACTION_DROP_INDEX \<and> targetName d = targetName c)"
  shows "run_all (index_effect m) cs ixs = Some (\<lambda>k.
    if \<exists>c \<in> set cs. cmd_action c = MIGACTION_ADD_INDEX \<and> targetName c = k then Some (getIndex k m)
    else if \<exists>c \<in> set cs. cmd_action c = MIGACTION_DROP_INDEX \<and> targetName c = k then None else ixs k)"
proof -
  let ?D = "filter (\<lambda>c. cmd_action c = MIGACTION_DROP_INDEX) cs"
  let ?A = "filter (\<lambda>c. cmd_action c = MIGACTION_ADD_INDEX) cs"
  have "filter is_index_cmd cs = ?D @ ?A"
    using drops_before_adds[OF sorted_wrt_filter_cmd[OF assms(1)], of is_index_cmd] assms(2)
    by (simp add: filter_filter is_index_cmd_def conj_commute cong: conj_cong)
  then have "run_all (index_effect m) cs ixs = run_all (index_effect m) (?D @ ?A) ixs"
    using run_all_skip[of cs is_index_cmd "index_effect m" ixs] index_effect_other by metis
  also have "\<dots> = run_all (index_effect m) ?A (\<lambda>k. if k \<in> targetName ` set ?D then None else ixs k)"
    using run_drops[OF drops(1), of ixs m] drops(2) by (simp add: run_all_append)
  also have "\<dots> = Some (\<lambda>k. if k \<in> targetName ` set ?A then Some (getIndex k m)
      else if k \<in> targetName ` set ?D then None else ixs k)"
    by (rule run_adds[OF adds(1)]) (use adds(2) in \<open>force simp: image_iff\<close>)
  finally show ?thesis by (auto simp: fun_eq_iff image_iff)
qed

section \<open>The commands of a difference\<close>

definition cols_of :: "field_meta list \<Rightarrow> string \<Rightarrow> field_meta option" where
  "cols_of fs k = find (\<lambda>g. getColumnName g = k) fs"

definition renamed_from :: "prev \<Rightarrow> field_meta \<Rightarrow> field_meta option" where
  "renamed_from pv f = (if cols_of (fieldsPrev pv) (getColumnName f) = None
     then find (\<lambda>g. fieldName g = fieldName f) (fieldsPrev pv) else None)"

text \<open>
  A previous version as the loaders leave it: named columns, each name once, numbered, and
  each index name once.
\<close>

definition prev_ok :: "prev \<Rightarrow> bool" where
  "prev_ok pv \<longleftrightarrow> distinct (map getColumnName (fieldsPrev pv))
     \<and> (\<forall>g \<in> set (fieldsPrev pv). getColumnName g \<noteq> [])
     \<and> (\<forall>i < length (fieldsPrev pv). uget (columnToIndexPrev pv) (getColumnName (fieldsPrev pv ! i)) = Some (int i))
     \<and> (\<forall>k. k \<notin> getColumnName ` set (fieldsPrev pv) \<longrightarrow> uget (columnToIndexPrev pv) k = None)
     \<and> distinct (map fst (indicesPrev pv))"

text \<open>
  A model with named columns and members, each name once, and indices without repeated
  columns.
\<close>

definition target_ok :: "model \<Rightarrow> bool" where
  "target_ok m \<longleftrightarrow> distinct (map getColumnName (m_metadata m)) \<and> distinct (map fieldName (m_metadata m))
     \<and> (\<forall>f \<in> set (m_metadata m). getColumnName f \<noteq> [] \<and> getMetadata_of (getColumnName f) m = Inr f)
     \<and> distinct (map fst (m_indices m)) \<and> (\<forall>(k, i) \<in> set (m_indices m). distinct (ix_columns i))"

text \<open>No column takes the place of another one that is renamed away.\<close>

definition no_swap :: "model \<Rightarrow> prev \<Rightarrow> bool" where
  "no_swap m pv \<longleftrightarrow> (\<forall>f \<in> set (m_metadata m). \<forall>g. renamed_from pv f = Some g \<longrightarrow>
     getColumnName g \<notin> getColumnName ` set (m_metadata m))"

lemma cols_of_None: "cols_of fs k = None \<longleftrightarrow> k \<notin> getColumnName ` set fs"
  by (auto simp: cols_of_def find_None_iff)

lemma cols_of_SomeD: "cols_of fs k = Some g \<Longrightarrow> g \<in> set fs \<and> getColumnName g = k"
  by (auto simp: cols_of_def find_Some_iff)

lemma cols_of_nth:
  assumes "distinct (map getColumnName fs)" "i < length fs"
  shows "cols_of fs (getColumnName (fs ! i)) = Some (fs ! i)"
proof -
  obtain g where g: "cols_of fs (getColumnName (fs ! i)) = Some g"
    using assms(2) cols_of_None[of fs "getColumnName (fs ! i)"] by (metis imageI not_None_eq nth_mem)
  from cols_of_SomeD[OF this] obtain j where "j < length fs" "fs ! j = g" "getColumnName g = getColumnName (fs ! i)"
    by (auto simp: in_set_conv_nth)
  then have "j = i" using assms by (metis length_map nth_eq_iff_index_eq nth_map)
  then show ?thesis using g \<open>fs ! j = g\<close> by simp
qed

lemma column_cmd_cases:
  assumes "prev_ok pv" "column_cmd conf pv f = Inr cs"
  obtains (same) g where "cs = []" "cols_of (fieldsPrev pv) (getColumnName f) = Some g" "field_eq conf f g = Inr True"
  | (change) g where "cs = [Cmd_new (getColumnName f) MIGACTION_CHANGE_COLUMN []]"
      "cols_of (fieldsPrev pv) (getColumnName f) = Some g"
  | (add) "cs = [Cmd_new (getColumnName f) MIGACTION_ADD_COLUMN []]"
      "cols_of (fieldsPrev pv) (getColumnName f) = None"
  | (rename) g where "cs = [Cmd_new (getColumnName f) MIGACTION_CHANGE_COLUMN (getColumnName g)]"
      "renamed_from pv f = Some g" "cols_of (fieldsPrev pv) (getColumnName f) = None"
proof (cases "cols_of (fieldsPrev pv) (getColumnName f)")
  case None
  then have "uget (columnToIndexPrev pv) (getColumnName f) = None"
    using assms(1) by (simp add: prev_ok_def cols_of_None)
  then show ?thesis using assms(2) None add rename
    by (auto simp: column_cmd_def renamed_from_def split: option.splits)
next
  case (Some g)
  from cols_of_SomeD[OF Some] obtain i where i: "i < length (fieldsPrev pv)" "fieldsPrev pv ! i = g"
    "getColumnName g = getColumnName f" by (auto simp: in_set_conv_nth)
  then have "uget (columnToIndexPrev pv) (getColumnName f) = Some (int i)"
    using assms(1) by (auto simp: prev_ok_def)
  then show ?thesis using assms(2) i Some same change
    by (auto simp: column_cmd_def rmap_eq_Inr_iff split: if_splits)
qed

lemma column_cmd_targets:
  assumes "prev_ok pv" "column_cmd conf pv f = Inr cs"
  shows "\<forall>c \<in> set cs. targetName c = getColumnName f
      \<and> (prevTargetName c \<noteq> [] \<longrightarrow> (\<exists>g. renamed_from pv f = Some g \<and> prevTargetName c = getColumnName g))"
    and "cs = [] \<longleftrightarrow> (\<exists>g. cols_of (fieldsPrev pv) (getColumnName f) = Some g \<and> field_eq conf f g = Inr True)
      \<and> cs = []"
  using assms by (auto elim!: column_cmd_cases)

definition olds_of :: "prev \<Rightarrow> field_meta list \<Rightarrow> string set" where
  "olds_of pv fs = {getColumnName g | f g. f \<in> set fs \<and> renamed_from pv f = Some g}"

lemma renamed_fromD:
  "renamed_from pv f = Some g \<Longrightarrow> g \<in> set (fieldsPrev pv) \<and> fieldName g = fieldName f"
  by (auto simp: renamed_from_def find_Some_iff split: if_splits)

lemma column_cmds_disjoint:
  assumes ok: "prev_ok pv" and run: "rmapM (column_cmd conf pv) fs = Inr css"
    and dist: "distinct (map getColumnName fs)" "distinct (map fieldName fs)"
    and swap: "olds_of pv fs \<inter> getColumnName ` set fs = {}"
    and named: "\<forall>f \<in> set fs. getColumnName f \<noteq> []"
  shows "distinct (concat (map touched (concat css)))
    \<and> set (concat (map touched (concat css))) \<subseteq> getColumnName ` set fs \<union> olds_of pv fs
    \<and> (\<forall>c \<in> set (concat css). applicable (cols_of (fieldsPrev pv)) c \<and> well_made c \<and> is_column_cmd c)"
  using run dist swap named
proof (induction fs arbitrary: css)
  case (Cons f fs)
  then obtain cs css' where css: "css = cs # css'" "column_cmd conf pv f = Inr cs"
    "rmapM (column_cmd conf pv) fs = Inr css'" by (auto simp: rbind_eq_Inr_iff rmap_eq_Inr_iff)
  have sub: "olds_of pv fs \<subseteq> olds_of pv (f # fs)" by (auto simp: olds_of_def)
  have d: "olds_of pv fs \<inter> getColumnName ` set fs = {}" using Cons.prems(4) sub by auto
  have IH: "distinct (concat (map touched (concat css')))"
    "set (concat (map touched (concat css'))) \<subseteq> getColumnName ` set fs \<union> olds_of pv fs"
    "\<forall>c \<in> set (concat css'). applicable (cols_of (fieldsPrev pv)) c \<and> well_made c \<and> is_column_cmd c"
    using Cons.IH[OF css(3) _ _ d] Cons.prems(2,3,5) by simp_all
  have f_away: "getColumnName f \<notin> getColumnName ` set fs \<union> olds_of pv fs"
    using Cons.prems(2,4) sub by auto
  let ?T = "set (concat (map touched (concat css')))"
  have T: "?T \<subseteq> getColumnName ` set (f # fs) \<union> olds_of pv (f # fs)"
    by (rule subset_trans[OF IH(2)]) (use sub in auto)
  have fa: "getColumnName f \<notin> ?T" using IH(2) f_away by blast
  from ok css(2) show ?case
  proof (cases rule: column_cmd_cases)
    case same
    then show ?thesis using IH(1,3) T by (simp add: css)
  next
    case change
    then show ?thesis using IH(1,3) T fa by (simp add: css)
  next
    case add
    then show ?thesis using IH(1,3) T fa by (simp add: css)
  next
    case (rename g)
    note g = renamed_fromD[OF rename(2)]
    have g_old: "getColumnName g \<in> olds_of pv (f # fs)" using rename(2) by (auto simp: olds_of_def)
    then have g_new: "getColumnName g \<notin> getColumnName ` set (f # fs)" using Cons.prems(4) by blast
    have "getColumnName g \<notin> olds_of pv fs"
    proof
      assume "getColumnName g \<in> olds_of pv fs"
      then obtain f' g' where f': "f' \<in> set fs" "renamed_from pv f' = Some g'" "getColumnName g = getColumnName g'"
        by (auto simp: olds_of_def)
      have "g = g'" using f'(3) renamed_fromD[OF f'(2)] g ok
        by (auto simp: prev_ok_def distinct_map inj_on_def)
      then show False using renamed_fromD[OF f'(2)] g f'(1) Cons.prems(3) by (auto simp: image_iff)
    qed
    moreover have "getColumnName g \<noteq> []" using g ok by (auto simp: prev_ok_def)
    moreover have "cols_of (fieldsPrev pv) (getColumnName g) \<noteq> None" using g by (auto simp: cols_of_None)
    moreover have "getColumnName g \<notin> ?T" using IH(2) g_new calculation(1) by auto
    ultimately show ?thesis using IH(1,3) T fa g_old g_new rename
      by (auto simp add: css)
  qed
qed (simp add: olds_of_def)

subsection \<open>Index commands\<close>

definition changed_index :: "index_info umap \<Rightarrow> string \<times> index_info \<Rightarrow> bool" where
  "changed_index cur kv \<longleftrightarrow> (\<exists>j. uget cur (fst kv) = Some j \<and> \<not> index_eq (snd kv) j)"

definition gone_index :: "index_info umap \<Rightarrow> string \<times> index_info \<Rightarrow> bool" where
  "gone_index cur kv \<longleftrightarrow> uget cur (fst kv) = None"

lemma old_index_targets:
  "map targetName (filter (\<lambda>c. cmd_action c = MIGACTION_DROP_INDEX) (concat (map (old_index_cmds cur) old)))
     = map fst (filter (\<lambda>kv. gone_index cur kv \<or> changed_index cur kv) old)"
  "map targetName (filter (\<lambda>c. cmd_action c = MIGACTION_ADD_INDEX) (concat (map (old_index_cmds cur) old)))
     = map fst (filter (changed_index cur) old)"
  by (induction old) (auto simp: old_index_cmds_def gone_index_def changed_index_def split: option.splits)

lemma new_index_targets:
  "filter (\<lambda>c. cmd_action c = MIGACTION_DROP_INDEX) (concat (map (new_index_cmds old) cur)) = []"
  "map targetName (filter (\<lambda>c. cmd_action c = MIGACTION_ADD_INDEX) (concat (map (new_index_cmds old) cur)))
     = map fst (filter (gone_index old) cur)"
  by (induction cur) (auto simp: new_index_cmds_def gone_index_def split: option.splits)

definition index_cmds :: "index_info umap \<Rightarrow> index_info umap \<Rightarrow> cmd list" where
  "index_cmds old cur = concat (map (old_index_cmds cur) old) @ concat (map (new_index_cmds old) cur)"

lemma index_cmds_well_made: "c \<in> set (index_cmds old cur) \<Longrightarrow> well_made c \<and> is_index_cmd c \<and> \<not> is_column_cmd c"
  by (auto simp: index_cmds_def old_index_cmds_def new_index_cmds_def split: option.splits if_splits prod.splits)

lemma targets_in:
  assumes "map targetName (filter P cs) = xs"
  shows "(\<exists>c \<in> set cs. P c \<and> targetName c = k) \<longleftrightarrow> k \<in> set xs"
proof -
  have "set xs = targetName ` {c \<in> set cs. P c}" using assms by auto
  then show ?thesis by auto
qed

lemma index_cmds_reach:
  assumes sorted: "sorted_wrt (\<le>) cs" and wm: "\<forall>c \<in> set cs. well_made c"
    and cs: "mset (filter is_index_cmd cs) = mset (index_cmds old (m_indices m))"
    and dist: "distinct (map fst old)" "distinct (map fst (m_indices m))"
    and cols: "\<forall>(k, i) \<in> set (m_indices m). distinct (ix_columns i)"
  shows "\<exists>ixs. run_all (index_effect m) cs (uget old) = Some ixs
    \<and> (\<forall>k. ixs k = None \<longleftrightarrow> uget (m_indices m) k = None)
    \<and> (\<forall>k i j. ixs k = Some i \<and> uget (m_indices m) k = Some j \<longrightarrow> index_eq i j)"
proof -
  let ?cur = "m_indices m"
  let ?I = "filter is_index_cmd cs"
  let ?drop = "\<lambda>c. cmd_action c = MIGACTION_DROP_INDEX" and ?add = "\<lambda>c. cmd_action c = MIGACTION_ADD_INDEX"
  define D where "D = map fst (filter (\<lambda>kv. gone_index ?cur kv \<or> changed_index ?cur kv) old)"
  define A where "A = map fst (filter (changed_index ?cur) old) @ map fst (filter (gone_index old) ?cur)"
  have D: "map targetName (filter ?drop (index_cmds old ?cur)) = D"
    and A: "map targetName (filter ?add (index_cmds old ?cur)) = A"
    by (simp_all add: index_cmds_def old_index_targets new_index_targets D_def A_def)
  have dD: "distinct D" unfolding D_def using dist(1) by (simp add: distinct_map_filter)
  have dA: "distinct A" unfolding A_def using dist
    by (auto simp: distinct_map_filter gone_index_def uget_def map_of_eq_None_iff) (metis fst_conv image_eqI)
  have perm: "mset (filter P ?I) = mset (filter P (index_cmds old ?cur))" for P
    using cs by (metis mset_filter)
  have set_I: "set ?I = set (index_cmds old ?cur)" using cs by (rule mset_eq_setD)
  have D_iff: "(\<exists>c \<in> set ?I. ?drop c \<and> targetName c = k) \<longleftrightarrow> k \<in> set D" for k
    using targets_in[OF D] unfolding set_I .
  have A_iff: "(\<exists>c \<in> set ?I. ?add c \<and> targetName c = k) \<longleftrightarrow> k \<in> set A" for k
    using targets_in[OF A] unfolding set_I .
  have old: "uget old k \<noteq> None \<longleftrightarrow> k \<in> fst ` set old" for k
    by (simp add: uget_def map_of_eq_None_iff)
  have run: "run_all (index_effect m) ?I (uget old) = Some (\<lambda>k. if k \<in> set A then Some (getIndex k m)
      else if k \<in> set D then None else uget old k)"
  proof (subst run_index_cmds)
    show "sorted_wrt (\<le>) ?I" by (rule sorted_wrt_filter_cmd[OF sorted])
    show "\<forall>c \<in> set ?I. well_made c" using wm by simp
    show "distinct (map targetName (filter ?drop ?I))"
      unfolding distinct_map_mset[OF perm] D by (rule dD)
    show "distinct (map targetName (filter ?add ?I))"
      unfolding distinct_map_mset[OF perm] A by (rule dA)
    show "\<forall>c \<in> set ?I. ?drop c \<longrightarrow> uget old (targetName c) \<noteq> None"
    proof (intro ballI impI)
      fix c assume "c \<in> set ?I" "?drop c"
      then have "targetName c \<in> set D" using D_iff by blast
      then show "uget old (targetName c) \<noteq> None" unfolding old by (auto simp: D_def)
    qed
    show "\<forall>c \<in> set ?I. ?add c \<longrightarrow> uget old (targetName c) = None \<or> (\<exists>d \<in> set ?I. ?drop d \<and> targetName d = targetName c)"
    proof (intro ballI impI)
      fix c assume "c \<in> set ?I" "?add c"
      then have "targetName c \<in> set A" using A_iff by blast
      then show "uget old (targetName c) = None \<or> (\<exists>d \<in> set ?I. ?drop d \<and> targetName d = targetName c)"
        unfolding D_iff by (auto simp: A_def D_def gone_index_def)
    qed
  qed (simp only: D_iff A_iff)
  have known: "uget ?cur k = Some j \<longleftrightarrow> (k, j) \<in> set ?cur" for k j
    using dist(2) by (simp add: uget_def)
  have known_old: "uget old k = Some j \<longleftrightarrow> (k, j) \<in> set old" for k j
    using dist(1) by (simp add: uget_def)
  have A_cur: "uget ?cur k \<noteq> None" if "k \<in> set A" for k
  proof -
    have "k \<in> fst ` set ?cur \<or> (\<exists>j. uget ?cur k = Some j)"
      using that unfolding A_def by (force simp: changed_index_def)
    moreover have "k \<in> fst ` set ?cur \<longleftrightarrow> uget ?cur k \<noteq> None" by (simp add: uget_def map_of_eq_None_iff)
    ultimately show ?thesis by auto
  qed
  have none: "(if k \<in> set A then Some (getIndex k m) else if k \<in> set D then None else uget old k) = None
      \<longleftrightarrow> uget ?cur k = None" for k
  proof (cases "k \<in> set A")
    case notA: False
    show ?thesis
    proof (cases "uget old k")
      case None
      then have "uget ?cur k = None"
        using notA by (auto simp: A_def gone_index_def uget_def map_of_eq_None_iff)
      then show ?thesis using notA None by simp
    next
      case (Some i)
      then have "k \<in> set D \<longleftrightarrow> uget ?cur k = None"
        using notA dist(1) unfolding known_old
        by (auto simp: A_def D_def gone_index_def image_iff)
      then show ?thesis using notA Some by simp
    qed
  qed (use A_cur in auto)
  have same: "index_eq i j" if "(if k \<in> set A then Some (getIndex k m) else if k \<in> set D then None else uget old k) = Some i"
    "uget ?cur k = Some j" for k i j
  proof (cases "k \<in> set A")
    case True
    then have "i = j" using that by (simp add: getIndex_def)
    moreover have "distinct (ix_columns j)" using cols that(2) unfolding known by auto
    ultimately show ?thesis by (simp add: index_eq_refl_iff)
  next
    case False
    then have "(k, i) \<in> set old" using that(1) known_old by (auto split: if_splits)
    then have "\<not> changed_index ?cur (k, i)" using False by (force simp: A_def)
    then show ?thesis using that(2) by (simp add: changed_index_def)
  qed
  have "run_all (index_effect m) cs (uget old) = run_all (index_effect m) ?I (uget old)"
    using run_all_skip[of cs is_index_cmd "index_effect m" "uget old"] index_effect_other by metis
  then have "run_all (index_effect m) cs (uget old) = Some (\<lambda>k. if k \<in> set A then Some (getIndex k m)
      else if k \<in> set D then None else uget old k)" using run by (rule trans)
  then show ?thesis
  proof (intro exI conjI allI impI)
    fix k
    show "((if k \<in> set A then Some (getIndex k m) else if k \<in> set D then None else uget old k) = None)
      = (uget ?cur k = None)" by (rule none)
  next
    fix k i j
    assume "(if k \<in> set A then Some (getIndex k m) else if k \<in> set D then None else uget old k) = Some i
      \<and> uget ?cur k = Some j"
    then show "index_eq i j" using same[of k i j] by blast
  qed
qed

section \<open>From the previous version to the model\<close>

lemma column_cmds_reach:
  assumes ok: "prev_ok pv" "target_ok m" "no_swap m pv"
    and css: "rmapM (column_cmd conf pv) (m_metadata m) = Inr css"
    and cs: "mset (filter is_column_cmd cs) = mset (concat css)"
  shows "\<exists>cols. run_all (column_effect m) cs (cols_of (fieldsPrev pv)) = Some cols
    \<and> (\<forall>f \<in> set (m_metadata m). \<exists>g. cols (getColumnName f) = Some g \<and> field_eq conf f g = Inr True)"
proof -
  let ?C = "filter is_column_cmd cs"
  let ?N = "getColumnName ` set (m_metadata m)"
  have swap: "olds_of pv (m_metadata m) \<inter> ?N = {}"
    using ok(3) unfolding olds_of_def no_swap_def by blast
  note cmds = column_cmds_disjoint[OF ok(1) css _ _ swap]
  have dist: "distinct (concat (map touched (concat css)))"
    and sub: "set (concat (map touched (concat css))) \<subseteq> ?N \<union> olds_of pv (m_metadata m)"
    and app: "\<forall>c \<in> set (concat css). applicable (cols_of (fieldsPrev pv)) c"
    using cmds ok(2) by (auto simp: target_ok_def)
  have set_C: "set ?C = set (concat css)" using cs by (rule mset_eq_setD)
  have "distinct (concat (map touched ?C))" using dist unfolding distinct_concat_mset[OF cs] .
  moreover have "\<forall>c \<in> set ?C. applicable (cols_of (fieldsPrev pv)) c" using app unfolding set_C .
  ultimately obtain cols where run: "run_all (column_effect m) ?C (cols_of (fieldsPrev pv)) = Some cols"
    and cols: "\<forall>k. cols k = (if k \<in> targetName ` set ?C then new_column m k
         else if k \<in> set (concat (map touched ?C)) then None else cols_of (fieldsPrev pv) k)"
    using run_column_cmds[of ?C "cols_of (fieldsPrev pv)" m] by blast
  have touched_eq: "set (concat (map touched ?C)) = set (concat (map touched (concat css)))"
    by (simp add: set_C[simplified])
  have "\<exists>g. cols (getColumnName f) = Some g \<and> field_eq conf f g = Inr True" if f: "f \<in> set (m_metadata m)" for f
  proof -
    have new: "new_column m (getColumnName f) = Some f" using ok(2) f by (simp add: new_column_def target_ok_def)
    obtain cs' where cs': "cs' \<in> set css" "column_cmd conf pv f = Inr cs'"
      using rmapM_Inr_mem(1)[OF css f] by blast
    show ?thesis
    proof (cases "getColumnName f \<in> targetName ` set ?C")
      case True
      then show ?thesis using cols new field_eq_refl by auto
    next
      case False
      have "cs' = []"
      proof (rule ccontr)
        assume "cs' \<noteq> []"
        then obtain c where "c \<in> set cs'" by (cases cs') auto
        then have "c \<in> set ?C" "targetName c = getColumnName f"
          using cs' set_C column_cmd_targets(1)[OF ok(1) cs'(2)] by auto
        then show False using False by (metis imageI)
      qed
      then obtain g where
        g: "cols_of (fieldsPrev pv) (getColumnName f) = Some g" "field_eq conf f g = Inr True"
        using column_cmd_targets(2)[OF ok(1) cs'(2)] by blast
      have "getColumnName f \<notin> set (concat (map touched ?C))"
      proof
        assume "getColumnName f \<in> set (concat (map touched ?C))"
        then obtain c where c: "c \<in> set ?C" "getColumnName f \<in> set (touched c)" by auto
        have old: "getColumnName f = prevTargetName c" "prevTargetName c \<noteq> []"
          using False c by (auto simp: touched_def split: if_splits)
        from c(1) set_C obtain cs2 where "cs2 \<in> set css" "c \<in> set cs2" by auto
        then obtain f' where "f' \<in> set (m_metadata m)" "column_cmd conf pv f' = Inr cs2"
          using rmapM_Inr_mem(2)[OF css] by blast
        then have "getColumnName f \<in> olds_of pv (m_metadata m)"
          using column_cmd_targets(1)[OF ok(1)] old \<open>c \<in> set cs2\<close> by (fastforce simp: olds_of_def)
        then show False using swap f by auto
      qed
      then show ?thesis using cols False g by auto
    qed
  qed
  moreover have "run_all (column_effect m) cs (cols_of (fieldsPrev pv)) = Some cols"
    using run_all_skip[of cs is_column_cmd "column_effect m"] column_effect_other run by metis
  ultimately show ?thesis by blast
qed

end
