(* ===== verification/Migration_Props.thy ===== *)
theory Migration_Props
  imports Migration_Laws
begin

text \<open>
  The properties of the migration: it leads to the model, an unchanged model is left alone,
  a new table is created with one statement, and two statements come out wrong.
\<close>

section \<open>The commands and their texts\<close>

lemma column_not_index: "is_column_cmd c \<Longrightarrow> \<not> is_index_cmd c"
  by (auto simp: is_column_cmd_def is_index_cmd_def)

lemma diff_cmds_parts:
  assumes "diff_cmds conf m pv = Inr cmds" "fieldsPrev pv \<noteq> []" "target_ok m" "prev_ok pv" "no_swap m pv"
  obtains css table where "getTableName m = Inr table" "rmapM (column_cmd conf pv) (m_metadata m) = Inr css"
    "filter is_column_cmd cmds = concat css"
    "filter is_index_cmd cmds = index_cmds (indicesPrev pv) (m_indices m)"
    "\<forall>c \<in> set cmds. well_made c"
    "\<forall>c \<in> set cmds. is_column_cmd c \<longrightarrow> targetName c \<in> getColumnName ` set (m_metadata m)"
proof -
  obtain table dflt css where p: "getTableName m = Inr table" "rmapM (column_cmd conf pv) (m_metadata m) = Inr css"
    and cmds: "cmds = (if length (tablenamePrev pv) \<noteq> 0 \<and> tablenamePrev pv \<noteq> table
           then [Cmd_new table MIGACTION_CHANGE_TABLENAME dflt] else [])
          @ concat css @ index_cmds (indicesPrev pv) (m_indices m)"
    using assms(1,2) by (auto simp: diff_cmds_def rbind_eq_Inr_iff rmap_eq_Inr_iff index_cmds_def)
  have swap: "olds_of pv (m_metadata m) \<inter> getColumnName ` set (m_metadata m) = {}"
    using assms(5) unfolding olds_of_def no_swap_def by blast
  have "distinct (map getColumnName (m_metadata m))" "distinct (map fieldName (m_metadata m))"
    "\<forall>f \<in> set (m_metadata m). getColumnName f \<noteq> []"
    using assms(3) by (auto simp: target_ok_def)
  from column_cmds_disjoint[OF assms(4) p(2) this(1,2) swap this(3)]
  have col: "\<forall>c \<in> set (concat css). well_made c \<and> is_column_cmd c \<and> \<not> is_index_cmd c"
    using column_not_index by blast
  have tgt: "\<forall>c \<in> set (concat css). targetName c \<in> getColumnName ` set (m_metadata m)"
    using rmapM_Inr_mem(2)[OF p(2)] column_cmd_targets(1)[OF assms(4)] by fastforce
  note ind = index_cmds_well_made[of _ "indicesPrev pv" "m_indices m"]
  have "filter is_column_cmd (concat css) = concat css" "filter is_index_cmd (concat css) = []"
    "filter is_column_cmd (index_cmds (indicesPrev pv) (m_indices m)) = []"
    "filter is_index_cmd (index_cmds (indicesPrev pv) (m_indices m)) = index_cmds (indicesPrev pv) (m_indices m)"
    using col ind by (auto simp: filter_id_conv filter_empty_conv)
  then have "filter is_column_cmd cmds = concat css"
    "filter is_index_cmd cmds = index_cmds (indicesPrev pv) (m_indices m)"
    by (simp_all add: cmds)
  moreover have "\<forall>c \<in> set cmds. well_made c" using col ind unfolding cmds by auto
  moreover have "\<forall>c \<in> set cmds. is_column_cmd c \<longrightarrow> targetName c \<in> getColumnName ` set (m_metadata m)"
    using tgt ind unfolding cmds by auto
  ultimately show ?thesis by (rule that[OF p])
qed

lemma texts_defined:
  assumes "getTableName m = Inr table"
    and "is_column_cmd c \<longrightarrow> (\<exists>f. getMetadata_of (targetName c) m = Inr f)"
  shows "\<exists>sql. command_sql conf m c = Inr sql"
  using assms by (cases "cmd_action c") (auto simp: command_sql_def is_column_cmd_def Let_def)

lemma migrate_texts:
  assumes "c_handle conn = Some h" "\<forall>c \<in> set (sorter cmds). \<exists>sql. command_sql conf m c = Inr sql"
  shows "\<exists>sqls. migrate conf sorter answer conn m cmds = Inr sqls
    \<and> list_all2 (\<lambda>c sql. command_sql conf m c = Inr sql) (sorter cmds) sqls"
proof -
  from assms(2) obtain g where g: "\<forall>c \<in> set (sorter cmds). command_sql conf m c = Inr (g c)" by metis
  then have "migrate conf sorter answer conn m cmds = Inr (map g (sorter cmds))"
    unfolding migrate_def using assms(1) by (intro rmapM_total) (simp add: conn_executeUpdate_def)
  moreover have "list_all2 (\<lambda>c sql. command_sql conf m c = Inr sql) (sorter cmds) (map g (sorter cmds))"
    using g by (simp add: list.rel_map list_all2_same)
  ultimately show ?thesis by blast
qed

lemma sorts_insertion: "sorts (sort_key cmd_priority)"
  by (simp add: sorts_def cmd_le_iff[abs_def] sorted_wrt_map[symmetric])

lemma sorts_short: "sorts sorter \<Longrightarrow> sorter [] = []" "sorts sorter \<Longrightarrow> sorter [c] = [c]"
  unfolding sorts_def by (metis mset_zero_iff_right mset.simps(1), metis mset_single_iff_right mset.simps)


lemma migration_effect:
  assumes "sorts sorter" "prev_ok pv" "target_ok m" "no_swap m pv" "fieldsPrev pv \<noteq> []"
    and "diff_cmds conf m pv = Inr cmds" "c_handle conn = Some h"
  shows "\<exists>cs sqls cols ixs. mset cs = mset cmds \<and> migrate conf sorter answer conn m cmds = Inr sqls
    \<and> list_all2 (\<lambda>c sql. command_sql conf m c = Inr sql) cs sqls
    \<and> run_all (effect m) cs (cols_of (fieldsPrev pv), uget (indicesPrev pv)) = Some (cols, ixs)
    \<and> (\<forall>f \<in> set (m_metadata m). \<exists>g. cols (getColumnName f) = Some g \<and> field_eq conf f g = Inr True)
    \<and> (\<forall>k. ixs k = None \<longleftrightarrow> uget (m_indices m) k = None)
    \<and> (\<forall>k i j. ixs k = Some i \<and> uget (m_indices m) k = Some j \<longrightarrow> index_eq i j)"
proof -
  obtain css table where parts: "getTableName m = Inr table" "rmapM (column_cmd conf pv) (m_metadata m) = Inr css"
    "filter is_column_cmd cmds = concat css"
    "filter is_index_cmd cmds = index_cmds (indicesPrev pv) (m_indices m)"
    "\<forall>c \<in> set cmds. well_made c"
    "\<forall>c \<in> set cmds. is_column_cmd c \<longrightarrow> targetName c \<in> getColumnName ` set (m_metadata m)"
    by (rule diff_cmds_parts[OF assms(6,5,3,2,4)])
  let ?cs = "sorter cmds"
  have perm: "mset ?cs = mset cmds" and sorted: "sorted_wrt (\<le>) ?cs" using assms(1) by (auto simp: sorts_def)
  have set_cs: "set ?cs = set cmds" using perm by (rule mset_eq_setD)
  have "mset (filter is_column_cmd ?cs) = mset (concat css)" using perm parts(3) by (metis mset_filter)
  from column_cmds_reach[OF assms(2,3,4) parts(2) this] obtain cols where
    cols: "run_all (column_effect m) ?cs (cols_of (fieldsPrev pv)) = Some cols"
    "\<forall>f \<in> set (m_metadata m). \<exists>g. cols (getColumnName f) = Some g \<and> field_eq conf f g = Inr True" by blast
  have "mset (filter is_index_cmd ?cs) = mset (index_cmds (indicesPrev pv) (m_indices m))"
    using perm parts(4) by (metis mset_filter)
  moreover have "distinct (map fst (indicesPrev pv))" "distinct (map fst (m_indices m))"
    "\<forall>(k, i) \<in> set (m_indices m). distinct (ix_columns i)"
    using assms(2,3) by (auto simp: prev_ok_def target_ok_def)
  ultimately obtain ixs where ixs: "run_all (index_effect m) ?cs (uget (indicesPrev pv)) = Some ixs"
    "\<forall>k. ixs k = None \<longleftrightarrow> uget (m_indices m) k = None"
    "\<forall>k i j. ixs k = Some i \<and> uget (m_indices m) k = Some j \<longrightarrow> index_eq i j"
    using index_cmds_reach[OF sorted, of "indicesPrev pv" m] parts(5) set_cs by blast
  have "\<forall>c \<in> set ?cs. \<exists>sql. command_sql conf m c = Inr sql"
    using texts_defined[OF parts(1)] parts(6) assms(3) unfolding set_cs target_ok_def by fastforce
  from migrate_texts[OF assms(7), where sorter = sorter and cmds = cmds, OF this] obtain sqls where
    "migrate conf sorter answer conn m cmds = Inr sqls"
    "list_all2 (\<lambda>c sql. command_sql conf m c = Inr sql) ?cs sqls" by blast
  with perm run_all_effect[OF cols(1) ixs(1)] cols(2) ixs(2,3) show ?thesis by blast
qed

section \<open>Properties\<close>


section \<open>An unchanged model\<close>

lemma AutoMigrate_leaves:
  assumes "AutoMigrate conf sorter file info metas answer conn db m pv0 = Some (Inr (sqls, m', pv))"
  shows "getTableName m = Inr (tablenamePrev pv) \<and> fieldsPrev pv = m_metadata m \<and> indicesPrev pv = m_indices m"
  using assms by (auto simp: AutoMigrate_def obind_def Let_def split: option.splits sum.splits prod.splits if_splits)

definition saved_of :: "string \<Rightarrow> prev \<Rightarrow> saved_model" where
  "saved_of cls pv = \<lparr>sv_class = cls, sv_table = tablenamePrev pv, sv_fields = fieldsPrev pv,
     sv_indices = indicesPrev pv\<rparr>"

lemma number_columns_get:
  "distinct ns \<Longrightarrow> i < length ns \<Longrightarrow> uget (number_columns n ns m) (ns ! i) = Some (n + int i)"
proof (induction ns arbitrary: n m i)
  case (Cons c ns)
  have keep: "k \<notin> set ns \<Longrightarrow> uget (number_columns n ns m) k = uget m k" for n k m
    by (induction ns arbitrary: n m) auto
  show ?case using Cons by (cases i) (auto simp: keep)
qed simp

lemma stored_field_eq: "field_eq conf f (stored_field conf f) = Inr True"
  by (rule field_eq_cong) (simp_all add: stored_field_def getColumnName_def getColumnType_def)

lemma diff_unchanged:
  assumes "getTableName m = Inr t" "distinct (map getColumnName (m_metadata m))"
    and "distinct (map fst (m_indices m))" "\<forall>(k, i) \<in> set (m_indices m). distinct (ix_columns i)"
    and "getDefaultTableName m = Inr d"
  shows "diff_cmds conf m \<lparr>tablenamePrev = t, fieldsPrev = map (stored_field conf) (m_metadata m),
    indicesPrev = m_indices m, columnToIndexPrev = number_columns 0 (map getColumnName (m_metadata m)) []\<rparr> = Inr []"
proof -
  let ?pv = "\<lparr>tablenamePrev = t, fieldsPrev = map (stored_field conf) (m_metadata m),
    indicesPrev = m_indices m, columnToIndexPrev = number_columns 0 (map getColumnName (m_metadata m)) []\<rparr>"
  have "column_cmd conf ?pv f = Inr []" if f: "f \<in> set (m_metadata m)" for f
  proof -
    from f obtain i where i: "i < length (m_metadata m)" "m_metadata m ! i = f" by (auto simp: in_set_conv_nth)
    then show ?thesis using number_columns_get[OF assms(2), of i 0 "[]"]
      by (simp add: column_cmd_def stored_field_eq)
  qed
  then have "rmapM (column_cmd conf ?pv) (m_metadata m) = Inr (map (\<lambda>f. []) (m_metadata m))"
    by (rule rmapM_total)
  moreover have "old_index_cmds (m_indices m) kv = []" "new_index_cmds (m_indices m) kv = []"
    if kv: "kv \<in> set (m_indices m)" for kv
  proof -
    obtain k i where k: "kv = (k, i)" by (cases kv)
    have "uget (m_indices m) k = Some i" "distinct (ix_columns i)"
      using kv k assms(3,4) by (auto simp: uget_def)
    then show "old_index_cmds (m_indices m) kv = []" "new_index_cmds (m_indices m) kv = []"
      by (simp_all add: k old_index_cmds_def new_index_cmds_def index_eq_refl_iff)
  qed
  ultimately show ?thesis using assms(1,5) by (simp add: diff_cmds_def)
qed

text \<open>
  A model migrated from a data file in which it stands as it is: the load finds it, there is no
  difference, and the statics end up with the model.
\<close>

lemma migrate_unchanged:
  assumes ok: "\<forall>x \<in> set ms. model_ok conf x" "distinct (map sv_class ms)" "sm \<in> set ms"
    and m: "getClassName (m_typeid m) = Inr (sv_class sm)" "getTableName m = Inr (sv_table sm)"
      "sv_fields sm = m_metadata m" "sv_indices sm = m_indices m"
    and model: "distinct (map getColumnName (m_metadata m))"
      "\<forall>(k, i) \<in> set (m_indices m). distinct (ix_columns i)"
    and sort: "sorts sorter"
  shows "\<exists>m'' pv''. AutoMigrate conf sorter (Some (data_file conf ms)) info metas answer conn db m prev_empty
      = Some (Inr ([], m'', pv''))
    \<and> tablenamePrev pv'' = sv_table sm \<and> fieldsPrev pv'' = m_metadata m \<and> indicesPrev pv'' = m_indices m"
    and "\<exists>fs ins ci. loadFromFile (Some (data_file conf ms)) (sv_class sm) ([], [], [], [])
      = Some (Inr (sv_table sm, fs, ins, ci)) \<and> sv_table sm \<noteq> []"
proof -
  have load: "loadFromFile (Some (data_file conf ms)) (sv_class sm) ([], [], [], []) =
    Some (Inr (sv_table sm, map (stored_field conf) (m_metadata m), m_indices m,
      number_columns 0 (map getColumnName (m_metadata m)) []))"
    using saved_model_loads[OF ok] saveModels_bytes[OF ok(1)] m by simp
  have named: "sv_table sm \<noteq> []" and dix: "distinct (map fst (m_indices m))"
    using ok(1,3) m by (auto simp: model_ok_def names_ok_def sep_ok_def)
  show "\<exists>fs ins ci. loadFromFile (Some (data_file conf ms)) (sv_class sm) ([], [], [], [])
      = Some (Inr (sv_table sm, fs, ins, ci)) \<and> sv_table sm \<noteq> []"
    using load named by simp
  obtain d where d: "getDefaultTableName m = Inr d"
    using m(1) by (simp add: getDefaultTableName_def)
  note diff = diff_unchanged[OF m(2) model(1) dix model(2) d, of conf]
  have "migrate conf sorter answer conn m [] = Inr []" using sorts_short(1)[OF sort] by (simp add: migrate_def)
  then show "\<exists>m'' pv''. AutoMigrate conf sorter (Some (data_file conf ms)) info metas answer conn db m prev_empty
      = Some (Inr ([], m'', pv''))
    \<and> tablenamePrev pv'' = sv_table sm \<and> fieldsPrev pv'' = m_metadata m \<and> indicesPrev pv'' = m_indices m"
    using load diff named m by (simp add: AutoMigrate_def prev_empty_def)
qed

text \<open>
  Migrating twice does nothing the second time: when the statics left by a first
  \<^verbatim>\<open>AutoMigrate\<close> are saved to the data file, among those of other models, and a new process
  migrates the same model, no statement is sent, whatever the server and the schema say.
\<close>

theorem second_migration_is_empty:
  assumes first: "AutoMigrate conf sorter0 file0 info0 metas0 answer0 conn0 db m pv0 = Some (Inr (sqls, m', pv))"
    and saved: "rmap concat (rmapM (\<lambda>(ty, p). Model_saveModel conf ty p) saves) = Inr content"
      "(m_typeid m, pv) \<in> set saves"
    and fits: "\<forall>(ty, p) \<in> set saves. \<exists>cls. getClassName ty = Inr cls \<and> model_ok conf (saved_of cls p)"
      "distinct (map (getClassName \<circ> fst) saves)"
    and model: "distinct (map getColumnName (m_metadata m))"
      "\<forall>(k, i) \<in> set (m_indices m). distinct (ix_columns i)"
    and sort: "sorts sorter"
  shows "\<exists>m'' pv''. AutoMigrate conf sorter (Some content) info metas answer conn db m prev_empty = Some (Inr ([], m'', pv''))
    \<and> tablenamePrev pv'' = tablenamePrev pv \<and> fieldsPrev pv'' = m_metadata m \<and> indicesPrev pv'' = m_indices m"
proof -
  note left = AutoMigrate_leaves[OF first]
  define cls_of where "cls_of ty = (case getClassName ty of Inr c \<Rightarrow> c | Inl e \<Rightarrow> [])" for ty
  define ms where "ms = map (\<lambda>(ty, p). saved_of (cls_of ty) p) saves"
  have cls: "getClassName ty = Inr (cls_of ty)" "model_ok conf (saved_of (cls_of ty) p)" if "(ty, p) \<in> set saves" for ty p
    using fits(1) that by (auto simp: cls_of_def)
  have ok: "\<forall>x \<in> set ms. model_ok conf x" using cls(2) by (auto simp: ms_def)
  have "rmapM (\<lambda>(ty, p). Model_saveModel conf ty p) saves
      = Inr (map (\<lambda>(ty, p). HEADER_MARKER # sv_rest conf (saved_of (cls_of ty) p)) saves)"
  proof (rule rmapM_total)
    fix x assume "x \<in> set saves"
    then obtain ty p where x: "x = (ty, p)" "(ty, p) \<in> set saves" by (metis surj_pair)
    from saveModel_bytes[OF cls(2)[OF x(2)]] cls(1)[OF x(2)]
    show "(case x of (ty, p) \<Rightarrow> Model_saveModel conf ty p)
        = Inr (case x of (ty, p) \<Rightarrow> HEADER_MARKER # sv_rest conf (saved_of (cls_of ty) p))"
      by (simp add: x(1) Model_saveModel_def saved_of_def)
  qed
  then have content: "content = data_file conf ms"
    using saved(1) by (simp add: data_file_def ms_def case_prod_unfold o_def)
  have "map sv_class ms = map (cls_of \<circ> fst) saves" by (simp add: ms_def saved_of_def case_prod_beta o_def)
  moreover have "map (getClassName \<circ> fst) saves = map Inr (map (cls_of \<circ> fst) saves)"
    using cls(1) by auto
  then have "distinct (map (cls_of \<circ> fst) saves)" using fits(2) by (metis distinct_map)
  ultimately have dist: "distinct (map sv_class ms)" by simp
  have sm: "saved_of (cls_of (m_typeid m)) pv \<in> set ms" using saved(2) by (force simp: ms_def)
  from migrate_unchanged(1)[OF ok dist sm _ _ _ _ model sort] left cls(1)[OF saved(2)] show ?thesis
    by (simp add: content saved_of_def)
qed

section \<open>A new table\<close>

lemma AutoMigrate_new_table:
  assumes "getClassName (m_typeid m) = Inr cls" "getTableName m = Inr table" "getDefaultTableName m = Inr dflt"
    and "describes info db table [] ids" "describes info db dflt [] ids'"
    and "c_handle (metas 0) = Some h0" "c_handle (metas 1) = Some h1" "c_handle conn = Some h"
    and "sorts sorter"
  shows "AutoMigrate conf sorter None info metas answer conn db m prev_empty
    = Some (Inr ([create_table_sql conf table m], m\<lparr>m_metadata := [], m_indices := []\<rparr>,
        \<lparr>tablenamePrev = table, fieldsPrev = m_metadata m, indicesPrev = m_indices m, columnToIndexPrev = []\<rparr>))"
proof -
  let ?c = "Cmd_new [] MIGACTION_CREATE_TABLE []"
  have "migrate conf sorter answer conn m [?c] = Inr [create_table_sql conf table m]"
    using assms(2,8) by (simp add: migrate_def sorts_short(2)[OF assms(9)] command_sql_def conn_executeUpdate_def)
  moreover have "load_schema conf info metas db m prev_empty = Some (Inr (prev_empty, [?c]))"
    using load_absent[OF assms(4,6)] load_absent[OF assms(5,7)] assms(2,3)
    by (simp add: load_schema_def prev_empty_def)
  ultimately show ?thesis using assms(1,2)
    by (simp add: AutoMigrate_def loadFromFile_def prev_empty_def diff_cmds_def)
qed


section \<open>Two statements that come out wrong\<close>

lemma comma_list_parens:
  "\<forall>x \<in> set xs. p \<notin> set x \<Longrightarrow> p \<noteq> CHR '','' \<Longrightarrow> p \<noteq> CHR '' '' \<Longrightarrow> p \<notin> set (comma_list xs)"
  by (auto simp: comma_list_def set_zip)

text \<open>
  C30: Two statements of a migration are not what they are meant to be. Adding a primary key to
  a table sends a text with a closing parenthesis and no opening one, for every table and
  column names without parentheses. Renaming a table that the data file remembers names the
  default table in place of the remembered one, whatever that is.
\<close>

theorem broken_statements:
  "(getTableName m = Inr table \<and> uget (m_indices m) ''PRIMARY'' = Some i \<and> ix_type i = INDEX_TYPE_PRI
      \<and> CHR ''('' \<notin> set table \<and> (\<forall>c \<in> set (ix_columns i). CHR ''('' \<notin> set c)
      \<longrightarrow> (\<exists>sql. command_sql conf m (Cmd_new ''PRIMARY'' MIGACTION_ADD_INDEX []) = Inr sql
           \<and> last sql = CHR '')'' \<and> CHR ''('' \<notin> set sql))
   \<and> (diff_cmds conf m pv = Inr cmds \<and> getTableName m = Inr table \<and> getDefaultTableName m = Inr dflt
      \<and> fieldsPrev pv \<noteq> [] \<and> tablenamePrev pv \<noteq> [] \<and> tablenamePrev pv \<noteq> table
      \<longrightarrow> command_sql conf m (hd cmds) = Inr (''ALTER TABLE '' @ dflt @ '' RENAME AS '' @ table))"
proof (rule conjI; intro impI; elim conjE)
  assume a: "getTableName m = Inr table" "uget (m_indices m) ''PRIMARY'' = Some i" "ix_type i = INDEX_TYPE_PRI"
    "CHR ''('' \<notin> set table" "\<forall>c \<in> set (ix_columns i). CHR ''('' \<notin> set c"
  then have "command_sql conf m (Cmd_new ''PRIMARY'' MIGACTION_ADD_INDEX []) = Inr (add_index_sql table ''PRIMARY'' i)"
    by (simp add: command_sql_def getIndex_def)
  moreover have "CHR ''('' \<notin> set (comma_list (ix_columns i))" using a(5) by (simp add: comma_list_parens)
  then have "last (add_index_sql table ''PRIMARY'' i) = CHR '')'' \<and> CHR ''('' \<notin> set (add_index_sql table ''PRIMARY'' i)"
    using a by (simp add: add_index_sql_def)
  ultimately show "\<exists>sql. command_sql conf m (Cmd_new ''PRIMARY'' MIGACTION_ADD_INDEX []) = Inr sql
      \<and> last sql = CHR '')'' \<and> CHR ''('' \<notin> set sql" by blast
next
  assume "diff_cmds conf m pv = Inr cmds" "getTableName m = Inr table" "getDefaultTableName m = Inr dflt"
    "fieldsPrev pv \<noteq> []" "tablenamePrev pv \<noteq> []" "tablenamePrev pv \<noteq> table"
  then have "hd cmds = Cmd_new table MIGACTION_CHANGE_TABLENAME dflt"
    by (auto simp: diff_cmds_def rmap_eq_Inr_iff)
  then show "command_sql conf m (hd cmds) = Inr (''ALTER TABLE '' @ dflt @ '' RENAME AS '' @ table)"
    by (simp add: command_sql_def)
qed

section \<open>From the schema of the server\<close>

lemma column_cmd_defined:
  assumes "prev_ok pv"
    and "\<forall>g \<in> set (fieldsPrev pv). getColumnName g = getColumnName f \<longrightarrow> (\<exists>b. isSame (defaultVal f) (defaultVal g) = Inr b)"
  shows "\<exists>cs. column_cmd conf pv f = Inr cs"
proof (cases "cols_of (fieldsPrev pv) (getColumnName f)")
  case None
  then have "uget (columnToIndexPrev pv) (getColumnName f) = None"
    using assms(1) by (simp add: prev_ok_def cols_of_None)
  then show ?thesis by (simp add: column_cmd_def split: option.split)
next
  case (Some g)
  note g = cols_of_SomeD[OF Some]
  then obtain i where i: "i < length (fieldsPrev pv)" "fieldsPrev pv ! i = g" by (auto simp: in_set_conv_nth)
  then have "uget (columnToIndexPrev pv) (getColumnName f) = Some (int i)"
    using assms(1) g by (auto simp: prev_ok_def)
  moreover obtain b where "isSame (defaultVal f) (defaultVal g) = Inr b" using assms(2) g by blast
  then have "field_eq conf f g = Inr (\<not> (getColumnName f \<noteq> getColumnName g \<or> notNull f \<noteq> notNull g \<or> extra f \<noteq> extra g)
      \<and> b \<and> isSameDbType conf (getColumnType conf f) (getColumnType conf g))"
    by (auto simp: field_eq_def)
  ultimately show ?thesis using i by (auto simp: column_cmd_def)
qed

lemma diff_cmds_defined:
  assumes "getTableName m = Inr table" "getDefaultTableName m = Inr dflt"
    and "\<forall>f \<in> set (m_metadata m). \<exists>cs. column_cmd conf pv f = Inr cs"
  shows "\<exists>cmds. diff_cmds conf m pv = Inr cmds"
proof -
  from assms(3) obtain g where "\<forall>f \<in> set (m_metadata m). column_cmd conf pv f = Inr (g f)" by metis
  then have "rmapM (column_cmd conf pv) (m_metadata m) = Inr (map g (m_metadata m))" by (intro rmapM_total) simp
  then show ?thesis using assms(1,2) by (simp add: diff_cmds_def)
qed

lemma prev_ok_described:
  assumes "distinct (map cd_name cds)" "\<forall>d \<in> set cds. cd_name d \<noteq> []" "distinct (map fst indices)"
    and "\<forall>i < length cds. uget nti (cd_name (cds ! i)) = Some (int i)"
    and "\<forall>k. k \<notin> cd_name ` set cds \<longrightarrow> uget nti k = None"
  shows "prev_ok \<lparr>tablenamePrev = t, fieldsPrev = desc_table conf cds ids, indicesPrev = indices, columnToIndexPrev = nti\<rparr>"
proof -
  have name: "getColumnName ((desc_field conf d)\<lparr>isPk := b\<rparr>) = cd_name d" for d b
    by (simp add: desc_field_def getColumnName_def)
  have "map getColumnName (desc_table conf cds ids) = map cd_name cds"
    by (simp add: desc_table_def name)
  from this have "distinct (map getColumnName (desc_table conf cds ids))"
    "getColumnName ` set (desc_table conf cds ids) = cd_name ` set cds"
    using assms(1) by (metis, metis set_map)
  moreover from this have "\<forall>g \<in> set (desc_table conf cds ids). getColumnName g \<noteq> []"
    using assms(2) by (metis imageE imageI)
  moreover have "getColumnName (desc_table conf cds ids ! i) = cd_name (cds ! i)" if "i < length cds" for i
    using that by (simp add: desc_table_def name)
  moreover have "length (desc_table conf cds ids) = length cds" by (simp add: desc_table_def)
  ultimately show ?thesis using assms(3-5) by (simp add: prev_ok_def)
qed



end
