(* ===== verification/Pool_Laws.thy ===== *)
theory Pool_Laws
  imports Pool "HOL-Library.Multiset"
begin

text \<open>
  Threads that share a connection pool: the world of the pool, the connections its clients
  hold and the threads inside \<^verbatim>\<open>getConn\<close>, the atomic steps between which they interleave,
  and the invariant of every world they can reach.
\<close>

section \<open>Threads\<close>

text \<open>
  \<open>w_clients\<close> are the \<^verbatim>\<open>SqlConn\<close> objects of the program, moved-from ones included;
  \<open>w_waiting\<close> the counters of the threads in the wait; \<open>w_next\<close> the identity of the next
  \<^verbatim>\<open>new MYSQL\<close>.
\<close>

record world =
  w_pool :: conn_pool
  w_gid :: int
  w_next :: nat
  w_clients :: "sqlconn list"
  w_waiting :: "int list"

text \<open>
  A thread enters \<^verbatim>\<open>getConn\<close>; a waiting thread gets the mutex back (on a timeout or a
  spurious wake-up); a client closes, destroys or moves one of its objects.
\<close>

datatype action = Enter answers | Wake nat answers | Close nat | Drop nat | Move nat

definition run_stretch :: "(int list \<Rightarrow> int) \<Rightarrow> settings \<Rightarrow> answers \<Rightarrow> int \<Rightarrow> world \<Rightarrow> world res" where
  "run_stretch pick s an i w =
     rmap (\<lambda>r. case r of
         None \<Rightarrow> w\<lparr>w_waiting := w_waiting w @ [i]\<rparr>
       | Some (c, p, g) \<Rightarrow> w\<lparr>w_pool := p, w_gid := g, w_next := Suc (w_next w), w_clients := w_clients w @ [c]\<rparr>)
       (get_stretch an (w_next w) pick s i (w_pool w) (w_gid w))"

fun act :: "(int list \<Rightarrow> int) \<Rightarrow> settings \<Rightarrow> action \<Rightarrow> world \<Rightarrow> world res" where
  "act pick s (Enter an) w = run_stretch pick s an 0 w"
| "act pick s (Wake k an) w =
     (if k < length (w_waiting w)
      then run_stretch pick s an (w_waiting w ! k + 1)
             (w\<lparr>w_waiting := take k (w_waiting w) @ drop (Suc k) (w_waiting w)\<rparr>)
      else Inr w)"
| "act pick s (Close k) w =
     (if k < length (w_clients w)
      then rmap (\<lambda>(p, c, closed). w\<lparr>w_pool := p, w_clients := (w_clients w)[k := c]\<rparr>)
             (SqlConn_close (w_clients w ! k) (w_pool w))
      else Inr w)"
| "act pick s (Drop k) w =
     Inr (w\<lparr>w_clients := take k (w_clients w) @ drop (Suc k) (w_clients w)\<rparr>)"
| "act pick s (Move k) w =
     (if k < length (w_clients w)
      then let (c, old) = SqlConn_move (w_clients w ! k)
           in Inr (w\<lparr>w_clients := (w_clients w)[k := old] @ [c]\<rparr>)
      else Inr w)"

definition world_start :: "settings \<Rightarrow> int \<Rightarrow> world" where
  "world_start s g = \<lparr>w_pool = ConnectionPool_new\<lparr>p_settings := Some s\<rparr>, w_gid = g, w_next = 0,
     w_clients = [], w_waiting = []\<rparr>"

inductive reachable :: "(int list \<Rightarrow> int) \<Rightarrow> settings \<Rightarrow> world \<Rightarrow> bool" for pick s where
  start: "reachable pick s (world_start s g)"
| step: "reachable pick s w \<Longrightarrow> act pick s a w = Inr w' \<Longrightarrow> reachable pick s w'"

text \<open>What \<^verbatim>\<open>begin()\<close> of a set that is not empty is: one of its elements.\<close>

definition picks :: "(int list \<Rightarrow> int) \<Rightarrow> bool" where
  "picks pick \<longleftrightarrow> (\<forall>xs. xs \<noteq> [] \<longrightarrow> pick xs \<in> set xs)"

lemma picks_hd: "picks hd"
  by (simp add: picks_def)

section \<open>The invariant\<close>

definition pool_ok :: "settings \<Rightarrow> conn_pool \<Rightarrow> int \<Rightarrow> bool" where
  "pool_ok s p gid \<longleftrightarrow> distinct (idle p) \<and> distinct (used p) \<and> set (idle p) \<inter> set (used p) = {}
     \<and> dom (connections p) = set (idle p)
     \<and> (\<forall>i c. connections p i = Some c \<longrightarrow> c_id c = Some i)
     \<and> (\<forall>i \<in> set (used p). i < gid) \<and> total p \<le> poolSize s"

text \<open>The objects that own a handle of the pool: with the clients, or in the pool.\<close>

definition held :: "world \<Rightarrow> sqlconn list" where
  "held w = filter c_pool (w_clients w) @ map (the \<circ> connections (w_pool w)) (idle (w_pool w))"

definition held_ok :: "sqlconn multiset \<Rightarrow> int \<Rightarrow> nat \<Rightarrow> bool" where
  "held_ok cs gid next \<longleftrightarrow>
     (\<forall>c \<in># cs. c_pool c \<and> (\<exists>h. c_handle c = Some h \<and> h_id h < next) \<and> (\<exists>i. c_id c = Some i \<and> i < gid))
     \<and> (\<forall>x. count (image_mset c_id cs) x \<le> 1)
     \<and> (\<forall>x. count (image_mset (map_option h_id \<circ> c_handle) cs) x \<le> 1)"

definition world_ok :: "settings \<Rightarrow> world \<Rightarrow> bool" where
  "world_ok s w \<longleftrightarrow> pool_ok s (w_pool w) (w_gid w) \<and> held_ok (mset (held w)) (w_gid w) (w_next w)
     \<and> (\<forall>c \<in> set (w_clients w). c_pool c \<or> c_handle c = None)
     \<and> (\<forall>i \<in> set (w_waiting w). 0 \<le> i \<and> i < maxRetry s)"

lemma held_okD:
  assumes "held_ok cs gid next" "c \<in># cs"
  shows "c_pool c" "\<exists>h. c_handle c = Some h \<and> h_id h < next" "\<exists>i. c_id c = Some i \<and> i < gid"
  using assms by (auto simp: held_ok_def)

lemma held_ok_sub:
  assumes "held_ok cs gid next" "ds \<subseteq># cs"
  shows "held_ok ds gid next"
proof -
  have "count (image_mset f ds) x \<le> count (image_mset f cs) x" for f :: "sqlconn \<Rightarrow> 'b" and x
    by (rule mset_subset_eq_count) (rule image_mset_subseteq_mono[OF assms(2)])
  then show ?thesis
    using assms mset_subset_eqD[OF assms(2)] unfolding held_ok_def by (meson order_trans)
qed

lemma held_ok_mono:
  "held_ok cs gid next \<Longrightarrow> gid \<le> gid' \<Longrightarrow> next \<le> next' \<Longrightarrow> held_ok cs gid' next'"
  unfolding held_ok_def by (meson order_less_le_trans)

text \<open>A new connection has an id and a handle that nothing else has.\<close>

lemma held_ok_add:
  assumes "held_ok cs gid next" "c_pool c" "c_id c = Some gid" "map_option h_id (c_handle c) = Some next"
  shows "held_ok (add_mset c cs) (gid + 1) (Suc next)"
proof -
  have "Some gid \<notin># image_mset c_id cs" "Some next \<notin># image_mset (map_option h_id \<circ> c_handle) cs"
    using assms(1) by (auto simp: held_ok_def)
  then have "count (image_mset c_id cs) (Some gid) = 0"
    "count (image_mset (map_option h_id \<circ> c_handle) cs) (Some next) = 0"
    by (simp_all only: count_eq_zero_iff not_False_eq_True)
  then show ?thesis using assms(2-4) held_ok_mono[OF assms(1), of "gid + 1" "Suc next"]
    unfolding held_ok_def by (auto simp del: count_image_mset)
qed

section \<open>Borrowing\<close>

text \<open>The four ways in which \<open>take_conn\<close> can end without a fault.\<close>

lemma take_conn_cases:
  assumes "take_conn an h pick s p gid = Inr (c, p', gid')"
  obtains
    (reuse) "idle p \<noteq> []" "connections p (pick (idle p)) = Some c" "gid' = gid"
      "p' = p\<lparr>idle := removeAll (pick (idle p)) (idle p),
              connections := (connections p)(pick (idle p) := None),
              used := List.insert (pick (idle p)) (used p)\<rparr>"
  | (fresh) "idle p = []" "total p < poolSize s" "gid' = gid + 1" "p' = p\<lparr>used := List.insert gid (used p)\<rparr>"
      "c = \<lparr>c_handle = Some (handle_of s h), c_error = [], c_id = Some gid, c_pool = True\<rparr>"
  | (untested) "idle p = []" "total p < poolSize s" "gid' = gid + 1" "p' = p"
      "c = \<lparr>c_handle = Some (handle_of s h), c_error = ''sql test fail'', c_id = Some gid, c_pool = True\<rparr>"
  | (failed) e where "idle p = []" "gid' = gid + 1" "p' = p"
      "c = \<lparr>c_handle = None, c_error = e, c_id = Some gid, c_pool = False\<rparr>"
proof (cases "idle p = []")
  case False
  then show ?thesis using assms reuse
    by (auto simp: take_conn_def Let_def SqlConn_move_def split: option.splits)
next
  case idle: True
  have gid: "g = gid + 1" if "i32 (gid + 1) = Inr g" for g
    using that by (simp add: i32_def split: if_splits)
  show ?thesis
  proof (cases "total p < poolSize s")
    case False
    then show ?thesis using assms idle gid
      by (auto simp: take_conn_def rmap_eq_Inr_iff SqlConn_new_eq_Inr setError_def intro: failed)
  next
    case room: True
    show ?thesis
    proof (cases "an_connects an")
      case False
      then show ?thesis using assms idle room gid
        by (auto simp: take_conn_def newConnection_def rmap_eq_Inr_iff rbind_eq_Inr_iff SqlConn_new_eq_Inr
            setInternalError_def isOpen_def intro: failed split: if_splits)
    next
      case True
      then show ?thesis using assms idle room gid
        by (auto simp: take_conn_def newConnection_def rmap_eq_Inr_iff rbind_eq_Inr_iff SqlConn_new_eq_Inr
            isOpen_def setError_def getId_def split: if_splits intro: fresh untested)
    qed
  qed
qed

lemma total_simps [simp]:
  "total (p\<lparr>idle := xs\<rparr>) = int (length xs) + int (length (used p))"
  "total (p\<lparr>used := xs\<rparr>) = int (length (idle p)) + int (length xs)"
  "total (p\<lparr>connections := cs\<rparr>) = total p"
  by (simp_all add: total_def)

lemma length_removeAll_distinct: "distinct xs \<Longrightarrow> x \<in> set xs \<Longrightarrow> length (removeAll x xs) = length xs - 1"
  by (simp add: distinct_remove1_removeAll[symmetric] length_remove1)

lemma mset_removeAll_distinct:
  "distinct xs \<Longrightarrow> x \<in> set xs \<Longrightarrow> mset xs = add_mset x (mset (removeAll x xs))"
  by (simp add: distinct_remove1_removeAll[symmetric])

lemma pool_okD:
  assumes "pool_ok s p gid"
  shows "distinct (idle p)" "distinct (used p)" "set (idle p) \<inter> set (used p) = {}"
    "dom (connections p) = set (idle p)" "connections p i = Some c \<Longrightarrow> c_id c = Some i"
    "i \<in> set (used p) \<Longrightarrow> i < gid" "total p \<le> poolSize s"
  using assms by (auto simp: pool_ok_def)

lemma take_conn_pool_ok:
  assumes ok: "pool_ok s p gid" and take: "take_conn an h pick s p gid = Inr (c, p', gid')" and pick: "picks pick"
    and ids: "\<forall>i \<in> set (idle p). i < gid"
  shows "pool_ok s p' gid' \<and> gid \<le> gid'"
  using take
proof (cases rule: take_conn_cases)
  case reuse
  let ?i = "pick (idle p)"
  have i: "?i \<in> set (idle p)" using pick reuse(1) by (simp add: picks_def)
  then have nu: "?i \<notin> set (used p)" using pool_okD(3)[OF ok] by blast
  have "Suc (length (removeAll ?i (idle p))) = length (idle p)"
    using length_removeAll_distinct[OF pool_okD(1)[OF ok] i] reuse(1) by (cases "idle p") auto
  then show ?thesis using ok i nu ids unfolding pool_ok_def reuse
    by (auto simp: total_def distinct_removeAll split: if_splits)
next
  case fresh
  have "gid \<notin> set (used p)" using pool_okD(6)[OF ok] by blast
  then show ?thesis using ok fresh unfolding pool_ok_def
    by (auto simp: total_def less_le_trans[of _ gid])
qed (use ok in \<open>auto simp: pool_ok_def\<close>)

text \<open>What the clients and the pool own together gains at most the new connection.\<close>

lemma take_conn_held:
  assumes ok: "pool_ok s p gid" and take: "take_conn an h pick s p gid = Inr (c, p', gid')" and pick: "picks pick"
    and held: "held_ok (cs + mset (map (the \<circ> connections p) (idle p))) gid h"
  shows "held_ok (cs + mset (filter c_pool [c]) + mset (map (the \<circ> connections p') (idle p'))) gid' (Suc h)
    \<and> (c_pool c \<or> c_handle c = None)"
  using take
proof (cases rule: take_conn_cases)
  case reuse
  let ?i = "pick (idle p)"
  have i: "?i \<in> set (idle p)" using pick reuse(1) by (simp add: picks_def)
  have "map (the \<circ> connections p') (idle p') = map (the \<circ> connections p) (removeAll ?i (idle p))"
    by (simp add: reuse)
  moreover have "mset (map (the \<circ> connections p) (idle p))
      = add_mset c (mset (map (the \<circ> connections p) (removeAll ?i (idle p))))"
    using mset_removeAll_distinct[OF pool_okD(1)[OF ok] i] reuse(2) by (simp del: mset_map add: mset_map)
  moreover have "c \<in> (\<lambda>x. the (connections p x)) ` set (idle p)"
    using i reuse(2) by (intro image_eqI[of _ _ ?i]) auto
  then have "c_pool c" using held_okD(1)[OF held, of c] by simp
  ultimately show ?thesis using held_ok_mono[OF held, of gid' "Suc h"] reuse(3) by simp
next
  case fresh
  then show ?thesis using held_ok_add[OF held, of c] by (simp add: handle_of_def)
next
  case untested
  then show ?thesis using held_ok_add[OF held, of c] by (simp add: handle_of_def)
next
  case failed
  then show ?thesis using held_ok_mono[OF held, of gid' "Suc h"] by simp
qed

section \<open>Returning\<close>

text \<open>Closing an object of the pool that is on loan moves it into the idle connections.\<close>

lemma SqlConn_close_eq:
  assumes "c_id c = Some i"
  shows "SqlConn_close c p =
    (if c_pool c \<and> i \<in> set (used p)
     then Inr (p\<lparr>connections := (connections p)(i \<mapsto> c), used := removeAll i (used p),
                 idle := List.insert i (idle p)\<rparr>, moved_from c,
               case connections p i of Some old \<Rightarrow> c_handle old | None \<Rightarrow> None)
     else Inr (p, c, None))"
  using assms
  by (auto simp: SqlConn_close_def releaseConn_def getId_def SqlConn_assign_eq SqlConn_default_def split: option.splits)

lemma SqlConn_close_null: "\<not> c_pool c \<Longrightarrow> SqlConn_close c p = Inr (p, c, None)"
  by (simp add: SqlConn_close_def)

lemma close_pool_ok:
  assumes ok: "pool_ok s p gid" and i: "i \<in> set (used p)" "c_id c = Some i"
  shows "pool_ok s (p\<lparr>connections := (connections p)(i \<mapsto> c), used := removeAll i (used p),
                 idle := List.insert i (idle p)\<rparr>) gid"
proof -
  have ni: "i \<notin> set (idle p)" using pool_okD(3)[OF ok] i(1) by blast
  have "Suc (length (removeAll i (used p))) = length (used p)"
    using length_removeAll_distinct[OF pool_okD(2)[OF ok] i(1)] i(1) by (cases "used p") auto
  then show ?thesis using ok i ni unfolding pool_ok_def
    by (auto simp: total_def distinct_removeAll)
qed

text \<open>A close never throws away a handle, and the handles owned together stay the same.\<close>

lemma close_held:
  assumes ok: "pool_ok s p gid" and i: "i \<in> set (used p)"
  shows "mset (map (the \<circ> (connections p)(i \<mapsto> c)) (List.insert i (idle p)))
      = add_mset c (mset (map (the \<circ> connections p) (idle p)))"
    and "(case connections p i of Some old \<Rightarrow> c_handle old | None \<Rightarrow> None) = None"
proof -
  have ni: "i \<notin> set (idle p)" using pool_okD(3)[OF ok] i by blast
  then have "map (the \<circ> (connections p)(i \<mapsto> c)) (idle p) = map (the \<circ> connections p) (idle p)"
    by (intro map_cong) auto
  with ni show "mset (map (the \<circ> (connections p)(i \<mapsto> c)) (List.insert i (idle p)))
      = add_mset c (mset (map (the \<circ> connections p) (idle p)))" by (simp del: mset_map map_eq_conv)
  show "(case connections p i of Some old \<Rightarrow> c_handle old | None \<Rightarrow> None) = None"
    using ni pool_okD(4)[OF ok] by (auto split: option.splits)
qed

section \<open>Every step keeps the invariant\<close>

lemma mset_filter_update:
  assumes "k < length xs"
  shows "filter_mset P (mset (xs[k := y])) + (if P (xs ! k) then {#xs ! k#} else {#})
    = filter_mset P (mset xs) + (if P y then {#y#} else {#})"
proof -
  have "mset (xs[k := y]) + {#xs ! k#} = mset xs + {#y#}"
    using assms by (simp add: mset_update)
  from arg_cong[OF this, of "filter_mset P"] show ?thesis by (simp split: if_splits)
qed

lemma mset_take_drop: "mset (take k xs @ drop (Suc k) xs) \<subseteq># mset xs"
proof -
  have "mset xs = mset (take k xs) + mset (drop k xs)" by (metis append_take_drop_id mset_append)
  moreover have "mset (drop (Suc k) xs) \<subseteq># mset (drop k xs)"
    by (cases "k < length xs") (simp_all add: Cons_nth_drop_Suc[symmetric])
  ultimately show ?thesis by simp
qed

lemma mset_held: "mset (held w) = filter_mset c_pool (mset (w_clients w))
    + mset (map (the \<circ> connections (w_pool w)) (idle (w_pool w)))"
  by (simp add: held_def)

lemma idle_ids:
  assumes "world_ok s w" "i \<in> set (idle (w_pool w))"
  shows "i < w_gid w"
proof -
  have ok: "pool_ok s (w_pool w) (w_gid w)" and h: "held_ok (mset (held w)) (w_gid w) (w_next w)"
    using assms(1) by (auto simp: world_ok_def)
  obtain c where c: "connections (w_pool w) i = Some c"
    using pool_okD(4)[OF ok] assms(2) by blast
  then have "c \<in># mset (held w)" using assms(2) unfolding held_def by force
  from held_okD(3)[OF h this] pool_okD(5)[OF ok c] show ?thesis by auto
qed

lemma run_stretch_ok:
  assumes ok: "world_ok s w" and pick: "picks pick" and i: "0 \<le> i"
    and run: "run_stretch pick s an i w = Inr w'"
  shows "world_ok s w'"
proof (cases "must_wait s i (w_pool w)")
  case True
  then have "w' = w\<lparr>w_waiting := w_waiting w @ [i]\<rparr>"
    using run by (simp add: run_stretch_def get_stretch_def)
  then show ?thesis using ok i True by (auto simp: world_ok_def held_def must_wait_def)
next
  case False
  then obtain c p g where take: "take_conn an (w_next w) pick s (w_pool w) (w_gid w) = Inr (c, p, g)"
    and w': "w' = w\<lparr>w_pool := p, w_gid := g, w_next := Suc (w_next w), w_clients := w_clients w @ [c]\<rparr>"
    using run by (auto simp: run_stretch_def get_stretch_def rmap_eq_Inr_iff)
  have p: "pool_ok s (w_pool w) (w_gid w)" using ok by (simp add: world_ok_def)
  have "pool_ok s p g" using take_conn_pool_ok[OF p take pick] idle_ids[OF ok] by blast
  moreover have "held_ok (filter_mset c_pool (mset (w_clients w)) + mset (filter c_pool [c])
      + mset (map (the \<circ> connections p) (idle p))) g (Suc (w_next w)) \<and> (c_pool c \<or> c_handle c = None)"
    using ok by (intro take_conn_held[OF p take pick]) (simp add: world_ok_def mset_held)
  ultimately show ?thesis using ok by (auto simp: world_ok_def w' mset_held)
qed

lemma act_ok:
  assumes ok: "world_ok s w" and pick: "picks pick" and act: "act pick s a w = Inr w'"
  shows "world_ok s w'"
proof (cases a)
  case (Enter an)
  with act run_stretch_ok[OF ok pick order_refl] show ?thesis by simp
next
  case (Wake k an)
  let ?w = "w\<lparr>w_waiting := take k (w_waiting w) @ drop (Suc k) (w_waiting w)\<rparr>"
  have "world_ok s ?w" using ok
    by (auto simp: world_ok_def held_def dest: in_set_takeD in_set_dropD)
  moreover have "0 \<le> w_waiting w ! k + 1" if "k < length (w_waiting w)"
    using ok that by (auto simp: world_ok_def dest!: bspec[OF _ nth_mem])
  ultimately show ?thesis using run_stretch_ok[of s ?w] pick act ok by (auto simp: Wake split: if_splits)
next
  case (Close k)
  show ?thesis
  proof (cases "k < length (w_clients w)")
    case k: True
    let ?c = "w_clients w ! k"
    have p: "pool_ok s (w_pool w) (w_gid w)" and h: "held_ok (mset (held w)) (w_gid w) (w_next w)"
      using ok by (auto simp: world_ok_def)
    show ?thesis
    proof (cases "c_pool ?c")
      case False
      then show ?thesis using act ok k by (simp add: Close SqlConn_close_null)
    next
      case pool: True
      then have "?c \<in># mset (held w)" using k by (auto simp: held_def)
      from held_okD(3)[OF h this] obtain i where i: "c_id ?c = Some i" by blast
      show ?thesis
      proof (cases "i \<in> set (used (w_pool w))")
        case False
        then show ?thesis using act ok k by (simp add: Close SqlConn_close_eq[OF i])
      next
        case True
        let ?p = "w_pool w\<lparr>connections := (connections (w_pool w))(i \<mapsto> ?c), used := removeAll i (used (w_pool w)),
                 idle := List.insert i (idle (w_pool w))\<rparr>"
        have w': "w' = w\<lparr>w_pool := ?p, w_clients := (w_clients w)[k := moved_from ?c]\<rparr>"
          using act k True pool by (simp add: Close SqlConn_close_eq[OF i])
        have "mset (held w') = mset (held w)"
          using close_held(1)[OF p True, of ?c] mset_filter_update[OF k, of c_pool "moved_from ?c"] pool
          unfolding mset_held w' by (simp del: mset_map)
        moreover have "\<forall>c \<in> set (w_clients w'). c_pool c \<or> c_handle c = None"
          using ok by (auto simp: world_ok_def w' dest!: subsetD[OF set_update_subset_insert])
        ultimately show ?thesis using ok close_pool_ok[OF p True i] unfolding world_ok_def w' by simp
      qed
    qed
  qed (use act ok in \<open>simp add: Close\<close>)
next
  case (Drop k)
  then have w': "w' = w\<lparr>w_clients := take k (w_clients w) @ drop (Suc k) (w_clients w)\<rparr>" using act by simp
  have "mset (held w') \<subseteq># mset (held w)"
    unfolding mset_held w' by (simp add: multiset_filter_mono mset_take_drop del: mset_append)
  then show ?thesis using ok held_ok_sub unfolding world_ok_def w'
    by (auto dest: in_set_takeD in_set_dropD)
next
  case (Move k)
  show ?thesis
  proof (cases "k < length (w_clients w)")
    case k: True
    let ?c = "w_clients w ! k"
    have w': "w' = w\<lparr>w_clients := (w_clients w)[k := moved_from ?c] @ [?c]\<rparr>"
      using act k by (auto simp: Move SqlConn_move_def)
    have "mset (held w') = mset (held w)"
      using mset_filter_update[OF k, of c_pool "moved_from ?c"] unfolding mset_held w' by (simp split: if_splits)
    moreover have "\<forall>c \<in> set (w_clients w'). c_pool c \<or> c_handle c = None"
      using ok k by (auto simp: world_ok_def w' dest!: subsetD[OF set_update_subset_insert])
    ultimately show ?thesis using ok unfolding world_ok_def w' by simp
  qed (use act ok in \<open>simp add: Move\<close>)
qed

lemma world_start_ok: "0 \<le> poolSize s \<Longrightarrow> world_ok s (world_start s g)"
  by (simp add: world_ok_def world_start_def ConnectionPool_new_def pool_ok_def held_def held_ok_def total_def)

lemma reachable_ok: "reachable pick s w \<Longrightarrow> 0 \<le> poolSize s \<Longrightarrow> picks pick \<Longrightarrow> world_ok s w"
  by (induction rule: reachable.induct) (auto intro: world_start_ok act_ok)

end
