(* ===== verification/Pool_Use.thy ===== *)
theory Pool_Use
  imports Pool_Laws
begin

text \<open>
  What the users of the pool rely on: no connection is in two hands, no call faults, a call
  of \<^verbatim>\<open>getConn\<close> ends, closed connections come back, and every free place can be borrowed.
  The last is stated once for any pool of resources, as the locale \<open>lease_pool\<close>.
\<close>

section \<open>The contract of a pool\<close>

text \<open>
  \<open>fuel\<close> bounds how many resources can still be made. A pool that refuses is fully on loan or
  out of fuel.
\<close>

locale lease_pool =
  fixes acquire :: "'p \<Rightarrow> ('c \<times> 'p) option"
    and release :: "'c \<Rightarrow> 'p \<Rightarrow> 'p"
    and on_loan :: "'c \<Rightarrow> 'p \<Rightarrow> bool"
    and key :: "'c \<Rightarrow> 'k"
    and leased :: "'p \<Rightarrow> 'k set"
    and capacity :: nat
    and fuel :: "'p \<Rightarrow> nat"
    and invar :: "'p \<Rightarrow> bool"
  assumes bounded: "invar p \<Longrightarrow> finite (leased p) \<and> card (leased p) \<le> capacity"
    and acquire_some: "invar p \<Longrightarrow> acquire p = Some (c, p') \<Longrightarrow>
      invar p' \<and> key c \<notin> leased p \<and> leased p' = insert (key c) (leased p)"
    and acquire_fuel: "invar p \<Longrightarrow> acquire p = Some (c, p') \<Longrightarrow> fuel p \<le> Suc (fuel p')"
    and acquire_none: "invar p \<Longrightarrow> acquire p = None \<Longrightarrow> card (leased p) = capacity \<or> fuel p = 0"
    and release: "invar p \<Longrightarrow> on_loan c p \<Longrightarrow>
      invar (release c p) \<and> key c \<in> leased p \<and> leased (release c p) = leased p - {key c}"
    and release_fuel: "invar p \<Longrightarrow> on_loan c p \<Longrightarrow> fuel (release c p) = fuel p"
begin

primrec acquire_n :: "nat \<Rightarrow> 'p \<Rightarrow> ('c list \<times> 'p) option" where
  "acquire_n 0 p = Some ([], p)"
| "acquire_n (Suc n) p = (case acquire p of
     None \<Rightarrow> None
   | Some (c, p') \<Rightarrow> map_option (apfst ((#) c)) (acquire_n n p'))"

lemma acquire_iff:
  assumes "invar p" "0 < fuel p"
  shows "acquire p \<noteq> None \<longleftrightarrow> card (leased p) < capacity"
proof
  assume "acquire p \<noteq> None"
  then obtain c p' where "acquire p = Some (c, p')" by auto
  from acquire_some[OF assms(1) this] bounded[of p'] bounded[OF assms(1)]
  show "card (leased p) < capacity" by auto
next
  assume "card (leased p) < capacity"
  then show "acquire p \<noteq> None" using acquire_none[OF assms(1)] assms(2) by (intro notI) auto
qed

lemma acquire_all:
  assumes "invar p" "card (leased p) + n \<le> capacity" "n \<le> fuel p"
  shows "\<exists>cs p'. acquire_n n p = Some (cs, p') \<and> length cs = n \<and> distinct (map key cs)
    \<and> invar p' \<and> key ` set cs \<inter> leased p = {} \<and> leased p' = leased p \<union> key ` set cs"
  using assms
proof (induction n arbitrary: p)
  case (Suc n)
  then have "acquire p \<noteq> None" using acquire_iff[of p] by simp
  then obtain c p1 where 1: "acquire p = Some (c, p1)" by auto
  note s = acquire_some[OF Suc.prems(1) 1]
  have "card (leased p1) + n \<le> capacity" using s bounded[OF Suc.prems(1)] Suc.prems(2) by simp
  moreover have "n \<le> fuel p1" using acquire_fuel[OF Suc.prems(1) 1] Suc.prems(3) by simp
  ultimately obtain cs p' where "acquire_n n p1 = Some (cs, p')" "length cs = n" "distinct (map key cs)"
    "invar p'" "key ` set cs \<inter> leased p1 = {}" "leased p' = leased p1 \<union> key ` set cs"
    using Suc.IH[of p1] s by blast
  then show ?case using 1 s by (intro exI[of _ "c # cs"] exI[of _ p']) auto
qed simp

lemma release_makes_room:
  assumes "invar p" "on_loan c p" "0 < fuel p"
  shows "acquire (release c p) \<noteq> None"
proof -
  note r = release[OF assms(1,2)]
  have "card (leased p - {key c}) < card (leased p)"
    using r bounded[OF assms(1)] by (intro card_Diff1_less) auto
  then show ?thesis
    using acquire_iff[of "release c p"] r bounded[OF assms(1)] release_fuel[OF assms(1,2)] assms(3) by simp
qed

end

section \<open>The connection pool provides it\<close>

text \<open>
  Borrowing from a server that accepts connections and passes the test, with the counter of
  the ids and the next handle as part of the state.
\<close>

type_synonym pool_state = "conn_pool \<times> int \<times> nat"

definition good_answers :: answers where
  "good_answers = \<lparr>an_connects = True, an_test = Some [[Some ''1'']], an_error = []\<rparr>"

definition pool_acquire :: "settings \<Rightarrow> pool_state \<Rightarrow> (sqlconn \<times> pool_state) option" where
  "pool_acquire s st = (let (p, g, h) = st in
     case take_conn good_answers h hd s p g of
       Inr (c, p', g') \<Rightarrow> if isOpen c then Some (c, p', g', Suc h) else None
     | Inl e \<Rightarrow> None)"

definition pool_release :: "sqlconn \<Rightarrow> pool_state \<Rightarrow> pool_state" where
  "pool_release c st = (let (p, g, h) = st in
     case SqlConn_close c p of Inr (p', c', closed) \<Rightarrow> (p', g, h) | Inl e \<Rightarrow> (p, g, h))"

definition pool_on_loan :: "sqlconn \<Rightarrow> pool_state \<Rightarrow> bool" where
  "pool_on_loan c st \<longleftrightarrow> c_pool c \<and> isOpen c \<and> (\<exists>i. c_id c = Some i \<and> i \<in> set (used (fst st)))"

definition pool_leased :: "pool_state \<Rightarrow> int set" where
  "pool_leased st = set (used (fst st))"

definition pool_fuel :: "pool_state \<Rightarrow> nat" where
  "pool_fuel st = nat (2147483647 - fst (snd st))"

definition pool_inv :: "settings \<Rightarrow> pool_state \<Rightarrow> bool" where
  "pool_inv s st \<longleftrightarrow> (let (p, g, h) = st in pool_ok s p g \<and> 1 \<le> g \<and> (\<forall>i \<in> set (idle p). i < g)
     \<and> (\<forall>c \<in> ran (connections p). isOpen c \<and> c_pool c))"

lemma take_conn_fresh:
  assumes "idle p = []" "total p < poolSize s" "1 \<le> g" "g < 2147483647"
  shows "take_conn good_answers h pick s p g =
    Inr (\<lparr>c_handle = Some (handle_of s h), c_error = [], c_id = Some g, c_pool = True\<rparr>,
         p\<lparr>used := List.insert g (used p)\<rparr>, g + 1)"
proof -
  have "ato i32 ''1'' = Inr 1" by code_simp
  then show ?thesis using assms
    by (simp add: take_conn_def newConnection_def good_answers_def SqlConn_new_def isOpen_def testConn_def getId_def)
qed

lemma take_conn_reuse:
  assumes "idle p \<noteq> []" "connections p (pick (idle p)) = Some c"
  shows "take_conn an h pick s p g =
    Inr (c, p\<lparr>idle := removeAll (pick (idle p)) (idle p), connections := (connections p)(pick (idle p) := None),
              used := List.insert (pick (idle p)) (used p)\<rparr>, g)"
  using assms by (simp add: take_conn_def SqlConn_move_def Let_def)

lemma pool_acquire_some:
  assumes inv: "pool_inv s (p, g, h)" and acq: "pool_acquire s (p, g, h) = Some (c, p', g', h')"
  shows "pool_inv s (p', g', h') \<and> (\<exists>i. c_id c = Some i \<and> i \<notin> set (used p)
    \<and> set (used p') = insert i (set (used p))) \<and> g' \<le> g + 1"
proof -
  have ok: "pool_ok s p g" using inv by (simp add: pool_inv_def)
  have take: "take_conn good_answers h hd s p g = Inr (c, p', g')" and "isOpen c"
    using acq by (auto simp: pool_acquire_def split: sum.splits if_splits)
  have ok': "pool_ok s p' g' \<and> g \<le> g'"
    using take_conn_pool_ok[OF ok take picks_hd] inv by (simp add: pool_inv_def)
  show ?thesis using take
  proof (cases rule: take_conn_cases)
    case reuse
    have i: "hd (idle p) \<in> set (idle p)" using reuse(1) by simp
    have "ran (connections p') \<subseteq> ran (connections p)" by (auto simp: reuse ran_def split: if_splits)
    moreover have "hd (idle p) \<notin> set (used p)" using i pool_okD(3)[OF ok] by blast
    ultimately show ?thesis using inv ok' pool_okD(5)[OF ok reuse(2)]
      unfolding pool_inv_def reuse by auto
  next
    case fresh
    then show ?thesis using inv ok' pool_okD(6)[OF ok] unfolding pool_inv_def by auto
  next
    case untested
    have "1 \<le> g" "g < 2147483647"
      using inv take untested(3) unfolding pool_inv_def
      by (auto simp: take_conn_def newConnection_def good_answers_def untested SqlConn_new_def
          rmap_eq_Inr_iff rbind_eq_Inr_iff i32_def split: if_splits)
    then show ?thesis using take take_conn_fresh[OF untested(1,2), of g h hd] untested(5) by simp
  next
    case failed
    then show ?thesis using \<open>isOpen c\<close> by (simp add: isOpen_def)
  qed
qed

lemma pool_acquire_none:
  assumes inv: "pool_inv s (p, g, h)" and acq: "pool_acquire s (p, g, h) = None"
  shows "int (length (used p)) = poolSize s \<or> 2147483647 \<le> g"
proof (rule ccontr)
  assume not: "\<not> ?thesis"
  have ok: "pool_ok s p g" and g: "1 \<le> g" using inv by (simp_all add: pool_inv_def)
  show False
  proof (cases "idle p = []")
    case True
    then have "total p < poolSize s" using not pool_okD(7)[OF ok] by (simp add: total_def)
    with take_conn_fresh[OF True this g, of h hd] not acq show False
      by (simp add: pool_acquire_def isOpen_def)
  next
    case False
    then obtain c where c: "connections p (hd (idle p)) = Some c"
      using pool_okD(4)[OF ok] by (metis domD hd_in_set)
    then have "isOpen c" using inv unfolding pool_inv_def by (auto simp: ran_def)
    then show False using take_conn_reuse[where pick = hd, OF False c] acq by (simp add: pool_acquire_def)
  qed
qed

lemma pool_release_law:
  assumes inv: "pool_inv s (p, g, h)" and loan: "pool_on_loan c (p, g, h)"
  shows "\<exists>p'. pool_release c (p, g, h) = (p', g, h) \<and> pool_inv s (p', g, h) \<and> the (c_id c) \<in> set (used p)
    \<and> set (used p') = set (used p) - {the (c_id c)}"
proof -
  obtain i where i: "c_id c = Some i" "i \<in> set (used p)" and c: "c_pool c" "isOpen c"
    using loan by (auto simp: pool_on_loan_def)
  have ok: "pool_ok s p g" using inv by (simp add: pool_inv_def)
  let ?p = "p\<lparr>connections := (connections p)(i \<mapsto> c), used := removeAll i (used p), idle := List.insert i (idle p)\<rparr>"
  have "pool_inv s (?p, g, h)"
    using inv close_pool_ok[OF ok i(2,1)] pool_okD(6)[OF ok i(2)] c unfolding pool_inv_def
    by (auto simp: ran_def split: if_splits)
  then show ?thesis using i c by (simp add: pool_release_def SqlConn_close_eq[OF i(1)])
qed

text \<open>The capacity is the configured size; the invariant implies that it is not negative.\<close>

interpretation pool_leases: lease_pool "pool_acquire s" pool_release pool_on_loan "\<lambda>c. the (c_id c)"
    pool_leased "nat (poolSize s)" pool_fuel "pool_inv s" for s
proof (unfold_locales, goal_cases)
  case (1 st)
  obtain p g h where [simp]: "st = (p, g, h)" by (cases st)
  have ok: "pool_ok s p g" using 1 by (simp add: pool_inv_def)
  then show ?case using pool_okD(2,7)[OF ok]
    by (simp add: pool_leased_def total_def distinct_card nat_le_iff)
next
  case (2 st c st')
  obtain p g h p' g' h' where st: "st = (p, g, h)" "st' = (p', g', h')" by (cases st, cases st')
  from pool_acquire_some[OF 2[unfolded st]] obtain i where
    "pool_inv s (p', g', h')" "c_id c = Some i" "i \<notin> set (used p)" "set (used p') = insert i (set (used p))"
    by blast
  then show ?case by (simp add: pool_leased_def st)
next
  case (3 st c st')
  obtain p g h p' g' h' where st: "st = (p, g, h)" "st' = (p', g', h')" by (cases st, cases st')
  from pool_acquire_some[OF 3[unfolded st]] have "g' \<le> g + 1" by blast
  then show ?case by (simp add: pool_fuel_def st)
next
  case (4 st)
  obtain p g h where st: "st = (p, g, h)" by (cases st)
  have "pool_ok s p g" using 4(1) by (simp add: pool_inv_def st)
  from pool_acquire_none[OF 4[unfolded st]] pool_okD(2)[OF this] show ?case
    by (auto simp: pool_leased_def pool_fuel_def distinct_card st)
next
  case (5 st c)
  obtain p g h where st: "st = (p, g, h)" by (cases st)
  from pool_release_law[OF 5[unfolded st]] obtain p' where "pool_release c (p, g, h) = (p', g, h)"
    "pool_inv s (p', g, h)" "the (c_id c) \<in> set (used p)" "set (used p') = set (used p) - {the (c_id c)}"
    by blast
  then show ?case by (simp add: pool_leased_def st)
next
  case (6 st c)
  obtain p g h where st: "st = (p, g, h)" by (cases st)
  from pool_release_law[OF 6[unfolded st]] obtain p' where "pool_release c (p, g, h) = (p', g, h)"
    by blast
  then show ?case by (simp add: pool_fuel_def st)
qed

text \<open>Borrowing \<open>n\<close> times in a row.\<close>

primrec borrow_n :: "settings \<Rightarrow> nat \<Rightarrow> pool_state \<Rightarrow> (sqlconn list \<times> pool_state) option" where
  "borrow_n s 0 st = Some ([], st)"
| "borrow_n s (Suc n) st = (case pool_acquire s st of
     None \<Rightarrow> None
   | Some (c, st') \<Rightarrow> map_option (apfst ((#) c)) (borrow_n s n st'))"

lemma borrow_n_eq: "borrow_n s n st = pool_leases.acquire_n s n st"
  by (induction n arbitrary: st) (auto split: option.splits)

section \<open>Lemmas for the properties\<close>

definition answers_ok :: "settings \<Rightarrow> answers \<Rightarrow> bool" where
  "answers_ok s an \<longleftrightarrow> (an_connects an \<and> testOnBorrow s \<longrightarrow>
     (\<exists>x row rows v. an_test an = Some ((Some x # row) # rows) \<and> ato i32 x = Inr v))"

lemma take_conn_defined:
  assumes ok: "pool_ok s p gid" and pick: "picks pick" and an: "answers_ok s an"
    and gid: "- 2147483648 \<le> gid" "gid < 2147483647"
  shows "\<exists>r. take_conn an h pick s p gid = Inr r"
proof (cases "idle p = []")
  case False
  then have "pick (idle p) \<in> set (idle p)" using pick by (simp add: picks_def)
  then obtain c where "connections p (pick (idle p)) = Some c" using pool_okD(4)[OF ok] by blast
  with False show ?thesis by (simp add: take_conn_reuse)
next
  case idle: True
  have i: "i32 (gid + 1) = Inr (gid + 1)" using gid by simp
  consider "\<not> total p < poolSize s" | "\<not> an_connects an" | "total p < poolSize s" "an_connects an" by blast
  then show ?thesis
  proof cases
    case 3
    then show ?thesis using idle i an
      by (cases "testOnBorrow s") (auto simp: take_conn_def newConnection_def SqlConn_new_def isOpen_def getId_def
          testConn_def answers_ok_def)
  qed (use idle i in \<open>simp_all add: take_conn_def newConnection_def SqlConn_new_def isOpen_def setInternalError_def\<close>)
qed

lemma run_stretch_defined:
  assumes "world_ok s w" "picks pick" "answers_ok s an" "- 2147483648 \<le> w_gid w" "w_gid w < 2147483647"
  shows "\<exists>w'. run_stretch pick s an i w = Inr w'"
proof -
  have "pool_ok s (w_pool w) (w_gid w)" using assms(1) by (simp add: world_ok_def)
  from take_conn_defined[OF this assms(2-5), of "w_next w"] show ?thesis
    by (auto simp: run_stretch_def get_stretch_def)
qed

lemma get_loop_waits:
  "0 \<le> i \<Longrightarrow> i \<le> max i (maxRetry s) \<Longrightarrow> \<exists>n. i \<le> n \<and> n \<le> max i (maxRetry s) \<and> \<not> must_wait s n (fst (seen n))
     \<and> (\<forall>j. i \<le> j \<and> j < n \<longrightarrow> must_wait s j (fst (seen j)))
     \<and> get_loop an h pick s seen i = rmap (Pair n) (take_conn an h pick s (fst (seen n)) (snd (seen n)))"
proof (induction an h pick s seen i rule: get_loop.induct)
  case (1 an h pick s seen i)
  show ?case
  proof (cases "must_wait s i (fst (seen i))")
    case True
    then have "i < maxRetry s" by (simp add: must_wait_def)
    with 1 True obtain n where "i + 1 \<le> n" "n \<le> max (i + 1) (maxRetry s)" "\<not> must_wait s n (fst (seen n))"
      "\<forall>j. i + 1 \<le> j \<and> j < n \<longrightarrow> must_wait s j (fst (seen j))"
      "get_loop an h pick s seen (i + 1) = rmap (Pair n) (take_conn an h pick s (fst (seen n)) (snd (seen n)))"
      by auto
    moreover have "must_wait s j (fst (seen j))" if "i \<le> j" "j < n" for j
      using that True calculation(4) by (cases "j = i") auto
    ultimately show ?thesis using True \<open>i < maxRetry s\<close>
      by (intro exI[of _ n]) (simp add: get_loop.simps[of an h pick s seen i])
  next
    case False
    then show ?thesis by (intro exI[of _ i]) (auto simp: get_loop.simps[of an h pick s seen i])
  qed
qed

lemma configure_interval:
  assumes "configure host user password port db sz wait retry test sql p = Inr p'" "p_settings p' = Some s"
    and "0 < retry" "0 \<le> wait" "0 \<le> n" "n \<le> retry"
  shows "maxRetry s = retry \<and> poolSize s = sz \<and> n * waitInterval s \<le> wait"
proof -
  have w: "waitInterval s = wait div retry" "maxRetry s = retry" "poolSize s = sz"
    using assms(1-4) by (auto simp: configure_def rmap_eq_Inr_iff i32_def split: if_splits)
  have "n * (wait div retry) \<le> retry * (wait div retry)"
    using assms by (intro mult_right_mono) (auto simp: pos_imp_zdiv_nonneg_iff)
  also have "\<dots> \<le> wait" using assms(3) minus_mod_eq_mult_div[of wait retry]
    by (metis diff_ge_0_iff_ge minus_mult_div_eq_mod pos_mod_sign)
  finally show ?thesis using w by simp
qed

lemma act_close_null:
  assumes "\<not> c_pool (w_clients w ! k)"
  shows "act pick s (Close k) w = Inr w"
proof -
  have "(w_clients w)[k := w_clients w ! k] = w_clients w" by simp
  then show ?thesis using assms by (simp add: SqlConn_close_null)
qed

lemma count_image_length: "count (image_mset f (mset xs)) y = length (filter (\<lambda>x. f x = y) xs)"
  by (induction xs) auto

section \<open>Properties\<close>

text \<open>
  C4: Whatever the threads do and however they interleave, the idle and the used ids of
  the pool are disjoint, exactly the idle ones have a stored connection, there are at most
  \<^verbatim>\<open>poolSize\<close> of both, and no two \<^verbatim>\<open>SqlConn\<close> objects, of the program or in the pool, own
  the same handle.
\<close>

theorem no_shared_connection:
  assumes "reachable pick s w" "0 \<le> poolSize s" "picks pick"
  shows "set (idle (w_pool w)) \<inter> set (used (w_pool w)) = {}
    \<and> dom (connections (w_pool w)) = set (idle (w_pool w))
    \<and> total (w_pool w) \<le> poolSize s
    \<and> length (filter (\<lambda>c. map_option h_id (c_handle c) = Some x)
        (w_clients w @ map (the \<circ> connections (w_pool w)) (idle (w_pool w)))) \<le> 1"
proof -
  have ok: "world_ok s w" using reachable_ok assms by blast
  then have p: "pool_ok s (w_pool w) (w_gid w)" and h: "held_ok (mset (held w)) (w_gid w) (w_next w)"
    and c: "\<forall>c \<in> set (w_clients w). c_pool c \<or> c_handle c = None"
    by (auto simp: world_ok_def)
  have "filter (\<lambda>c. map_option h_id (c_handle c) = Some x) (w_clients w)
      = filter (\<lambda>c. map_option h_id (c_handle c) = Some x) (filter c_pool (w_clients w))"
    using c by (auto simp: filter_id_conv intro!: filter_cong)
  then have "length (filter (\<lambda>c. map_option h_id (c_handle c) = Some x)
        (w_clients w @ map (the \<circ> connections (w_pool w)) (idle (w_pool w))))
      = count (image_mset (map_option h_id \<circ> c_handle) (mset (held w))) (Some x)"
    unfolding count_image_length held_def by simp
  also have "\<dots> \<le> 1" using h by (simp add: held_ok_def)
  finally show ?thesis using pool_okD(3,4,7)[OF p] by simp
qed

text \<open>
  C19: No step of a thread faults: the lookup of an idle connection never throws, and there
  is no null pointer, as long as the counter of the ids is below \<^verbatim>\<open>INT_MAX\<close> and a server that
  accepts a connection answers the test query with a number.
\<close>

theorem pool_steps_defined:
  assumes "reachable pick s w" "0 \<le> poolSize s" "picks pick"
    and "- 2147483648 \<le> w_gid w" "w_gid w < 2147483647"
    and "case a of Enter an \<Rightarrow> answers_ok s an | Wake k an \<Rightarrow> answers_ok s an | _ \<Rightarrow> True"
  shows "\<exists>w'. act pick s a w = Inr w'"
proof -
  have ok: "world_ok s w" using reachable_ok assms by blast
  show ?thesis
  proof (cases a)
    case (Enter an)
    then show ?thesis using run_stretch_defined[OF ok assms(3) _ assms(4,5)] assms(6) by simp
  next
    case (Wake k an)
    have "world_ok s (w\<lparr>w_waiting := take k (w_waiting w) @ drop (Suc k) (w_waiting w)\<rparr>)" using ok
      by (auto simp: world_ok_def held_def dest: in_set_takeD in_set_dropD)
    from run_stretch_defined[OF this assms(3)] show ?thesis using assms(4-6) Wake by simp
  next
    case (Close k)
    show ?thesis
    proof (cases "k < length (w_clients w) \<and> c_pool (w_clients w ! k)")
      case True
      then have "w_clients w ! k \<in># mset (held w)" by (auto simp: held_def)
      then obtain i where "c_id (w_clients w ! k) = Some i"
        using held_okD(3) ok unfolding world_ok_def by blast
      then show ?thesis by (simp add: Close SqlConn_close_eq)
    qed (auto simp: Close SqlConn_close_null)
  qed (auto simp: SqlConn_move_def)
qed

text \<open>
  C18: A call of \<^verbatim>\<open>getConn\<close> returns: it waits at most \<^verbatim>\<open>maxRetry\<close> times, for no longer than
  \<^verbatim>\<open>maxWait\<close> in all, and only while no connection is idle and all are used. It gives up
  waiting as soon as it finds that changed.
\<close>

theorem getConn_returns:
  assumes "configure host user password port db sz wait retry test sql p = Inr p'" "p_settings p' = Some s"
    and "0 < retry" "0 \<le> wait" "p_settings (fst (seen 0)) = Some s"
  shows "\<exists>n. 0 \<le> n \<and> n \<le> retry \<and> n * waitInterval s \<le> wait
    \<and> (\<forall>j. 0 \<le> j \<and> j < n \<longrightarrow> idle (fst (seen j)) = [] \<and> total (fst (seen j)) = sz)
    \<and> (n < retry \<longrightarrow> idle (fst (seen n)) \<noteq> [] \<or> total (fst (seen n)) \<noteq> sz)
    \<and> getConn an h pick seen = rmap (Pair n) (take_conn an h pick s (fst (seen n)) (snd (seen n)))"
proof -
  have s: "maxRetry s = retry" "poolSize s = sz"
    using configure_interval[OF assms(1-4), of 0] assms(3) by auto
  from get_loop_waits[of 0 s seen an h pick] s assms(3) obtain n where
    "0 \<le> n" "n \<le> retry" "\<not> must_wait s n (fst (seen n))"
    "\<forall>j. 0 \<le> j \<and> j < n \<longrightarrow> must_wait s j (fst (seen j))"
    "get_loop an h pick s seen 0 = rmap (Pair n) (take_conn an h pick s (fst (seen n)) (snd (seen n)))"
    by auto
  moreover from this have "n * waitInterval s \<le> wait" using configure_interval[OF assms(1-4)] by blast
  ultimately show ?thesis using s assms(5)
    by (intro exI[of _ n]) (auto simp: getConn_def must_wait_def)
qed

text \<open>
  C20: A connection on loan that is closed comes back: closing the same object again does
  nothing, and when nothing else is idle, the next \<^verbatim>\<open>getConn\<close> hands out that very connection
  without waiting or connecting.
\<close>

theorem closed_connection_comes_back:
  assumes "reachable pick s w" "0 \<le> poolSize s" "picks pick" "idle (w_pool w) = []"
    and "k < length (w_clients w)" "c_pool (w_clients w ! k)"
    and "c_id (w_clients w ! k) = Some i" "i \<in> set (used (w_pool w))"
  shows "\<exists>w1 w2. act pick s (Close k) w = Inr w1 \<and> act pick s (Close k) w1 = Inr w1
    \<and> act pick s (Enter an) w1 = Inr w2
    \<and> w_clients w2 = w_clients w1 @ [w_clients w ! k] \<and> w_gid w2 = w_gid w
    \<and> idle (w_pool w2) = [] \<and> set (used (w_pool w2)) = set (used (w_pool w))"
proof -
  let ?c = "w_clients w ! k"
  let ?p = "w_pool w\<lparr>connections := (connections (w_pool w))(i \<mapsto> ?c), used := removeAll i (used (w_pool w)),
                 idle := [i]\<rparr>"
  let ?w1 = "w\<lparr>w_pool := ?p, w_clients := (w_clients w)[k := moved_from ?c]\<rparr>"
  have 1: "act pick s (Close k) w = Inr ?w1"
    using assms(4-8) by (simp add: SqlConn_close_eq)
  have 2: "act pick s (Close k) ?w1 = Inr ?w1" using assms(5) by (intro act_close_null) simp
  have pick: "pick [i] = i" using assms(3)[unfolded picks_def, rule_format, of "[i]"] by simp
  have "take_conn an (w_next w) pick s ?p (w_gid w)
      = Inr (?c, ?p\<lparr>idle := [], connections := (connections ?p)(i := None),
                    used := List.insert i (removeAll i (used (w_pool w)))\<rparr>, w_gid w)"
    using pick by (simp add: take_conn_reuse)
  then have 3: "act pick s (Enter an) ?w1 = Inr (?w1\<lparr>w_pool := ?p\<lparr>idle := [],
      connections := (connections ?p)(i := None), used := List.insert i (removeAll i (used (w_pool w)))\<rparr>,
      w_next := Suc (w_next w), w_clients := w_clients ?w1 @ [?c]\<rparr>)"
    by (simp add: run_stretch_def get_stretch_def must_wait_def)
  show ?thesis
    by (intro exI conjI, rule 1, rule 2, rule 3) (use assms(8) in \<open>simp_all add: insert_absorb\<close>)
qed

text \<open>
  C12: With a server that accepts connections, every place of the pool that is not on loan can
  be borrowed: \<open>n\<close> borrowings in a row give \<open>n\<close> connections with ids that differ from each
  other and from those on loan; and a pool that is fully on loan gives nothing until a
  connection is closed.
\<close>

theorem free_places_can_be_borrowed:
  assumes "pool_inv s st" "card (pool_leased st) + n \<le> nat (poolSize s)" "n \<le> pool_fuel st" "0 < pool_fuel st"
  shows "(\<exists>cs st'. borrow_n s n st = Some (cs, st') \<and> length cs = n \<and> distinct (map (\<lambda>c. the (c_id c)) cs)
      \<and> (\<lambda>c. the (c_id c)) ` set cs \<inter> pool_leased st = {}
      \<and> pool_leased st' = pool_leased st \<union> (\<lambda>c. the (c_id c)) ` set cs)
    \<and> (card (pool_leased st) = nat (poolSize s) \<longrightarrow> pool_acquire s st = None
      \<and> (\<forall>c. pool_on_loan c st \<longrightarrow> pool_acquire s (pool_release c st) \<noteq> None))"
proof (intro conjI impI allI)
  show "\<exists>cs st'. borrow_n s n st = Some (cs, st') \<and> length cs = n \<and> distinct (map (\<lambda>c. the (c_id c)) cs)
      \<and> (\<lambda>c. the (c_id c)) ` set cs \<inter> pool_leased st = {}
      \<and> pool_leased st' = pool_leased st \<union> (\<lambda>c. the (c_id c)) ` set cs"
    using pool_leases.acquire_all[OF assms(1-3)] unfolding borrow_n_eq by blast
  show "pool_acquire s st = None" if "card (pool_leased st) = nat (poolSize s)"
    using pool_leases.acquire_iff[OF assms(1,4)] that by (metis order_less_irrefl)
  show "pool_acquire s (pool_release c st) \<noteq> None" if "pool_on_loan c st" for c
    by (rule pool_leases.release_makes_room[OF assms(1) that assms(4)])
qed

section \<open>Witnesses\<close>

definition demo_settings :: settings where
  "demo_settings = \<lparr>p_host = ''h'', p_username = ''u'', p_password = ''p'', p_port = 3306, p_db = ''d'',
     poolSize = 10, maxWait = 1000, maxRetry = 5, waitInterval = 200, testOnBorrow = True,
     testSql = ''select 1''\<rparr>"

definition demo_pool :: conn_pool where
  "demo_pool = ConnectionPool_new\<lparr>p_settings := Some demo_settings\<rparr>"

definition demo_conn :: sqlconn where
  "demo_conn = \<lparr>c_handle = Some (handle_of demo_settings 0), c_error = [], c_id = Some 1, c_pool = True\<rparr>"

text \<open>The world after the first connection was borrowed.\<close>

definition demo_world :: world where
  "demo_world = \<lparr>w_pool = demo_pool\<lparr>used := [1]\<rparr>, w_gid = 2, w_next = 1, w_clients = [demo_conn], w_waiting = []\<rparr>"

lemmas demo_pool_defs = demo_settings_def demo_pool_def ConnectionPool_new_def

lemma demo_configured:
  "configure ''h'' ''u'' ''p'' 3306 ''d'' 10 1000 5 True ''select 1'' ConnectionPool_new = Inr demo_pool"
  by (simp add: configure_def demo_pool_def demo_settings_def)

lemma demo_borrow: "act hd demo_settings (Enter good_answers) (world_start demo_settings 1) = Inr demo_world"
proof -
  have "take_conn good_answers 0 hd demo_settings demo_pool 1 = Inr (demo_conn, demo_pool\<lparr>used := [1]\<rparr>, 2)"
    using take_conn_fresh[of demo_pool demo_settings 1 0 hd]
    by (simp add: demo_conn_def) (simp add: demo_pool_defs total_def)
  then show ?thesis
    by (simp add: run_stretch_def get_stretch_def world_start_def must_wait_def demo_world_def
        flip: demo_pool_def) (simp add: demo_pool_defs total_def)
qed

lemma demo_reachable: "reachable hd demo_settings demo_world"
  by (rule reachable.step[OF reachable.start demo_borrow])

lemma demo_pool_inv: "pool_inv demo_settings (demo_pool, 1, 0)"
  by (simp add: pool_inv_def pool_ok_def demo_pool_defs total_def)

theorem no_shared_connection_witness:
  "set (idle (w_pool demo_world)) \<inter> set (used (w_pool demo_world)) = {}
   \<and> length (filter (\<lambda>c. map_option h_id (c_handle c) = Some 0) [demo_conn]) = 1"
  using no_shared_connection[OF demo_reachable _ picks_hd, of 0]
  by (simp add: demo_world_def demo_pool_defs demo_conn_def handle_of_def)

theorem pool_steps_defined_witness:
  "\<exists>w'. act hd demo_settings (Enter good_answers) demo_world = Inr w'"
proof -
  have "ato i32 ''1'' = Inr 1" by code_simp
  then show ?thesis
    using pool_steps_defined[OF demo_reachable _ picks_hd, of "Enter good_answers"]
    by (simp add: answers_ok_def good_answers_def demo_world_def demo_settings_def)
qed

text \<open>A full pool that stays full: five waits of 200 milliseconds, then an invalid connection.\<close>

theorem getConn_returns_witness:
  "\<exists>n c p g. getConn good_answers 0 hd (\<lambda>i. (demo_pool\<lparr>used := [1..10]\<rparr>, 11)) = Inr (n, c, p, g) \<and> n \<le> 5
     \<and> n * 200 \<le> 1000"
proof -
  let ?p = "demo_pool\<lparr>used := [1..10]\<rparr>"
  have "\<exists>r. take_conn good_answers 0 hd demo_settings ?p 11 = Inr r"
    by (simp add: take_conn_def total_def SqlConn_new_def) (simp add: demo_pool_defs)
  then show ?thesis
    using getConn_returns[OF demo_configured, of demo_settings "\<lambda>i. (?p, 11)" good_answers 0 hd]
    by (fastforce simp: demo_pool_def demo_settings_def)
qed

theorem closed_connection_witness:
  "\<exists>w1 w2. act hd demo_settings (Close 0) demo_world = Inr w1
     \<and> act hd demo_settings (Enter good_answers) w1 = Inr w2 \<and> last (w_clients w2) = demo_conn"
  using closed_connection_comes_back[OF demo_reachable _ picks_hd, of 0 1 good_answers]
  by (fastforce simp: demo_world_def demo_pool_defs demo_conn_def)

theorem free_places_witness:
  "\<exists>cs st'. borrow_n demo_settings 10 (demo_pool, 1, 0) = Some (cs, st') \<and> length cs = 10"
  using free_places_can_be_borrowed[OF demo_pool_inv, of 10]
  by (auto simp: pool_leased_def pool_fuel_def demo_pool_defs)

end
