(* ===== verification/Db_Life.thy ===== *)
theory Db_Life
  imports Migration_Props Pool_Use
begin

text \<open>
  \<^verbatim>\<open>tinyorm/db.h\<close> and \<^verbatim>\<open>mysql4cpp/database.cpp\<close>: the life of the pool singleton, the models
  that borrow from it, and \<^verbatim>\<open>DB::AutoMigrate\<close>, over the whole state of a process: the
  singleton, the counters, the static members of every \<^verbatim>\<open>Model\<close> and the data files.
\<close>

section \<open>The state of a process\<close>

text \<open>The static pointer to the pool: null, to a pool, or to one that was deleted.\<close>

datatype pool_pointer = No_Pool | Live (pool_of: conn_pool) | Deleted

text \<open>
  \<open>pr_heap\<close> numbers the handles that are made; \<open>pr_db\<close> and \<open>pr_prev\<close> are the static members
  of \<^verbatim>\<open>Model<T>\<close> by the name of \<open>T\<close>; \<open>pr_files\<close> the data files by the name of the database,
  in a directory \<^verbatim>\<open>models\<close> that exists.
\<close>

record process =
  pr_pool :: pool_pointer
  pr_gid :: int
  pr_heap :: nat
  pr_db :: "string \<Rightarrow> string"
  pr_prev :: "string \<Rightarrow> prev"
  pr_files :: "string \<Rightarrow> bytes option"

definition process_start :: "(string \<Rightarrow> bytes option) \<Rightarrow> process" where
  "process_start files = \<lparr>pr_pool = No_Pool, pr_gid = 1, pr_heap = 0, pr_db = (\<lambda>ty. []),
     pr_prev = (\<lambda>ty. prev_empty), pr_files = files\<rparr>"

text \<open>
  What the process does not decide: the rules, the order \<^verbatim>\<open>begin()\<close> and \<^verbatim>\<open>sort\<close> choose, and
  the server: how it answers the making of each handle, the queries and the updates.
\<close>

record env =
  en_conf :: json
  en_pick :: "int list \<Rightarrow> int"
  en_sorter :: "cmd list \<Rightarrow> cmd list"
  en_answers :: "nat \<Rightarrow> answers"
  en_meta :: "nat \<Rightarrow> bool"
  en_autocommit :: "bool \<Rightarrow> bool"
  en_info :: "string \<Rightarrow> text_answer"
  en_update :: "string \<Rightarrow> 64 word"

section \<open>The DB object\<close>

record db =
  d_host :: string
  d_port :: int
  d_username :: string
  d_password :: string
  d_name :: string
  d_autoCommit :: bool

text \<open>\<^verbatim>\<open>getInstance\<close> makes the pool once; it does not see that the pool was deleted.\<close>

definition getInstance :: "process \<Rightarrow> process" where
  "getInstance pr = (case pr_pool pr of No_Pool \<Rightarrow> pr\<lparr>pr_pool := Live ConnectionPool_new\<rparr> | _ \<Rightarrow> pr)"

definition with_pool :: "(conn_pool \<Rightarrow> 'a res) \<Rightarrow> process \<Rightarrow> 'a res" where
  "with_pool f pr = (case pr_pool pr of Live p \<Rightarrow> f p | _ \<Rightarrow> Inl UB)"

definition DB_new :: "string \<Rightarrow> int \<Rightarrow> string \<Rightarrow> string \<Rightarrow> string \<Rightarrow> process \<Rightarrow> (db \<times> process) res" where
  "DB_new host port username password dbname pr =
     (let pr = getInstance pr in
      rmap (\<lambda>p. (\<lparr>d_host = host, d_port = port, d_username = username, d_password = password,
                   d_name = dbname, d_autoCommit = True\<rparr>, pr\<lparr>pr_pool := Live p\<rparr>))
        (with_pool (configure host username password port dbname 10 1000 5 True ''select 1'') pr))"

text \<open>\<^verbatim>\<open>DB(const DB&) = default\<close>: a copy has the same pointer to the pool.\<close>

definition DB_copy :: "db \<Rightarrow> db" where
  "DB_copy d = d"

text \<open>\<^verbatim>\<open>delete pool\<close>. The static pointer keeps its value.\<close>

definition DB_delete :: "process \<Rightarrow> process res" where
  "DB_delete pr = with_pool (\<lambda>p. Inr (pr\<lparr>pr_pool := Deleted\<rparr>)) pr"

definition DB_setAutoCommit :: "bool \<Rightarrow> db \<Rightarrow> db" where
  "DB_setAutoCommit mode d = d\<lparr>d_autoCommit := mode\<rparr>"

definition borrow :: "env \<Rightarrow> conn_pool \<Rightarrow> process \<Rightarrow> (sqlconn \<times> process) res" where
  "borrow env p pr =
     rmap (\<lambda>(n, c, p', g). (c, pr\<lparr>pr_pool := Live p', pr_gid := g, pr_heap := Suc (pr_heap pr)\<rparr>))
       (getConn (en_answers env (pr_heap pr)) (pr_heap pr) (en_pick env) (\<lambda>i. (p, pr_gid pr)))"

text \<open>One thread: nothing changes the pool while it waits.\<close>

definition DB_getConn :: "env \<Rightarrow> process \<Rightarrow> (sqlconn \<times> process) res" where
  "DB_getConn env pr = with_pool (\<lambda>p. borrow env p pr) pr"

text \<open>\<^verbatim>\<open>SqlConn::close\<close>; an object without a pool does not look at the pointer.\<close>

definition close_conn :: "sqlconn \<Rightarrow> process \<Rightarrow> process res" where
  "close_conn c pr = (if \<not> c_pool c then Inr pr
     else with_pool (\<lambda>p. rmap (\<lambda>(p', c', h). pr\<lparr>pr_pool := Live p'\<rparr>) (SqlConn_close c p)) pr)"

section \<open>The Database object\<close>

text \<open>The port is the constant 3306, the pool has 20 places.\<close>

definition Database_new :: "string \<Rightarrow> string \<Rightarrow> string \<Rightarrow> string \<Rightarrow> process \<Rightarrow> process res" where
  "Database_new dbname pwd host user pr =
     (let pr = getInstance pr in
      rmap (\<lambda>p. pr\<lparr>pr_pool := Live p\<rparr>)
        (with_pool (configure host user pwd 3306 dbname 20 1000 5 True ''select 1'') pr))"

definition Database_getConn :: "env \<Rightarrow> process \<Rightarrow> (sqlconn \<times> process) res" where
  "Database_getConn env pr = with_pool (\<lambda>p. borrow env p pr) pr"

section \<open>Models\<close>

text \<open>
  An entity is a type name with what the macros registered for it. The constructor sets the
  static \<^verbatim>\<open>db\<close> of the type only when it is empty.
\<close>

type_synonym entity = "string \<times> base"

definition DB_model :: "env \<Rightarrow> db \<Rightarrow> entity \<Rightarrow> process \<Rightarrow> (model \<times> sqlconn \<times> process) res" where
  "DB_model env d e pr = (let (ty, b) = e in
     rbind (DB_getConn env pr) (\<lambda>(c, pr).
       let pr = pr\<lparr>pr_db := (pr_db pr)(ty := (if pr_db pr ty = [] then d_name d else pr_db pr ty))\<rparr>
       in rbind (setAutocommit (en_autocommit env) (d_autoCommit d) c) (\<lambda>ok.
          rmap (\<lambda>m. (m, c, pr)) (Model_new ty b (isOpen c)))))"

text \<open>The connections that \<^verbatim>\<open>loadFromDB\<close> makes, and how many: each takes an id.\<close>

definition meta_conn :: "env \<Rightarrow> process \<Rightarrow> sqlconn \<Rightarrow> nat \<Rightarrow> sqlconn" where
  "meta_conn env pr c i =
     (case with_pool (\<lambda>p. getMetadata (en_meta env (pr_heap pr + i)) (pr_heap pr + i) p c (pr_gid pr + int i)) pr of
        Inr (c', g) \<Rightarrow> c' | Inl e \<Rightarrow> SqlConn_default)"

definition schema_calls :: "env \<Rightarrow> process \<Rightarrow> sqlconn \<Rightarrow> string \<Rightarrow> model \<Rightarrow> nat" where
  "schema_calls env pr c cls m =
     (let ty = m_typeid m; db = pr_db pr ty; pv = pr_prev pr ty in
      case loadFromFile (pr_files pr db) cls (tablenamePrev pv, fieldsPrev pv, indicesPrev pv, columnToIndexPrev pv) of
        Some (Inr (t, fs, ins, ci)) \<Rightarrow>
          if t \<noteq> [] then 0
          else (case getTableName m of
              Inr table \<Rightarrow> (case loadFromDB (en_conf env) (en_info env) (meta_conn env pr c 0) db table (fs, ins, ci) of
                  Some (Inr (fs, ins, ci)) \<Rightarrow> if fs \<noteq> [] then 1 else 2
                | _ \<Rightarrow> 1)
            | Inl e \<Rightarrow> 0)
      | _ \<Rightarrow> 0)"

text \<open>
  \<^verbatim>\<open>Model::AutoMigrate\<close> with its migrator, which borrows a connection of its own and closes it
  at the end. The result has the texts that were run.
\<close>

definition Model_AutoMigrate :: "env \<Rightarrow> model \<Rightarrow> sqlconn \<Rightarrow> process \<Rightarrow> (string list \<times> model \<times> process) res option" where
  "Model_AutoMigrate env m c pr =
     (let ty = m_typeid m in
      obind (Some (DB_getConn env pr)) (\<lambda>(mc, pr).
      obind (AutoMigrate (en_conf env) (en_sorter env) (pr_files pr (pr_db pr ty)) (en_info env) (meta_conn env pr c)
               (en_update env) mc (pr_db pr ty) m (pr_prev pr ty)) (\<lambda>(sqls, m', pv).
      obind (Some (getClassName ty)) (\<lambda>cls.
        let n = schema_calls env pr c cls m;
            pr = pr\<lparr>pr_prev := (pr_prev pr)(ty := pv), pr_gid := pr_gid pr + int n, pr_heap := pr_heap pr + n\<rparr>
        in Some (rmap (\<lambda>pr. (sqls, m', pr)) (close_conn mc pr))))))"

definition doMigrate :: "env \<Rightarrow> db \<Rightarrow> entity \<Rightarrow> process \<Rightarrow> (string list \<times> process) res option" where
  "doMigrate env d e pr =
     obind (Some (DB_model env d e pr)) (\<lambda>(m, c, pr).
     obind (Model_AutoMigrate env m c pr) (\<lambda>(sqls, m', pr).
       Some (rmap (Pair sqls) (close_conn c pr))))"

fun migrate_all :: "env \<Rightarrow> db \<Rightarrow> entity list \<Rightarrow> process \<Rightarrow> (string list \<times> process) res option" where
  "migrate_all env d [] pr = Some (Inr ([], pr))"
| "migrate_all env d (e # es) pr =
     obind (doMigrate env d e pr) (\<lambda>(sqls, pr).
     obind (migrate_all env d es pr) (\<lambda>(sqls', pr). Some (Inr (sqls @ sqls', pr))))"

fun save_all :: "json \<Rightarrow> entity list \<Rightarrow> process \<Rightarrow> process res" where
  "save_all conf [] pr = Inr pr"
| "save_all conf ((ty, b) # es) pr =
     rbind (Model_saveModel conf ty (pr_prev pr ty)) (\<lambda>content.
       let db = pr_db pr ty; before = (case pr_files pr db of None \<Rightarrow> [] | Some bs \<Rightarrow> bs)
       in save_all conf es (pr\<lparr>pr_files := (pr_files pr)(db \<mapsto> before @ content)\<rparr>))"

text \<open>\<^verbatim>\<open>DB::AutoMigrate\<close>: every model is migrated, the file emptied, and every model saved.\<close>

definition DB_AutoMigrate :: "env \<Rightarrow> db \<Rightarrow> entity list \<Rightarrow> process \<Rightarrow> (string list \<times> process) res option" where
  "DB_AutoMigrate env d es pr =
     obind (migrate_all env d es pr) (\<lambda>(sqls, pr).
       Some (rmap (Pair sqls) (save_all (en_conf env) es (pr\<lparr>pr_files := (pr_files pr)(d_name d \<mapsto> [])\<rparr>))))"

end
