(* ===== verification/Db_Props.thy ===== *)
theory Db_Props
  imports Db_Life
begin

text \<open>
  The life of the pool: a migration gives back every connection it borrowed, whatever the
  server answers; what a second database object in one process is given; and what becomes of
  the pool's users after it was deleted or is exhausted.
\<close>

section \<open>Borrowing and giving back\<close>

definition pool_fine :: "settings \<Rightarrow> conn_pool \<Rightarrow> int \<Rightarrow> bool" where
  "pool_fine s p g \<longleftrightarrow> p_settings p = Some s \<and> pool_ok s p g \<and> (\<forall>i \<in> set (idle p). i < g)
     \<and> (\<forall>c \<in> ran (connections p). c_pool c)"

definition process_fine :: "settings \<Rightarrow> process \<Rightarrow> bool" where
  "process_fine s pr \<longleftrightarrow> (\<exists>p. pr_pool pr = Live p \<and> pool_fine s p (pr_gid pr))"

definition lent :: "process \<Rightarrow> int set" where
  "lent pr = (case pr_pool pr of Live p \<Rightarrow> set (used p) | _ \<Rightarrow> {})"

lemma pool_fine_mono: "pool_fine s p g \<Longrightarrow> g \<le> g' \<Longrightarrow> pool_fine s p g'"
  by (force simp: pool_fine_def pool_ok_def)

lemma take_conn_fine:
  assumes fine: "pool_fine s p g" and pick: "picks pick" and take: "take_conn an h pick s p g = Inr (c, p', g')"
  shows "pool_fine s p' g' \<and> (\<exists>i. c_id c = Some i \<and> i \<notin> set (used p) \<and>
    (if i \<in> set (used p') then c_pool c \<and> set (used p') = insert i (set (used p)) else set (used p') = set (used p)))"
proof -
  have ok: "pool_ok s p g" and ids: "\<forall>i \<in> set (idle p). i < g" using fine by (simp_all add: pool_fine_def)
  have ok': "pool_ok s p' g' \<and> g \<le> g'" by (rule take_conn_pool_ok[OF ok take pick ids])
  have g: "g \<notin> set (used p)" using pool_okD(6)[OF ok, of g] by blast
  show ?thesis using take
  proof (cases rule: take_conn_cases)
    case reuse
    have i: "pick (idle p) \<in> set (idle p)" using pick reuse(1) by (simp add: picks_def)
    then have "pick (idle p) \<notin> set (used p)" using pool_okD(3)[OF ok] by blast
    moreover have "ran (connections p') \<subseteq> ran (connections p)" by (auto simp: reuse ran_def split: if_splits)
    moreover have "c \<in> ran (connections p)" using reuse(2) by (auto simp: ran_def)
    ultimately show ?thesis using fine ok' pool_okD(5)[OF ok reuse(2)]
      unfolding pool_fine_def reuse by auto
  next
    case fresh
    then show ?thesis using fine ok' g unfolding pool_fine_def by auto
  next
    case untested
    then show ?thesis using fine ok' g unfolding pool_fine_def by auto
  next
    case (failed e)
    then show ?thesis using fine ok' g unfolding pool_fine_def by auto
  qed
qed

lemma close_fine:
  assumes fine: "pool_fine s p g" and c: "c_id c = Some i" "i \<in> set (used p) \<longrightarrow> c_pool c"
  shows "\<exists>p' c' h. SqlConn_close c p = Inr (p', c', h) \<and> pool_fine s p' g \<and> set (used p') = set (used p) - {i}"
proof (cases "i \<in> set (used p)")
  case True
  have ok: "pool_ok s p g" using fine by (simp add: pool_fine_def)
  let ?p = "p\<lparr>connections := (connections p)(i \<mapsto> c), used := removeAll i (used p), idle := List.insert i (idle p)\<rparr>"
  have "pool_fine s ?p g"
    using fine close_pool_ok[OF ok True c(1)] pool_okD(6)[OF ok True] c True unfolding pool_fine_def
    by (auto simp: ran_def split: if_splits)
  then show ?thesis using True c by (simp add: SqlConn_close_eq[OF c(1)])
next
  case False
  then show ?thesis using fine by (simp add: SqlConn_close_eq[OF c(1)])
qed

lemma get_loop_const:
  "\<exists>k. get_loop an h pick s (\<lambda>i. (p, g)) 0 = rmap (Pair k) (take_conn an h pick s p g)"
  using get_loop_waits[of 0 s "\<lambda>i. (p, g)" an h pick] by auto

lemma getConn_take:
  assumes "getConn an h pick (\<lambda>i. (p, g)) = Inr (n, c, p', g')" "p_settings p = Some s"
  shows "take_conn an h pick s p g = Inr (c, p', g')"
proof -
  have "get_loop an h pick s (\<lambda>i. (p, g)) 0 = Inr (n, c, p', g')" using assms by (simp add: getConn_def)
  moreover obtain k where "get_loop an h pick s (\<lambda>i. (p, g)) 0 = rmap (Pair k) (take_conn an h pick s p g)"
    using get_loop_const by blast
  ultimately show ?thesis by (auto simp: rmap_eq_Inr_iff)
qed

lemma DB_getConn_fine:
  assumes "process_fine s pr" "picks (en_pick env)" "DB_getConn env pr = Inr (c, pr')"
  shows "process_fine s pr' \<and> (\<exists>i. c_id c = Some i \<and> i \<notin> lent pr \<and>
    (if i \<in> lent pr' then c_pool c \<and> lent pr' = insert i (lent pr) else lent pr' = lent pr))
    \<and> pr_db pr' = pr_db pr \<and> pr_prev pr' = pr_prev pr \<and> pr_files pr' = pr_files pr"
proof -
  obtain p where p: "pr_pool pr = Live p" "pool_fine s p (pr_gid pr)" using assms(1) by (auto simp: process_fine_def)
  from assms(3) p(1) obtain n p' g where
    g: "getConn (en_answers env (pr_heap pr)) (pr_heap pr) (en_pick env) (\<lambda>i. (p, pr_gid pr)) = Inr (n, c, p', g)"
    and pr': "pr' = pr\<lparr>pr_pool := Live p', pr_gid := g, pr_heap := Suc (pr_heap pr)\<rparr>"
    by (auto simp: DB_getConn_def with_pool_def borrow_def rmap_eq_Inr_iff)
  have "p_settings p = Some s" using p(2) by (simp add: pool_fine_def)
  from take_conn_fine[OF p(2) assms(2) getConn_take[OF g this]] show ?thesis
    by (auto simp: pr' process_fine_def lent_def p(1) split: if_splits)
qed

lemma close_conn_fine:
  assumes "process_fine s pr" "c_id c = Some i" "i \<in> lent pr \<longrightarrow> c_pool c"
  shows "\<exists>pr'. close_conn c pr = Inr pr' \<and> process_fine s pr' \<and> lent pr' = lent pr - {i}"
proof -
  obtain p where p: "pr_pool pr = Live p" "pool_fine s p (pr_gid pr)" using assms(1) by (auto simp: process_fine_def)
  have "i \<in> set (used p) \<longrightarrow> c_pool c" using assms(3) p(1) by (simp add: lent_def)
  from close_fine[OF p(2) assms(2) this] obtain p' c' h where
    close: "SqlConn_close c p = Inr (p', c', h)" "pool_fine s p' (pr_gid pr)" "set (used p') = set (used p) - {i}"
    by blast
  show ?thesis
  proof (cases "c_pool c")
    case True
    then show ?thesis using p(1) close by (auto simp: close_conn_def with_pool_def process_fine_def lent_def)
  next
    case False
    then show ?thesis using assms by (auto simp: close_conn_def)
  qed
qed

section \<open>A migration\<close>

lemma obind_eq_Inr: "obind r f = Some (Inr y) \<longleftrightarrow> (\<exists>x. r = Some (Inr x) \<and> f x = Some (Inr y))"
  by (auto simp: obind_def split: option.splits sum.splits)

lemma process_fine_ids: "process_fine s pr \<Longrightarrow> pr_pool pr' = pr_pool pr \<Longrightarrow> pr_gid pr \<le> pr_gid pr' \<Longrightarrow>
    process_fine s pr' \<and> lent pr' = lent pr"
  by (auto simp: process_fine_def lent_def intro: pool_fine_mono)

lemma Model_AutoMigrate_fine:
  assumes fine: "process_fine s pr" and pick: "picks (en_pick env)"
    and run: "Model_AutoMigrate env m c pr = Some (Inr (sqls, m', pr'))"
  shows "process_fine s pr' \<and> lent pr' = lent pr"
proof -
  from run obtain mc pr1 pv n where get: "DB_getConn env pr = Inr (mc, pr1)"
    and close: "close_conn mc (pr1\<lparr>pr_prev := pv, pr_gid := pr_gid pr1 + int n, pr_heap := pr_heap pr1 + n\<rparr>) = Inr pr'"
    by (auto simp: Model_AutoMigrate_def obind_eq_Inr rmap_eq_Inr_iff Let_def)
  let ?pr2 = "pr1\<lparr>pr_prev := pv, pr_gid := pr_gid pr1 + int n, pr_heap := pr_heap pr1 + n\<rparr>"
  from DB_getConn_fine[OF fine pick get] obtain i where i: "process_fine s pr1" "c_id mc = Some i" "i \<notin> lent pr"
    "if i \<in> lent pr1 then c_pool mc \<and> lent pr1 = insert i (lent pr) else lent pr1 = lent pr" by blast
  have "process_fine s ?pr2 \<and> lent ?pr2 = lent pr1" by (rule process_fine_ids[OF i(1)]) simp_all
  then show ?thesis using close_conn_fine[of s ?pr2 mc i] close i by (auto split: if_splits)
qed

lemma doMigrate_fine:
  assumes fine: "process_fine s pr" and pick: "picks (en_pick env)"
    and run: "doMigrate env d e pr = Some (Inr (sqls, pr'))"
  shows "process_fine s pr' \<and> lent pr' = lent pr"
proof -
  obtain ty b where e: "e = (ty, b)" by (cases e)
  from run obtain m c pr1 m' pr2 where mk: "DB_model env d e pr = Inr (m, c, pr1)"
    and mig: "Model_AutoMigrate env m c pr1 = Some (Inr (sqls, m', pr2))" and close: "close_conn c pr2 = Inr pr'"
    by (auto simp: doMigrate_def obind_eq_Inr rmap_eq_Inr_iff)
  from mk obtain pr0 dbs where get: "DB_getConn env pr = Inr (c, pr0)" and pr1: "pr1 = pr0\<lparr>pr_db := dbs\<rparr>"
    by (auto simp: DB_model_def e rbind_eq_Inr_iff rmap_eq_Inr_iff Let_def)
  from DB_getConn_fine[OF fine pick get] obtain i where i: "process_fine s pr0" "c_id c = Some i" "i \<notin> lent pr"
    "if i \<in> lent pr0 then c_pool c \<and> lent pr0 = insert i (lent pr) else lent pr0 = lent pr" by blast
  have 1: "process_fine s pr1 \<and> lent pr1 = lent pr0" unfolding pr1 by (rule process_fine_ids[OF i(1)]) simp_all
  then have 2: "process_fine s pr2 \<and> lent pr2 = lent pr0" using Model_AutoMigrate_fine[OF _ pick mig, of s] by simp
  then show ?thesis using close_conn_fine[of s pr2 c i] close i by (auto split: if_splits)
qed

lemma migrate_all_fine:
  "process_fine s pr \<Longrightarrow> picks (en_pick env) \<Longrightarrow> migrate_all env d es pr = Some (Inr (sqls, pr')) \<Longrightarrow>
   process_fine s pr' \<and> lent pr' = lent pr"
proof (induction es arbitrary: pr sqls)
  case (Cons e es)
  from Cons.prems(3) obtain s1 pr1 s2 where "doMigrate env d e pr = Some (Inr (s1, pr1))"
    "migrate_all env d es pr1 = Some (Inr (s2, pr'))" by (auto simp: obind_eq_Inr)
  then show ?case using doMigrate_fine[OF Cons.prems(1,2)] Cons.IH[OF _ Cons.prems(2)] by blast
qed simp

lemma save_all_pool: "save_all conf es pr = Inr pr' \<Longrightarrow> pr_pool pr' = pr_pool pr \<and> pr_gid pr' = pr_gid pr"
  by (induction conf es pr rule: save_all.induct) (auto simp: rbind_eq_Inr_iff Let_def)

section \<open>Properties\<close>

text \<open>
  C13: \<^verbatim>\<open>DB::AutoMigrate\<close> gives back every connection it borrows, two for each entity,
  whatever the server answers and whatever statements it sends: afterwards the same ids are on
  loan as before, and the invariant of the pool still holds. Any number of entities can so be
  migrated over a pool of a fixed size.
\<close>

theorem migration_gives_back:
  assumes "process_fine s pr" "picks (en_pick env)" "DB_AutoMigrate env d es pr = Some (Inr (sqls, pr'))"
  shows "process_fine s pr' \<and> lent pr' = lent pr"
proof -
  from assms(3) obtain pr1 where mig: "migrate_all env d es pr = Some (Inr (sqls, pr1))"
    and save: "save_all (en_conf env) es (pr1\<lparr>pr_files := (pr_files pr1)(d_name d \<mapsto> [])\<rparr>) = Inr pr'"
    by (auto simp: DB_AutoMigrate_def obind_eq_Inr rmap_eq_Inr_iff)
  have 1: "process_fine s pr1 \<and> lent pr1 = lent pr" by (rule migrate_all_fine[OF assms(1,2) mig])
  then show ?thesis using process_fine_ids[of s pr1 pr'] save_all_pool[OF save] by simp
qed

text \<open>
  C32: A process that has destroyed a database object, or a copy of one, cannot use the pool
  again: the static pointer still leads to the deleted pool, so that constructing another
  object, destroying a copy, borrowing, and closing a connection of the pool are all undefined.
\<close>

theorem nothing_after_delete:
  assumes "DB_delete pr = Inr pr'"
  shows "DB_new host port username password dbname pr' = Inl UB \<and> Database_new dbname password host username pr' = Inl UB
    \<and> DB_delete pr' = Inl UB \<and> DB_getConn env pr' = Inl UB \<and> (c_pool c \<longrightarrow> close_conn c pr' = Inl UB)"
  using assms
  by (auto simp: DB_delete_def with_pool_def DB_new_def Database_new_def getInstance_def DB_getConn_def close_conn_def
      split: pool_pointer.splits)

text \<open>
  C31: A second database object reconfigures the one pool of the process, but connections that
  are idle stay open: the next one borrowed is to the database of the first object.
\<close>

theorem second_database_old_connection:
  assumes "pr_pool pr = Live p" "pool_fine s p (pr_gid pr)" "picks (en_pick env)" "idle p \<noteq> []"
    and "\<forall>c \<in> ran (connections p). \<exists>h. c_handle c = Some h \<and> h_schema h = old"
  shows "\<exists>d pr1 c pr2 h. DB_new host port username password new pr = Inr (d, pr1) \<and> d_name d = new
    \<and> DB_getConn env pr1 = Inr (c, pr2) \<and> c_handle c = Some h \<and> h_schema h = old"
proof -
  let ?s = "\<lparr>p_host = host, p_username = username, p_password = password, p_port = port, p_db = new, poolSize = 10,
    maxWait = 1000, maxRetry = 5, waitInterval = 200, testOnBorrow = True, testSql = ''select 1''\<rparr>"
  let ?p = "p\<lparr>p_settings := Some ?s\<rparr>"
  let ?d = "\<lparr>d_host = host, d_port = port, d_username = username, d_password = password, d_name = new, d_autoCommit = True\<rparr>"
  have "en_pick env (idle p) \<in> set (idle p)" using assms(3,4) by (simp add: picks_def)
  then obtain c where c: "connections p (en_pick env (idle p)) = Some c"
    using pool_okD(4) assms(2) unfolding pool_fine_def by blast
  then obtain h where h: "c_handle c = Some h" "h_schema h = old" using assms(5) by (auto simp: ran_def)
  have new: "DB_new host port username password new pr = Inr (?d, pr\<lparr>pr_pool := Live ?p\<rparr>)"
    using assms(1) by (simp add: DB_new_def getInstance_def with_pool_def configure_def cdiv_def i32_def)
  have "get_loop (en_answers env (pr_heap pr)) (pr_heap pr) (en_pick env) ?s (\<lambda>i. (?p, pr_gid pr)) 0
    = rmap (Pair 0) (take_conn (en_answers env (pr_heap pr)) (pr_heap pr) (en_pick env) ?s ?p (pr_gid pr))"
    using assms(4) by (subst get_loop.simps) (simp add: must_wait_def)
  moreover have "\<exists>p'. take_conn (en_answers env (pr_heap pr)) (pr_heap pr) (en_pick env) ?s ?p (pr_gid pr)
      = Inr (c, p', pr_gid pr)"
    using take_conn_reuse[of ?p "en_pick env" c] assms(4) c by simp
  ultimately have "\<exists>pr2. DB_getConn env (pr\<lparr>pr_pool := Live ?p\<rparr>) = Inr (c, pr2)"
    by (auto simp: DB_getConn_def with_pool_def borrow_def getConn_def)
  then show ?thesis using new h by fastforce
qed

text \<open>
  C33: With every place of the pool on loan a model cannot be made: \<^verbatim>\<open>getConn\<close> gives up and
  hands out a connection without a handle, on which the constructor of \<^verbatim>\<open>Model\<close> sets the
  commit mode at once.
\<close>

theorem model_of_exhausted_pool:
  assumes "pr_pool pr = Live p" "p_settings p = Some s" "idle p = []" "int (length (used p)) = poolSize s"
    and "- 2147483648 \<le> pr_gid pr" "pr_gid pr < 2147483647"
  shows "(\<exists>c pr'. DB_getConn env pr = Inr (c, pr') \<and> \<not> isOpen c \<and> getError c = ''failed to create new connection'')
    \<and> DB_model env d e pr = Inl UB"
proof -
  let ?c = "\<lparr>c_handle = None, c_error = ''failed to create new connection'', c_id = Some (pr_gid pr), c_pool = False\<rparr>"
  have "take_conn (en_answers env (pr_heap pr)) (pr_heap pr) (en_pick env) s p (pr_gid pr) = Inr (?c, p, pr_gid pr + 1)"
    using assms(3-6) by (simp add: take_conn_def total_def SqlConn_new_def setError_def)
  moreover obtain k where "get_loop (en_answers env (pr_heap pr)) (pr_heap pr) (en_pick env) s (\<lambda>i. (p, pr_gid pr)) 0
      = rmap (Pair k) (take_conn (en_answers env (pr_heap pr)) (pr_heap pr) (en_pick env) s p (pr_gid pr))"
    using get_loop_const by blast
  ultimately have get: "\<exists>pr'. DB_getConn env pr = Inr (?c, pr')"
    using assms(1,2) by (simp add: DB_getConn_def with_pool_def borrow_def getConn_def)
  then obtain pr' where pr': "DB_getConn env pr = Inr (?c, pr')" by blast
  then have "DB_model env d e pr = Inl UB"
    by (simp add: DB_model_def setAutocommit_def with_handle_def Let_def split: prod.splits)
  then show ?thesis using pr' by (auto simp: isOpen_def getError_def)
qed

end
