(* ===== verification/Migration_Demo.thy ===== *)
theory Migration_Demo
  imports Migration_Props
begin

text \<open>
  The migration properties on concrete inputs: a model of two columns whose previous version
  had another name for the second one, an index of another type and an index that is gone.
\<close>

section \<open>A model and its previous version\<close>

definition mig_index :: "index_type \<Rightarrow> index_info" where
  "mig_index t = \<lparr>ix_type = t, ix_name = ''name'', ix_columns = [''name'', ''user_id'']\<rparr>"

definition mig_model :: model where
  "mig_model = \<lparr>m_typeid = ''4User'', m_metadata = [demo_id, demo_name],
     m_indices = [(''name'', mig_index INDEX_TYPE_UNI)], m_columnToIndex = [(''user_id'', 0), (''name'', 1)],
     m_tableName = Some ''t_user'', m_selectedColumns = [], m_constraints = [], m_conn_open = True,
     m_rawSql = [], m_status = INIT, m_lost = []\<rparr>"

definition demo_title :: field_meta where
  "demo_title = demo_name\<lparr>columnName := Some ''title''\<rparr>"

definition mig_prev :: prev where
  "mig_prev = \<lparr>tablenamePrev = ''t_user'', fieldsPrev = [demo_id, demo_title],
     indicesPrev = [(''name'', mig_index INDEX_TYPE_MUL), (''old'', mig_index INDEX_TYPE_MUL)],
     columnToIndexPrev = [(''user_id'', 0), (''title'', 1)]\<rparr>"

definition mig_conn :: sqlconn where
  "mig_conn = \<lparr>c_handle = Some \<lparr>h_id = 0, h_host = ''h'', h_user = ''u'', h_password = ''p'', h_port = 3306, h_schema = ''d''\<rparr>,
     c_error = [], c_id = None, c_pool = False\<rparr>"

lemma mig_open: "c_handle mig_conn = Some (the (c_handle mig_conn))"
  by (simp add: mig_conn_def)

lemmas mig_defs = mig_model_def mig_prev_def mig_index_def demo_title_def demo_defs

lemma mig_names:
  "getClassName ''4User'' = Inr ''User''" "cppToDb ''User'' = ''user''"
  by code_simp+

lemma mig_table [simp]:
  "getClassName (m_typeid mig_model) = Inr ''User''" "getTableName mig_model = Inr ''t_user''"
  "getDefaultTableName mig_model = Inr ''user''"
  by (simp_all add: getTableName_def getDefaultTableName_def mig_names mig_model_def)

lemma mig_ok: "prev_ok mig_prev" "target_ok mig_model" "no_swap mig_model mig_prev"
proof -
  show "prev_ok mig_prev"
    by (simp add: prev_ok_def mig_prev_def less_Suc_eq uget_def demo_title_def demo_defs)
  show "target_ok mig_model" by (simp add: target_ok_def getMetadata_of_def uget_def mig_defs)
  show "no_swap mig_model mig_prev"
    by (simp add: no_swap_def renamed_from_def cols_of_def mig_defs)
qed

lemma mig_cmds: "diff_cmds JNull mig_model mig_prev = Inr
  [Cmd_new ''name'' MIGACTION_CHANGE_COLUMN ''title'', Cmd_new ''name'' MIGACTION_DROP_INDEX [],
   Cmd_new ''name'' MIGACTION_ADD_INDEX [], Cmd_new ''old'' MIGACTION_DROP_INDEX []]"
proof -
  have "rmapM (column_cmd JNull mig_prev) (m_metadata mig_model)
      = Inr [[], [Cmd_new ''name'' MIGACTION_CHANGE_COLUMN ''title'']]"
    by (simp add: column_cmd_def mig_model_def mig_prev_def uget_def field_eq_refl demo_title_def demo_defs)
  then show ?thesis
    by (simp add: diff_cmds_def)
      (simp add: mig_model_def mig_prev_def old_index_cmds_def new_index_cmds_def uget_def index_eq_def mig_index_def)
qed

section \<open>Witnesses\<close>


text \<open>A server that answers from a description; the two queries differ in their eighth character.\<close>

definition schema_answer :: "column_desc list \<Rightarrow> index_desc list \<Rightarrow> string \<Rightarrow> text_answer" where
  "schema_answer cds ids sql = Some (if sql ! 7 = CHR ''C'' then
      (map (\<lambda>n. \<lparr>cm_name = n, cm_length = 64, cm_type = MYSQL_TYPE_VAR_STRING\<rparr>) column_select, map column_text cds)
    else (map (\<lambda>n. \<lparr>cm_name = n, cm_length = 64,
        cm_type = (if n = ''NON_UNIQUE'' then MYSQL_TYPE_LONGLONG else MYSQL_TYPE_VAR_STRING)\<rparr>) index_select,
        map index_text ids))"

lemma schema_answer_describes:
  assumes "length cds < 2 ^ 63" "length ids < 2 ^ 63" "list_all column_desc_ok cds" "list_all index_desc_ok ids"
  shows "describes (schema_answer cds ids) db t cds ids"
  using assms
  by (simp add: describes_def schema_answer_def columns_sql_def indices_sql_def select_clause_join)
    (simp add: column_select_def index_select_def isString_def isLong_def)

definition demo_column :: column_desc where
  "demo_column = \<lparr>cd_name = ''title'', cd_type = ''varchar(20)'', cd_nullable = True, cd_default = Some ''x'', cd_extra = []\<rparr>"

definition demo_entry :: index_desc where
  "demo_entry = \<lparr>id_name = ''PRIMARY'', id_unique = True, id_column = ''title''\<rparr>"

lemma demo_described: "describes (schema_answer [demo_column] [demo_entry]) db t [demo_column] [demo_entry]"
proof (rule schema_answer_describes)
  have "text_ok ''title''" "text_ok ''varchar(20)''" "text_ok ''x''" "text_ok []" "text_ok ''PRIMARY''" by code_simp+
  then show "list_all column_desc_ok [demo_column]" "list_all index_desc_ok [demo_entry]"
    by (simp_all add: column_desc_ok_def index_desc_ok_def demo_column_def demo_entry_def)
qed simp_all

lemma demo_keys: "[demo_column] \<noteq> []" "distinct (map cd_name [demo_column])"
  "\<forall>d \<in> set [demo_column]. cd_name d \<noteq> []"
  "\<forall>d \<in> set [demo_entry]. id_name d = ''PRIMARY'' \<longrightarrow> id_column d \<in> cd_name ` set [demo_column]"
  by (simp_all add: demo_column_def demo_entry_def)

theorem schema_loaded_witness:
  "\<exists>f indices nti. loadFromDB JNull (schema_answer [demo_column] [demo_entry]) mig_conn ''d'' ''t'' ([], [], [])
      = Some (Inr ([f], indices, nti))
    \<and> isPk f \<and> uget indices ''PRIMARY'' = Some \<lparr>ix_type = INDEX_TYPE_PRI, ix_name = ''PRIMARY'', ix_columns = [''title'']\<rparr>"
proof -
  obtain indices nti where
    "loadFromDB JNull (schema_answer [demo_column] [demo_entry]) mig_conn ''d'' ''t'' ([], [], [])
      = Some (Inr (desc_table JNull [demo_column] [demo_entry], indices, nti))"
    "\<forall>k. uget indices k = desc_index [demo_entry] k"
    using schema_loaded[OF demo_described mig_open demo_keys(1,2,4), of JNull "''d''" "''t''"] by blast
  then show ?thesis
    by (auto simp: desc_table_def desc_primary_def desc_index_def demo_entry_def demo_column_def)
qed


definition pk_index :: index_info where
  "pk_index = \<lparr>ix_type = INDEX_TYPE_PRI, ix_name = [], ix_columns = [''user_id'']\<rparr>"

definition pk_model :: model where
  "pk_model = mig_model\<lparr>m_indices := [(''PRIMARY'', pk_index)]\<rparr>"

theorem broken_statements_witness:
  "(\<exists>sql. command_sql JNull pk_model (Cmd_new ''PRIMARY'' MIGACTION_ADD_INDEX []) = Inr sql
      \<and> last sql = CHR '')'' \<and> CHR ''('' \<notin> set sql)
   \<and> (\<exists>cmds. diff_cmds JNull mig_model (mig_prev\<lparr>tablenamePrev := ''old_user''\<rparr>) = Inr cmds
      \<and> command_sql JNull mig_model (hd cmds) = Inr ''ALTER TABLE user RENAME AS t_user'')"
proof -
  have "getTableName pk_model = Inr ''t_user''"
    using mig_table(2) by (simp add: pk_model_def getTableName_def getDefaultTableName_def)
  then have "\<exists>sql. command_sql JNull pk_model (Cmd_new ''PRIMARY'' MIGACTION_ADD_INDEX []) = Inr sql
      \<and> last sql = CHR '')'' \<and> CHR ''('' \<notin> set sql"
    by (intro conjunct1[OF broken_statements[where table = "''t_user''" and i = pk_index], rule_format])
      (simp add: pk_model_def pk_index_def uget_def)
  moreover have "\<exists>cmds. diff_cmds JNull mig_model (mig_prev\<lparr>tablenamePrev := ''old_user''\<rparr>) = Inr cmds"
    by (rule diff_cmds_defined[OF mig_table(2,3)])
      (simp add: column_cmd_def mig_model_def mig_prev_def uget_def field_eq_refl demo_title_def demo_defs)
  then obtain cmds where c: "diff_cmds JNull mig_model (mig_prev\<lparr>tablenamePrev := ''old_user''\<rparr>) = Inr cmds" by blast
  have "command_sql JNull mig_model (hd cmds) = Inr (''ALTER TABLE '' @ ''user'' @ '' RENAME AS '' @ ''t_user'')"
    by (rule conjunct2[OF broken_statements[where pv = "mig_prev\<lparr>tablenamePrev := ''old_user''\<rparr>" and cmds = cmds], rule_format])
      (use c in \<open>simp add: mig_prev_def\<close>)
  ultimately show ?thesis using c by auto
qed

definition created_prev :: prev where
  "created_prev = \<lparr>tablenamePrev = ''t_user'', fieldsPrev = m_metadata mig_model, indicesPrev = m_indices mig_model,
     columnToIndexPrev = []\<rparr>"

lemma created: "AutoMigrate JNull (\<lambda>cs. sort_key cmd_priority cs) None (schema_answer [] []) (\<lambda>i. mig_conn) (\<lambda>_. 0)
    mig_conn ''d'' mig_model prev_empty
  = Some (Inr ([create_table_sql JNull ''t_user'' mig_model], mig_model\<lparr>m_metadata := [], m_indices := []\<rparr>, created_prev))"
  unfolding created_prev_def using schema_answer_describes[of "[]" "[]" "''d''"]
  by (intro AutoMigrate_new_table[OF mig_table _ _ _ _ _ sorts_insertion]) (simp_all add: mig_conn_def)

lemma created_ok: "model_ok JNull (saved_of ''User'' created_prev)"
  by (simp add: saved_of_def created_prev_def mig_defs model_ok_def names_ok_def sep_ok_def field_ok_def
      index_ok_def sv_body_def model_body_def columns_bytes_def indices_bytes_def column_body_def
      index_body_def str_field_def)

theorem second_migration_witness:
  "\<exists>content m'' pv''. Model_saveModel JNull ''4User'' created_prev = Inr content
    \<and> AutoMigrate JNull (\<lambda>cs. sort_key cmd_priority cs) (Some content) (schema_answer [] []) (\<lambda>i. mig_conn) (\<lambda>_. 0) mig_conn
        ''d'' mig_model prev_empty = Some (Inr ([], m'', pv''))"
proof -
  have cls: "getClassName (m_typeid mig_model) = Inr ''User''" by simp
  obtain content where c: "Model_saveModel JNull (m_typeid mig_model) created_prev = Inr content"
    using saveModel_bytes[OF created_ok] cls by (auto simp: Model_saveModel_def saved_of_def)
  have "\<exists>m'' pv''. AutoMigrate JNull (\<lambda>cs. sort_key cmd_priority cs) (Some content) (schema_answer [] []) (\<lambda>i. mig_conn) (\<lambda>_. 0)
        mig_conn ''d'' mig_model prev_empty = Some (Inr ([], m'', pv''))
      \<and> tablenamePrev pv'' = tablenamePrev created_prev \<and> fieldsPrev pv'' = m_metadata mig_model
      \<and> indicesPrev pv'' = m_indices mig_model"
  proof (rule second_migration_is_empty[OF created, of "[(m_typeid mig_model, created_prev)]"])
    show "rmap concat (rmapM (\<lambda>(ty, p). Model_saveModel JNull ty p) [(m_typeid mig_model, created_prev)]) = Inr content"
      using c by simp
    show "\<forall>(ty, p) \<in> set [(m_typeid mig_model, created_prev)]. \<exists>cls. getClassName ty = Inr cls \<and> model_ok JNull (saved_of cls p)"
      using cls created_ok by simp
    show "distinct (map getColumnName (m_metadata mig_model))"
      "\<forall>(k, i) \<in> set (m_indices mig_model). distinct (ix_columns i)"
      using mig_ok(2) by (simp_all add: target_ok_def)
  qed (simp_all add: sorts_insertion)
  then show ?thesis using c by (auto simp: mig_model_def)
qed



end
