(* ===== verification/Db_Demo.thy ===== *)
theory Db_Demo
  imports Db_Props Migration_Demo
begin

text \<open>A process run by hand: the witnesses of the life of the pool.\<close>

definition demo_env :: env where
  "demo_env = \<lparr>en_conf = JNull, en_pick = hd, en_sorter = sort_key cmd_priority, en_answers = (\<lambda>h. good_answers),
     en_meta = (\<lambda>h. True), en_autocommit = (\<lambda>b. False), en_info = schema_answer [] [], en_update = (\<lambda>sql. 0)\<rparr>"

definition demo_entity :: entity where
  "demo_entity = (''4User'', register_all (\<lambda>n. if n = ''id'' then 0 else 8)
      [Column ''id'' ''int'' (Some ''pk, type = int''), Table_Name ''t_user''])"

definition demo_process :: process where
  "demo_process = (process_start Map.empty)\<lparr>pr_pool := Live demo_pool\<rparr>"

definition demo_dbo :: db where
  "demo_dbo = \<lparr>d_host = ''h'', d_port = 3306, d_username = ''u'', d_password = ''p'', d_name = ''d'', d_autoCommit = True\<rparr>"

lemma demo_migration_run: "map_option (rmap fst) (DB_AutoMigrate demo_env demo_dbo [demo_entity] demo_process)
  = Some (Inr [''CREATE TABLE t_user(id int PRIMARY KEY)''])"
  by code_simp

lemma demo_process_fine: "process_fine demo_settings demo_process"
  by (simp add: process_fine_def pool_fine_def demo_process_def process_start_def pool_ok_def demo_pool_defs total_def)

lemma demo_opened: "DB_new ''h'' 3306 ''u'' ''p'' ''d'' (process_start Map.empty) = Inr (demo_dbo, demo_process)"
  using demo_configured
  by (simp add: DB_new_def getInstance_def with_pool_def process_start_def demo_dbo_def demo_process_def)

theorem migration_gives_back_witness:
  "\<exists>pr'. DB_AutoMigrate demo_env demo_dbo [demo_entity] demo_process
      = Some (Inr ([''CREATE TABLE t_user(id int PRIMARY KEY)''], pr'))
    \<and> process_fine demo_settings pr' \<and> lent pr' = {}"
proof -
  obtain sqls pr' where run: "DB_AutoMigrate demo_env demo_dbo [demo_entity] demo_process = Some (Inr (sqls, pr'))"
    "sqls = [''CREATE TABLE t_user(id int PRIMARY KEY)'']"
    using demo_migration_run by (auto simp: rmap_eq_Inr_iff)
  have "picks (en_pick demo_env)" by (simp add: demo_env_def picks_hd)
  from migration_gives_back[OF demo_process_fine this run(1)] run show ?thesis
    by (simp add: lent_def demo_process_def demo_pool_def ConnectionPool_new_def)
qed

theorem nothing_after_delete_witness:
  "DB_new ''h'' 3306 ''u'' ''p'' ''d'' (demo_process\<lparr>pr_pool := Deleted\<rparr>) = Inl UB
   \<and> close_conn demo_conn (demo_process\<lparr>pr_pool := Deleted\<rparr>) = Inl UB"
proof -
  have "DB_delete demo_process = Inr (demo_process\<lparr>pr_pool := Deleted\<rparr>)"
    by (simp add: DB_delete_def with_pool_def demo_process_def)
  from nothing_after_delete[OF this] show ?thesis by (simp add: demo_conn_def)
qed

definition idle_pool :: conn_pool where
  "idle_pool = demo_pool\<lparr>idle := [1], connections := [1 \<mapsto> demo_conn]\<rparr>"

theorem second_database_witness:
  "\<exists>d pr1 c pr2 h. DB_new ''h'' 3306 ''u'' ''p'' ''other'' (demo_process\<lparr>pr_pool := Live idle_pool, pr_gid := 2\<rparr>) = Inr (d, pr1)
    \<and> d_name d = ''other'' \<and> DB_getConn demo_env pr1 = Inr (c, pr2) \<and> c_handle c = Some h \<and> h_schema h = ''d''"
proof (rule second_database_old_connection)
  show "pr_pool (demo_process\<lparr>pr_pool := Live idle_pool, pr_gid := 2\<rparr>) = Live idle_pool" by simp
  show "pool_fine demo_settings idle_pool (pr_gid (demo_process\<lparr>pr_pool := Live idle_pool, pr_gid := 2\<rparr>))"
    by (auto simp: pool_fine_def idle_pool_def pool_ok_def demo_pool_defs total_def demo_conn_def ran_def split: if_splits)
  show "picks (en_pick demo_env)" by (simp add: demo_env_def picks_hd)
  show "\<forall>c \<in> ran (connections idle_pool). \<exists>h. c_handle c = Some h \<and> h_schema h = ''d''"
    by (auto simp: idle_pool_def ran_def demo_conn_def handle_of_def demo_settings_def split: if_splits)
qed (simp add: idle_pool_def)

theorem exhausted_pool_witness:
  "DB_model demo_env demo_dbo demo_entity (demo_process\<lparr>pr_pool := Live (demo_pool\<lparr>used := [1..10]\<rparr>), pr_gid := 11\<rparr>) = Inl UB"
proof -
  let ?p = "demo_pool\<lparr>used := [1..10]\<rparr>" and ?pr = "demo_process\<lparr>pr_pool := Live (demo_pool\<lparr>used := [1..10]\<rparr>), pr_gid := 11\<rparr>"
  have "pr_pool ?pr = Live ?p" "- 2147483648 \<le> pr_gid ?pr" "pr_gid ?pr < 2147483647" by simp_all
  moreover have "p_settings ?p = Some demo_settings" "idle ?p = []" "int (length (used ?p)) = poolSize demo_settings"
    by (simp_all add: demo_pool_defs)
  ultimately show ?thesis using model_of_exhausted_pool[of ?pr ?p demo_settings] by blast
qed

end
