(* ===== verification/Cmdline.thy ===== *)
theory Cmdline
  imports Reflection Decimal Results
begin

text \<open>
  \<^verbatim>\<open>generator/cmdline/cmdline.h\<close>: the option parser of the generator. Options of the types
  \<^verbatim>\<open>std::string\<close> and \<^verbatim>\<open>int\<close> with the default, the range and the one-of reader; registration,
  the two ways in which a command line is cut into arguments, parsing, the checks that may
  end the process, and the texts for the user.
\<close>

section \<open>Values and readers\<close>

datatype opt_type = T_String | T_Int

datatype opt_value = VString string | VInt int

fun type_of :: "opt_value \<Rightarrow> opt_type" where
  "type_of (VString s) = T_String"
| "type_of (VInt i) = T_Int"

fun readable_typename :: "opt_type \<Rightarrow> string" where
  "readable_typename T_String = ''string''"
| "readable_typename T_Int = ''int''"

fun default_value :: "opt_value \<Rightarrow> string" where
  "default_value (VString s) = s"
| "default_value (VInt i) = int_str i"

text \<open>
  \<^verbatim>\<open>ss >> ret && ss.eof()\<close> for an \<^verbatim>\<open>int\<close>: blanks, a sign and digits up to the end of the text, in
  range. \<open>None\<close> is \<^verbatim>\<open>std::bad_cast\<close>.
\<close>

definition read_int :: "string \<Rightarrow> int option" where
  "read_int s =
     (let s = dropWhile isspace s;
          neg = (s \<noteq> [] \<and> hd s = CHR ''-'');
          ds = (if s \<noteq> [] \<and> hd s \<in> {CHR ''-'', CHR ''+''} then tl s else s)
      in if ds = [] \<or> \<not> (\<forall>c \<in> set ds. isdigit c) then None
         else case i32 (if neg then - int (digits_val ds) else int (digits_val ds)) of
                Inr v \<Rightarrow> Some v | Inl e \<Rightarrow> None)"

fun lexical_cast :: "opt_type \<Rightarrow> string \<Rightarrow> opt_value option" where
  "lexical_cast T_String s = Some (VString s)"
| "lexical_cast T_Int s = map_option VInt (read_int s)"

datatype reader = Default_Reader | Range_Reader opt_value opt_value | Oneof_Reader "opt_value list"

text \<open>Both operands are of one type: \<^verbatim>\<open>std::string\<close> compares lexicographically.\<close>

fun value_le :: "opt_value \<Rightarrow> opt_value \<Rightarrow> bool" where
  "value_le (VString a) (VString b) = (a \<le> b)"
| "value_le (VInt a) (VInt b) = (a \<le> b)"
| "value_le _ _ = False"

fun read_value :: "opt_type \<Rightarrow> reader \<Rightarrow> string \<Rightarrow> opt_value option" where
  "read_value t Default_Reader s = lexical_cast t s"
| "read_value t (Range_Reader low high) s =
     (case lexical_cast t s of
        None \<Rightarrow> None
      | Some v \<Rightarrow> if \<not> (value_le low v \<and> value_le v high) then None else Some v)"
| "read_value t (Oneof_Reader alt) s =
     (case lexical_cast t s of
        None \<Rightarrow> None
      | Some v \<Rightarrow> if v \<notin> set alt then None else Some v)"

text \<open>
  \<^verbatim>\<open>oneof(a1, ..., an)\<close>, ten overloads for up to ten alternatives of one type: each adds its
  arguments to an empty reader, in their order.
\<close>

fun oneof_add :: "opt_value \<Rightarrow> reader \<Rightarrow> reader" where
  "oneof_add v (Oneof_Reader alt) = Oneof_Reader (alt @ [v])"
| "oneof_add v r = r"

definition oneof :: "opt_value list \<Rightarrow> reader" where
  "oneof alternatives = fold oneof_add alternatives (Oneof_Reader [])"

section \<open>Options\<close>

text \<open>A short name of \<^verbatim>\<open>0\<close> is none.\<close>

datatype option_base =
    Without_Value (opt_name: string) (opt_short: char) (opt_desc: string) (opt_has: bool)
  | With_Value (opt_name: string) (opt_short: char) (opt_desc: string) (opt_has: bool)
      (opt_need: bool) (opt_type: opt_type) (opt_def: opt_value) (opt_actual: opt_value) (opt_reader: reader)

definition full_description :: "string \<Rightarrow> opt_type \<Rightarrow> bool \<Rightarrow> opt_value \<Rightarrow> string" where
  "full_description desc t need dflt = desc @ '' ('' @ readable_typename t
     @ (if need then [] else '' [='' @ default_value dflt @ '']'') @ '')''"

definition option_without_value :: "string \<Rightarrow> char \<Rightarrow> string \<Rightarrow> option_base" where
  "option_without_value name short desc = Without_Value name short desc False"

definition option_with_value :: "string \<Rightarrow> char \<Rightarrow> bool \<Rightarrow> opt_type \<Rightarrow> opt_value \<Rightarrow> string \<Rightarrow> reader \<Rightarrow> option_base" where
  "option_with_value name short need t dflt desc reader =
     With_Value name short (full_description desc t need dflt) False need t dflt dflt reader"

fun has_value :: "option_base \<Rightarrow> bool" where
  "has_value (Without_Value _ _ _ _) = False"
| "has_value (With_Value _ _ _ _ _ _ _ _ _) = True"

text \<open>The two \<^verbatim>\<open>set\<close>: the new option and whether it was accepted.\<close>

fun set_flag :: "option_base \<Rightarrow> option_base \<times> bool" where
  "set_flag (Without_Value n s d h) = (Without_Value n s d True, True)"
| "set_flag (With_Value n s d h need t dflt actual r) = (With_Value n s d h need t dflt actual r, False)"

fun set_value :: "string \<Rightarrow> option_base \<Rightarrow> option_base \<times> bool" where
  "set_value v (Without_Value n s d h) = (Without_Value n s d h, False)"
| "set_value v (With_Value n s d h need t dflt actual r) =
     (case read_value t r v of
        None \<Rightarrow> (With_Value n s d h need t dflt actual r, False)
      | Some x \<Rightarrow> (With_Value n s d True need t dflt x r, True))"

fun valid :: "option_base \<Rightarrow> bool" where
  "valid (Without_Value _ _ _ _) = True"
| "valid (With_Value n s d h need t dflt actual r) = (if need \<and> \<not> h then False else True)"

fun must :: "option_base \<Rightarrow> bool" where
  "must (Without_Value _ _ _ _) = False"
| "must (With_Value n s d h need t dflt actual r) = need"

fun short_description :: "option_base \<Rightarrow> string" where
  "short_description (Without_Value n s d h) = ''--'' @ n"
| "short_description (With_Value n s d h need t dflt actual r) = ''--'' @ n @ ''='' @ readable_typename t"

section \<open>The parser object\<close>

text \<open>
  \<open>options\<close> is the \<^verbatim>\<open>std::map\<close>; \<open>ordered\<close> has the names in the order of their registration,
  for the pointers of the code.
\<close>

record parser =
  options :: "option_base umap"
  ordered :: "string list"
  ftr :: string
  prog_name :: string
  others :: "string list"
  errors :: "string list"

definition parser_new :: parser where
  "parser_new = \<lparr>options = [], ordered = [], ftr = [], prog_name = [], others = [], errors = []\<rparr>"

text \<open>A call that may throw \<^verbatim>\<open>cmdline_error\<close>, with its message.\<close>

type_synonym 'a thrown = "string + 'a"

definition add_option :: "string \<Rightarrow> option_base \<Rightarrow> parser \<Rightarrow> parser thrown" where
  "add_option name opt p =
     (if uget (options p) name \<noteq> None then Inl (''multiple definition: '' @ name)
      else Inr (p\<lparr>options := uput name opt (options p), ordered := ordered p @ [name]\<rparr>))"

definition add_flag :: "string \<Rightarrow> char \<Rightarrow> string \<Rightarrow> parser \<Rightarrow> parser thrown" where
  "add_flag name short desc = add_option name (option_without_value name short desc)"

definition add_value :: "string \<Rightarrow> char \<Rightarrow> string \<Rightarrow> bool \<Rightarrow> opt_type \<Rightarrow> opt_value \<Rightarrow> reader \<Rightarrow> parser \<Rightarrow> parser thrown" where
  "add_value name short desc need t dflt reader =
     add_option name (option_with_value name short need t dflt desc reader)"

definition set_footer :: "string \<Rightarrow> parser \<Rightarrow> parser" where
  "set_footer f p = p\<lparr>ftr := f\<rparr>"

definition set_program_name :: "string \<Rightarrow> parser \<Rightarrow> parser" where
  "set_program_name name p = p\<lparr>prog_name := name\<rparr>"

definition opt_exist :: "string \<Rightarrow> parser \<Rightarrow> bool thrown" where
  "opt_exist name p = (case uget (options p) name of
     None \<Rightarrow> Inl (''there is no flag: --'' @ name)
   | Some opt \<Rightarrow> Inr (opt_has opt))"

text \<open>\<^verbatim>\<open>get<T>\<close>: the \<^verbatim>\<open>dynamic_cast\<close> fails unless the option has a value of type \<^verbatim>\<open>T\<close>.\<close>

definition get :: "opt_type \<Rightarrow> string \<Rightarrow> parser \<Rightarrow> opt_value thrown" where
  "get t name p = (case uget (options p) name of
     None \<Rightarrow> Inl (''there is no flag: --'' @ name)
   | Some (Without_Value _ _ _ _) \<Rightarrow> Inl (''type mismatch flag '' @ [char_of (39::nat)] @ name @ [char_of (39::nat)])
   | Some (With_Value n s d h need t' dflt actual r) \<Rightarrow>
       if t' \<noteq> t then Inl (''type mismatch flag '' @ [char_of (39::nat)] @ name @ [char_of (39::nat)])
       else Inr actual)"

definition add_error :: "string \<Rightarrow> parser \<Rightarrow> parser" where
  "add_error e p = p\<lparr>errors := errors p @ [e]\<rparr>"

definition set_option_flag :: "string \<Rightarrow> parser \<Rightarrow> parser" where
  "set_option_flag name p = (case uget (options p) name of
     None \<Rightarrow> add_error (''undefined option: --'' @ name) p
   | Some opt \<Rightarrow>
       let (opt', ok) = set_flag opt; p' = p\<lparr>options := uput name opt' (options p)\<rparr>
       in if \<not> ok then add_error (''option needs value: --'' @ name) p' else p')"

definition set_option_value :: "string \<Rightarrow> string \<Rightarrow> parser \<Rightarrow> parser" where
  "set_option_value name v p = (case uget (options p) name of
     None \<Rightarrow> add_error (''undefined option: --'' @ name) p
   | Some opt \<Rightarrow>
       let (opt', ok) = set_value v opt; p' = p\<lparr>options := uput name opt' (options p)\<rparr>
       in if \<not> ok then add_error (''option value is invalid: --'' @ name @ ''='' @ v) p' else p')"

section \<open>Parsing arguments\<close>

text \<open>
  The short names, in the order of the keys; the second option with one short name stops
  the parser.
\<close>

fun short_lookup :: "(string \<times> option_base) list \<Rightarrow> (char \<rightharpoonup> string) \<Rightarrow> string + (char \<rightharpoonup> string)" where
  "short_lookup [] lookup = Inr lookup"
| "short_lookup ((key, opt) # rest) lookup =
     (if length key = 0 then short_lookup rest lookup
      else let initial = opt_short opt in
        if initial = CHR 0x00 then short_lookup rest lookup
        else if lookup initial \<noteq> None
          then Inl (''short option '' @ [char_of (39::nat)] @ [initial] @ [char_of (39::nat)] @ '' is ambiguous'')
          else short_lookup rest (lookup(initial \<mapsto> key)))"

text \<open>One of the letters of an argument of short names but the last.\<close>

definition short_step :: "(char \<rightharpoonup> string) \<Rightarrow> char \<Rightarrow> parser \<Rightarrow> parser" where
  "short_step lookup c p = (case lookup c of
     None \<Rightarrow> add_error (''undefined short option: -'' @ [c]) p
   | Some name \<Rightarrow>
       if name = [] then add_error (''ambiguous short option: -'' @ [c]) p
       else set_option_flag name p)"

definition opt_has_value :: "string \<Rightarrow> parser \<Rightarrow> bool" where
  "opt_has_value name p = (case uget (options p) name of Some opt \<Rightarrow> has_value opt | None \<Rightarrow> False)"

fun parse_loop :: "(char \<rightharpoonup> string) \<Rightarrow> string list \<Rightarrow> parser \<Rightarrow> parser" where
  "parse_loop lookup [] p = p"
| "parse_loop lookup (a # args) p =
     (if take 2 a = ''--'' then
        (case find_first_of a ''='' 2 of
           Some i \<Rightarrow> parse_loop lookup args (set_option_value (take (i - 2) (drop 2 a)) (drop (i + 1) a) p)
         | None \<Rightarrow>
             let name = drop 2 a in
             if uget (options p) name = None
             then parse_loop lookup args (add_error (''undefined option: --'' @ name) p)
             else if opt_has_value name p then
               (case args of
                  [] \<Rightarrow> parse_loop lookup args (add_error (''option needs value: --'' @ name) p)
                | v # args' \<Rightarrow> parse_loop lookup args' (set_option_value name v p))
             else parse_loop lookup args (set_option_flag name p))
      else if take 1 a = ''-'' then
        (if length a = 1 then parse_loop lookup args p
         else let p = fold (short_step lookup) (butlast (tl a)) p; c = last a in
           case lookup c of
             None \<Rightarrow> parse_loop lookup args (add_error (''undefined short option: -'' @ [c]) p)
           | Some name \<Rightarrow>
               if name = [] then parse_loop lookup args (add_error (''ambiguous short option: -'' @ [c]) p)
               else if opt_has_value name p then
                 (case args of
                    [] \<Rightarrow> parse_loop lookup args (set_option_flag name p)
                  | v # args' \<Rightarrow> parse_loop lookup args' (set_option_value name v p))
               else parse_loop lookup args (set_option_flag name p))
      else parse_loop lookup args (p\<lparr>others := others p @ [a]\<rparr>))"

definition check_needs :: "parser \<Rightarrow> parser" where
  "check_needs p = p\<lparr>errors := errors p
     @ map (\<lambda>(key, opt). ''need option: --'' @ key) (filter (\<lambda>(key, opt). \<not> valid opt) (map_iter (options p)))\<rparr>"

text \<open>\<^verbatim>\<open>parse(int, const char* const[])\<close>; the arguments are C strings.\<close>

definition parse :: "string list \<Rightarrow> parser \<Rightarrow> bool \<times> parser" where
  "parse argv p =
     (let p = p\<lparr>errors := [], others := []\<rparr> in
      case argv of
        [] \<Rightarrow> (False, add_error ''argument number must be longer than 0'' p)
      | prog # args \<Rightarrow>
          let p = (if prog_name p = [] then p\<lparr>prog_name := prog\<rparr> else p) in
          case short_lookup (map_iter (options p)) Map.empty of
            Inl e \<Rightarrow> (False, add_error e p)
          | Inr lookup \<Rightarrow> let p = check_needs (parse_loop lookup args p) in (errors p = [], p))"

text \<open>The address of the first element of an empty \<^verbatim>\<open>vector\<close> is taken.\<close>

definition parse_vector :: "string list \<Rightarrow> parser \<Rightarrow> (bool \<times> parser) res" where
  "parse_vector args p = (if args = [] then Inl UB else Inr (parse (map c_string args) p))"

section \<open>Cutting a line into arguments\<close>

text \<open>\<open>Inl\<close> are the messages of the two ways to fail.\<close>

fun cut_line :: "string \<Rightarrow> string \<Rightarrow> bool \<Rightarrow> string list \<Rightarrow> string list thrown" where
  "cut_line [] buf in_quote args =
     (if in_quote then Inl ''quote is not closed''
      else Inr (if length buf > 0 then args @ [buf] else args))"
| "cut_line (c # cs) buf in_quote args =
     (if c = CHR 0x22 then cut_line cs buf (\<not> in_quote) args
      else if c = CHR '' '' \<and> \<not> in_quote then cut_line cs [] in_quote (args @ [buf])
      else if c = CHR 0x5C then
        (case cs of
           [] \<Rightarrow> Inl (''unexpected occurrence of '' @ [char_of (39::nat), CHR 0x5C, char_of (39::nat)] @ '' at end of string'')
         | d # cs' \<Rightarrow> cut_line cs' (buf @ [d]) in_quote args)
      else cut_line cs (buf @ [c]) in_quote args)"

definition parse_line :: "string \<Rightarrow> parser \<Rightarrow> (bool \<times> parser) res" where
  "parse_line arg p = (case cut_line arg [] False [] of
     Inl e \<Rightarrow> Inr (False, add_error e p)
   | Inr args \<Rightarrow> parse_vector args p)"

section \<open>Texts and checks\<close>

definition opt_error :: "parser \<Rightarrow> string" where
  "opt_error p = (if length (errors p) > 0 then errors p ! 0 else [])"

definition newline :: string where
  "newline = [char_of (10::nat)]"

definition error_full :: "parser \<Rightarrow> string" where
  "error_full p = concat (map (\<lambda>e. e @ newline) (errors p))"

definition ordered_options :: "parser \<Rightarrow> option_base list" where
  "ordered_options p = List.map_filter (uget (options p)) (ordered p)"

definition usage :: "parser \<Rightarrow> string" where
  "usage p =
     (let opts = ordered_options p;
          max_width = fold (\<lambda>x m. max m (length (opt_name x))) opts 0
      in ''usage: '' @ prog_name p @ '' ''
         @ concat (map (\<lambda>x. if must x then short_description x @ '' '' else []) opts)
         @ ''[options] ... '' @ ftr p @ newline @ ''options:'' @ newline
         @ concat (map (\<lambda>x.
             (if opt_short x \<noteq> CHR 0x00 then ''  -'' @ [opt_short x] @ '', '' else ''      '')
             @ ''--'' @ opt_name x @ replicate (max_width + 4 - length (opt_name x)) CHR '' ''
             @ opt_desc x @ newline) opts))"

text \<open>\<^verbatim>\<open>exit\<close> with its code, and what went to the standard error stream.\<close>

datatype outcome = Goes_On parser | Exits int string

definition check :: "nat \<Rightarrow> bool \<times> parser \<Rightarrow> outcome thrown" where
  "check argc r = (let (ok, p) = r in
     if argc = 1 \<and> \<not> ok then Inr (Exits 0 (usage p))
     else case opt_exist ''help'' p of
       Inl e \<Rightarrow> Inl e
     | Inr True \<Rightarrow> Inr (Exits 0 (usage p))
     | Inr False \<Rightarrow> Inr (if \<not> ok then Exits 1 (opt_error p @ newline @ usage p) else Goes_On p))"

definition with_help :: "parser \<Rightarrow> parser thrown" where
  "with_help p = (if uget (options p) ''help'' = None then add_flag ''help'' CHR ''?'' ''print this message'' p else Inr p)"

definition parse_check :: "string list \<Rightarrow> parser \<Rightarrow> outcome thrown" where
  "parse_check argv p = (case with_help p of Inl e \<Rightarrow> Inl e | Inr p \<Rightarrow> check (length argv) (parse argv p))"

definition parse_check_vector :: "string list \<Rightarrow> parser \<Rightarrow> outcome thrown res" where
  "parse_check_vector args p = (case with_help p of
     Inl e \<Rightarrow> Inr (Inl e) | Inr p \<Rightarrow> rmap (check (length args)) (parse_vector args p))"

definition parse_check_line :: "string \<Rightarrow> parser \<Rightarrow> outcome thrown res" where
  "parse_check_line arg p = (case with_help p of
     Inl e \<Rightarrow> Inr (Inl e) | Inr p \<Rightarrow> rmap (check 0) (parse_line arg p))"

end
