(* ===== verification/Cmdline_Laws.thy ===== *)
theory Cmdline_Laws
  imports Cmdline
begin

text \<open>
  The parser of the command line: options keep their types, the spellings of an option with a
  value agree, and a line of quoted arguments is cut back into them.
\<close>

section \<open>Readers of alternatives\<close>

lemma fold_oneof_add: "fold oneof_add vs (Oneof_Reader alt) = Oneof_Reader (alt @ vs)"
  by (induction vs arbitrary: alt) simp_all

lemma read_oneof:
  "read_value t (oneof vs) s = Some v \<longleftrightarrow> lexical_cast t s = Some v \<and> v \<in> set vs"
  by (auto simp: oneof_def fold_oneof_add split: option.splits)

section \<open>Options keep their types\<close>

fun opt_typed :: "option_base \<Rightarrow> bool" where
  "opt_typed (Without_Value _ _ _ _) = True"
| "opt_typed (With_Value n s d h need t dflt actual r) = (type_of actual = t \<and> type_of dflt = t)"

text \<open>What a registration fixes for good: everything but whether and to what it was set.\<close>

fun declared :: "option_base \<Rightarrow> option_base" where
  "declared (Without_Value n s d h) = Without_Value n s d False"
| "declared (With_Value n s d h need t dflt actual r) = With_Value n s d False need t dflt dflt r"

definition typed :: "parser \<Rightarrow> bool" where
  "typed p \<longleftrightarrow> (\<forall>k opt. uget (options p) k = Some opt \<longrightarrow> opt_typed opt)"

definition same_options :: "parser \<Rightarrow> parser \<Rightarrow> bool" where
  "same_options p q \<longleftrightarrow> (\<forall>k. map_option declared (uget (options q) k) = map_option declared (uget (options p) k))"

lemma same_options_refl [simp]: "same_options p p"
  by (simp add: same_options_def)

lemma same_options_trans: "same_options p q \<Longrightarrow> same_options q r \<Longrightarrow> same_options p r"
  by (simp add: same_options_def)

lemma lexical_cast_type: "lexical_cast t s = Some v \<Longrightarrow> type_of v = t"
  by (cases t) auto

lemma read_value_type: "read_value t r s = Some v \<Longrightarrow> type_of v = t"
  by (cases r) (auto split: option.splits if_splits dest: lexical_cast_type)

lemma set_flag_typed: "set_flag opt = (opt', ok) \<Longrightarrow> opt_typed opt \<Longrightarrow> opt_typed opt' \<and> declared opt' = declared opt"
  by (cases opt) auto

lemma set_value_typed: "set_value v opt = (opt', ok) \<Longrightarrow> opt_typed opt \<Longrightarrow> opt_typed opt' \<and> declared opt' = declared opt"
  by (cases opt) (auto split: option.splits dest: read_value_type)

lemma options_irrelevant [simp]:
  "options (add_error e p) = options p" "options (p\<lparr>others := xs\<rparr>) = options p"
  "options (p\<lparr>errors := xs\<rparr>) = options p" "options (p\<lparr>prog_name := x\<rparr>) = options p"
  by (simp_all add: add_error_def)

definition keeps :: "parser \<Rightarrow> parser \<Rightarrow> bool" where
  "keeps p q \<longleftrightarrow> (typed p \<longrightarrow> typed q \<and> same_options p q)"

lemma keeps_eq: "options q = options p \<Longrightarrow> keeps p q"
  by (simp add: keeps_def typed_def same_options_def)

lemma keeps_trans: "keeps p q \<Longrightarrow> keeps q r \<Longrightarrow> keeps p r"
  by (auto simp: keeps_def intro: same_options_trans)

lemma keeps_put:
  assumes "uget (options p) k = Some opt" "opt_typed opt \<Longrightarrow> opt_typed opt' \<and> declared opt' = declared opt"
    "options q = uput k opt' (options p)"
  shows "keeps p q"
  using assms by (auto simp: keeps_def typed_def same_options_def)

lemma keeps_set_flag: "keeps p (set_option_flag name p)"
proof (cases "uget (options p) name")
  case (Some opt)
  obtain opt' ok where s: "set_flag opt = (opt', ok)" by (cases "set_flag opt")
  then have "options (set_option_flag name p) = uput name opt' (options p)"
    by (simp add: set_option_flag_def Some Let_def)
  then show ?thesis using keeps_put[OF Some] set_flag_typed[OF s] by blast
qed (simp add: set_option_flag_def keeps_eq)

lemma keeps_set_value: "keeps p (set_option_value name v p)"
proof (cases "uget (options p) name")
  case (Some opt)
  obtain opt' ok where s: "set_value v opt = (opt', ok)" by (cases "set_value v opt")
  then have "options (set_option_value name v p) = uput name opt' (options p)"
    by (simp add: set_option_value_def Some Let_def)
  then show ?thesis using keeps_put[OF Some] set_value_typed[OF s] by blast
qed (simp add: set_option_value_def keeps_eq)

lemma keeps_short: "keeps p (fold (short_step lookup) cs p)"
proof (induction cs arbitrary: p)
  case (Cons c cs)
  have "keeps p (short_step lookup c p)"
    by (simp add: short_step_def keeps_set_flag keeps_eq split: option.split)
  then show ?case using Cons keeps_trans by simp
qed (simp add: keeps_eq)

declare parse_loop.simps(2) [simp del]

lemma loop_step:
  obtains q rest where "keeps p q" "rest = args \<or> rest = tl args"
    "parse_loop lookup (a # args) p = parse_loop lookup rest q"
proof -
  note eqn = parse_loop.simps(2)[of lookup a args p]
  consider (eq) i where "take 2 a = ''--''" "find_first_of a ''='' 2 = Some i"
    | (long) "take 2 a = ''--''" "find_first_of a ''='' 2 = None"
    | (dash) "take 2 a \<noteq> ''--''" "take 1 a = ''-''" "length a = 1"
    | (short) "take 2 a \<noteq> ''--''" "take 1 a = ''-''" "length a \<noteq> 1"
    | (other) "take 2 a \<noteq> ''--''" "take 1 a \<noteq> ''-''" by fastforce
  then show ?thesis
  proof cases
    case eq
    then show ?thesis by (intro that[OF keeps_set_value, of args]) (simp_all add: eqn)
  next
    case long
    let ?name = "drop 2 a"
    consider "uget (options p) ?name = None" | "uget (options p) ?name \<noteq> None" "\<not> opt_has_value ?name p"
      | "uget (options p) ?name \<noteq> None" "opt_has_value ?name p" "args = []"
      | v args' where "uget (options p) ?name \<noteq> None" "opt_has_value ?name p" "args = v # args'"
      by (cases args) auto
    then show ?thesis
    proof cases
      case 1
      then show ?thesis using long by (intro that[of "add_error (''undefined option: --'' @ ?name) p" args]) (simp_all add: eqn Let_def keeps_eq)
    next
      case 2
      then show ?thesis using long by (intro that[OF keeps_set_flag[of p ?name], of args]) (auto simp: eqn Let_def)
    next
      case 3
      then show ?thesis using long by (intro that[of "add_error (''option needs value: --'' @ ?name) p" args]) (auto simp: parse_loop.simps(2) Let_def keeps_eq)
    next
      case 4
      then show ?thesis using long by (intro that[OF keeps_set_value[of p ?name v], of args']) (auto simp: parse_loop.simps(2) Let_def)
    qed
  next
    case dash
    then show ?thesis by (intro that[of p args]) (auto simp: parse_loop.simps(2) keeps_eq)
  next
    case short
    define q where "q = fold (short_step lookup) (butlast (tl a)) p"
    have q: "keeps p q" unfolding q_def by (rule keeps_short)
    have eq: "parse_loop lookup (a # args) p = (case lookup (last a) of
        None \<Rightarrow> parse_loop lookup args (add_error (''undefined short option: -'' @ [last a]) q)
      | Some name \<Rightarrow>
          if name = [] then parse_loop lookup args (add_error (''ambiguous short option: -'' @ [last a]) q)
          else if opt_has_value name q then
            (case args of [] \<Rightarrow> parse_loop lookup args (set_option_flag name q)
             | v # args' \<Rightarrow> parse_loop lookup args' (set_option_value name v q))
          else parse_loop lookup args (set_option_flag name q))"
      by (simp only: eqn q_def Let_def if_not_P[OF short(1)] if_P[OF short(2)] if_not_P[OF short(3)])
    consider "lookup (last a) = None" | "lookup (last a) = Some []"
      | name where "lookup (last a) = Some name" "name \<noteq> []" "\<not> opt_has_value name q \<or> args = []"
      | name v args' where "lookup (last a) = Some name" "name \<noteq> []" "opt_has_value name q" "args = v # args'"
      by (cases "lookup (last a)"; cases args) auto
    then show ?thesis
    proof cases
      case 1
      then show ?thesis using eq
        by (intro that[OF keeps_trans[OF q keeps_eq], of "add_error (''undefined short option: -'' @ [last a]) q" args]) simp_all
    next
      case 2
      then show ?thesis using eq
        by (intro that[OF keeps_trans[OF q keeps_eq], of "add_error (''ambiguous short option: -'' @ [last a]) q" args]) simp_all
    next
      case (3 name)
      have "parse_loop lookup (a # args) p = parse_loop lookup args (set_option_flag name q)"
        using 3(3) unfolding eq 3(1) by (elim disjE) (simp_all add: 3(2))
      then show ?thesis by (intro that[OF keeps_trans[OF q keeps_set_flag], of args]) simp_all
    next
      case (4 name v args')
      have "parse_loop lookup (a # args) p = parse_loop lookup args' (set_option_value name v q)"
        unfolding eq 4(1) by (simp add: 4)
      then show ?thesis using 4(4) by (intro that[OF keeps_trans[OF q keeps_set_value], of args']) simp_all
    qed
  next
    case other
    then show ?thesis by (intro that[of "p\<lparr>others := others p @ [a]\<rparr>" args]) (simp_all add: eqn Let_def keeps_eq)
  qed
qed

lemma keeps_loop: "keeps p (parse_loop lookup args p)"
proof (induction "length args" arbitrary: args p rule: less_induct)
  case less
  show ?case
  proof (cases args)
    case (Cons a as)
    obtain q rest where q: "keeps p q" "rest = as \<or> rest = tl as"
      "parse_loop lookup (a # as) p = parse_loop lookup rest q" by (rule loop_step)
    then have "keeps q (parse_loop lookup rest q)" using less(1)[of rest q] Cons by (cases as) auto
    with q show ?thesis using Cons keeps_trans by metis
  qed (simp add: keeps_eq)
qed

lemma keeps_parse: "keeps p (snd (parse argv p))"
proof (cases argv)
  case (Cons prog args)
  define q where "q = (if prog_name (p\<lparr>errors := [], others := []\<rparr>) = [] then p\<lparr>errors := [], others := []\<rparr>\<lparr>prog_name := prog\<rparr>
    else p\<lparr>errors := [], others := []\<rparr>)"
  have q: "keeps p q" by (rule keeps_eq) (simp add: q_def)
  show ?thesis
  proof (cases "short_lookup (map_iter (options q)) Map.empty")
    case (Inl e)
    then have "snd (parse argv p) = add_error e q" by (simp add: parse_def Cons q_def Let_def)
    then show ?thesis using q by (simp add: keeps_trans[OF q keeps_eq])
  next
    case (Inr lookup)
    then have "snd (parse argv p) = check_needs (parse_loop lookup args q)"
      by (simp add: parse_def Cons q_def Let_def)
    then show ?thesis
      using keeps_trans[OF keeps_trans[OF q keeps_loop] keeps_eq] by (simp add: check_needs_def)
  qed
qed (simp add: parse_def keeps_eq)

section \<open>Spellings of an option with a value\<close>

lemma take_long: "take 2 (''--'' @ n) = ''--''" "drop 2 (''--'' @ n) = n"
  by (simp_all add: numeral_2_eq_2)

lemma find_eq_long:
  assumes "CHR ''='' \<notin> set n"
  shows "find_first_of (''--'' @ n @ CHR ''='' # v) ''='' 2 = Some (2 + length n)"
    and "find_first_of (''--'' @ n) ''='' 2 = None"
proof -
  let ?s = "''--'' @ n @ CHR ''='' # v"
  have "find_first_of ?s ''='' 2 \<noteq> None"
  proof
    assume "find_first_of ?s ''='' 2 = None"
    from find_first_of_None[OF this] show False by (simp add: numeral_2_eq_2)
  qed
  then obtain r where r: "find_first_of ?s ''='' 2 = Some r" by blast
  note f = find_first_of_Some[OF r]
  have "\<not> r < 2 + length n"
  proof
    assume "r < 2 + length n"
    then have "?s ! r = n ! (r - 2)" "r - 2 < length n" using f(1) by (auto simp: nth_append nth_Cons split: nat.splits)
    then show False using f(3) assms by (metis list.set_intros(1) nth_mem set_ConsD empty_iff list.set(1))
  qed
  moreover have "\<not> 2 + length n < r"
  proof
    assume "2 + length n < r"
    then have "CHR ''='' \<in> set (take (r - 2) (drop 2 ?s))" by (simp add: numeral_2_eq_2 take_Cons')
    then show False using f(4) by auto
  qed
  ultimately show "find_first_of ?s ''='' 2 = Some (2 + length n)" using r by simp
  show "find_first_of (''--'' @ n) ''='' 2 = None"
  proof (rule ccontr)
    assume "find_first_of (''--'' @ n) ''='' 2 \<noteq> None"
    then obtain r where r: "find_first_of (''--'' @ n) ''='' 2 = Some r" by blast
    note f = find_first_of_Some[OF r]
    have "(''--'' @ n) ! r = n ! (r - 2)" "r - 2 < length n"
      using f(1,2) by (auto simp: nth_Cons split: nat.splits)
    then show False using f(3) assms by (metis list.set_intros(1) nth_mem set_ConsD empty_iff list.set(1))
  qed
qed

section \<open>Quoted arguments\<close>

definition quote_arg :: "string \<Rightarrow> string" where
  "quote_arg a = CHR 0x22 # concat (map (\<lambda>c. if c = CHR 0x22 \<or> c = CHR 0x5C then [CHR 0x5C, c] else [c]) a) @ [CHR 0x22]"

lemma cut_escaped:
  "cut_line (concat (map (\<lambda>c. if c = CHR 0x22 \<or> c = CHR 0x5C then [CHR 0x5C, c] else [c]) a) @ rest) buf True args
    = cut_line rest (buf @ a) True args"
  by (induction a arbitrary: buf) auto

lemma cut_quoted: "cut_line (quote_arg a @ rest) buf False args = cut_line rest (buf @ a) False args"
  by (simp add: quote_arg_def cut_escaped)

lemma cut_quoted_list:
  "cut_line (join '' '' (map quote_arg xs)) [] False args = Inr (args @ (if xs \<noteq> [] \<and> last xs = [] then butlast xs else xs))"
proof (induction xs arbitrary: args)
  case (Cons x xs)
  show ?case
  proof (cases xs)
    case Nil
    then show ?thesis using cut_quoted[of x "[]"] by simp
  next
    case (Cons y ys)
    then have "join '' '' (map quote_arg (x # xs)) = quote_arg x @ CHR '' '' # join '' '' (map quote_arg xs)" by simp
    then have "cut_line (join '' '' (map quote_arg (x # xs))) [] False args
        = cut_line (join '' '' (map quote_arg xs)) [] False (args @ [x])"
      by (simp only: cut_quoted) simp
    then show ?thesis using Cons Cons.IH by simp
  qed
qed simp

section \<open>Properties\<close>

text \<open>
  C23: Parsing keeps every option with the type and the default it was registered with, and
  its values of that type: whatever the arguments are, \<^verbatim>\<open>get<T>\<close> on an option registered with
  type \<^verbatim>\<open>T\<close> returns a \<^verbatim>\<open>T\<close> afterwards and does not throw.
\<close>

theorem options_keep_types:
  assumes "typed p" "parse argv p = (ok, p')"
  shows "typed p' \<and> same_options p p'
    \<and> (\<forall>name opt. uget (options p) name = Some opt \<and> has_value opt \<longrightarrow>
         (\<exists>v. get (opt_type opt) name p' = Inr v \<and> type_of v = opt_type opt))"
proof -
  have ty: "typed p'" and same: "same_options p p'"
    using keeps_parse[of p argv] assms by (simp_all add: keeps_def)
  have "\<exists>v. get (opt_type opt) name p' = Inr v \<and> type_of v = opt_type opt"
    if o: "uget (options p) name = Some opt" "has_value opt" for name opt
  proof -
    have "map_option declared (uget (options p') name) = Some (declared opt)"
      using same o(1) by (simp add: same_options_def)
    then obtain opt' where opt': "uget (options p') name = Some opt'" "declared opt' = declared opt" by auto
    moreover have "opt_typed opt'" using ty opt'(1) unfolding typed_def by blast
    ultimately show ?thesis using o(2) by (cases opt; cases opt') (auto simp: get_def)
  qed
  then show ?thesis using ty same by blast
qed

text \<open>
  C24: The three spellings of an option with a value, \<^verbatim>\<open>--name=value\<close>, \<^verbatim>\<open>--name value\<close> and
  \<^verbatim>\<open>-n value\<close>, do the same: each sets the option and goes on behind the value, which may itself
  begin with a dash or contain any character.
\<close>

theorem option_spellings:
  assumes "uget (options p) name = Some opt" "has_value opt" "CHR ''='' \<notin> set name" "name \<noteq> []"
    and "lookup c = Some name" "c \<noteq> CHR ''-''"
  shows "parse_loop lookup ((''--'' @ name @ CHR ''='' # v) # args) p = parse_loop lookup args (set_option_value name v p)
    \<and> parse_loop lookup ((''--'' @ name) # v # args) p = parse_loop lookup args (set_option_value name v p)
    \<and> parse_loop lookup ([CHR ''-'', c] # v # args) p = parse_loop lookup args (set_option_value name v p)"
proof -
  have has: "opt_has_value name p" using assms(1,2) by (simp add: opt_has_value_def)
  have "parse_loop lookup ((''--'' @ name @ CHR ''='' # v) # args) p = parse_loop lookup args (set_option_value name v p)"
    using find_eq_long(1)[OF assms(3), of v] by (subst parse_loop.simps) (simp add: take_long numeral_2_eq_2)
  moreover have "parse_loop lookup ((''--'' @ name) # v # args) p = parse_loop lookup args (set_option_value name v p)"
    using find_eq_long(2)[OF assms(3)] has assms(1) by (subst parse_loop.simps) (simp add: take_long numeral_2_eq_2)
  moreover have "parse_loop lookup ([CHR ''-'', c] # v # args) p = parse_loop lookup args (set_option_value name v p)"
    using assms(4-6) has by (subst parse_loop.simps) (simp add: numeral_2_eq_2)
  ultimately show ?thesis by blast
qed

text \<open>
  C25: A line of arguments, each in quotes with its quotes and backslashes escaped, is cut back
  into exactly these arguments, blanks and all; only an empty last argument is lost.
\<close>

theorem quoted_line_cut_back:
  "cut_line (join '' '' (map quote_arg xs)) [] False [] = Inr (if xs \<noteq> [] \<and> last xs = [] then butlast xs else xs)"
  using cut_quoted_list[of xs "[]"] by simp

section \<open>Witnesses\<close>

text \<open>A parser as the generator and the test program of the library make it.\<close>

definition demo_parser :: parser where
  "demo_parser = (case add_value ''host'' CHR ''h'' ''host name'' True T_String (VString []) Default_Reader parser_new of
     Inr p \<Rightarrow> (case add_value ''port'' CHR ''p'' ''port number'' False T_Int (VInt 80) (Range_Reader (VInt 1) (VInt 65535)) p of
       Inr p \<Rightarrow> p))"

lemma demo_parser_eq: "demo_parser = \<lparr>options =
    [(''host'', With_Value ''host'' CHR ''h'' ''host name (string)'' False True T_String (VString []) (VString []) Default_Reader),
     (''port'', With_Value ''port'' CHR ''p'' ''port number (int [=80])'' False False T_Int (VInt 80) (VInt 80)
        (Range_Reader (VInt 1) (VInt 65535)))],
    ordered = [''host'', ''port''], ftr = [], prog_name = [], others = [], errors = []\<rparr>"
  by code_simp

lemma demo_typed: "typed demo_parser"
  by (simp add: typed_def demo_parser_eq uget_def)

theorem options_keep_types_witness:
  "fst (parse [''prog'', ''--host=db'', ''-p'', ''3306'', ''x''] demo_parser)
   \<and> get T_Int ''port'' (snd (parse [''prog'', ''--host=db'', ''-p'', ''3306'', ''x''] demo_parser)) = Inr (VInt 3306)
   \<and> typed (snd (parse [''prog'', ''--host=db'', ''-p'', ''3306'', ''x''] demo_parser))"
proof -
  let ?r = "parse [''prog'', ''--host=db'', ''-p'', ''3306'', ''x''] demo_parser"
  have "typed (snd ?r)" using options_keep_types[OF demo_typed, of "[''prog'', ''--host=db'', ''-p'', ''3306'', ''x'']"]
    by (metis prod.collapse)
  moreover have "fst ?r \<and> get T_Int ''port'' (snd ?r) = Inr (VInt 3306)" by code_simp
  ultimately show ?thesis by blast
qed

theorem option_spellings_witness:
  "parse_loop [CHR ''p'' \<mapsto> ''port''] [''--port=-1'', ''y''] demo_parser = parse_loop [CHR ''p'' \<mapsto> ''port''] [''-p'', ''-1'', ''y''] demo_parser"
  using option_spellings[of demo_parser "''port''" _ "[CHR ''p'' \<mapsto> ''port'']" "CHR ''p''" "''-1''" "[''y'']"]
  by (simp add: demo_parser_eq uget_def)

end
