(* ===== verification/Model_Gen.thy ===== *)
theory Model_Gen
  imports Cmdline_Laws Db_Life
begin

text \<open>
  \<^verbatim>\<open>generator/ModelGen.cpp\<close>: the program that writes an entity header for each table of a
  database: the text of a header, \<^verbatim>\<open>gen\<close>, and \<^verbatim>\<open>main\<close> over its command line.
\<close>

section \<open>The text of a header\<close>

definition tab :: string where
  "tab = [char_of (9::nat)]"

text \<open>What stands between the parentheses of \<^verbatim>\<open>tags\<close>; \<^verbatim>\<open>n\<close> and \<^verbatim>\<open>t\<close> are the two optionals.\<close>

definition column_tags :: "string \<Rightarrow> string \<Rightarrow> field_meta \<Rightarrow> string" where
  "column_tags n t f = ''name = '' @ n @ '', type = '' @ t
     @ (if isPk f then '', pk'' else [])
     @ (if autoInc f then '' auto_increment'' else [])
     @ (if notNull f then '', not null'' else [])
     @ (if length (defaultVal f) > 0 then '', default '' @ defaultVal f else [])
     @ (if length (extra f) > 0 then '', '' @ extra f else [])"

text \<open>\<^verbatim>\<open>value()\<close> of an empty \<^verbatim>\<open>optional\<close> throws; \<^verbatim>\<open>loadFromDB\<close> leaves none empty.\<close>

definition column_line :: "field_meta \<Rightarrow> string res" where
  "column_line f = (case (columnName f, columnType f) of
     (Some n, Some t) \<Rightarrow> Inr (tab @ ''column('' @ dbToCpp n False @ '', '' @ cppType f @ '', ''
        @ ''tags('' @ column_tags n t f @ ''));'' @ newline)
   | _ \<Rightarrow> Inl Invalid_Argument)"

definition index_line :: "string \<times> index_info \<Rightarrow> string" where
  "index_line kv = (let i = snd kv in
     if ix_type i = INDEX_TYPE_PRI then []
     else tab @ (if ix_type i = INDEX_TYPE_MUL then ''add_index('' @ ix_name i
                 else if ix_type i = INDEX_TYPE_UNI then ''add_unique('' @ ix_name i else [])
       @ concat (map (\<lambda>c. '', '' @ c) (ix_columns i)) @ '');'' @ newline)"

definition header_text :: "string \<Rightarrow> field_meta list \<Rightarrow> index_info umap \<Rightarrow> string res" where
  "header_text table flds indices =
     rmap (\<lambda>cols. ''#pragma once'' @ newline
         @ ''#include '' @ [CHR 0x22] @ ''tinyorm/reflection.h'' @ [CHR 0x22] @ newline
         @ (if ''std::string'' \<in> cppType ` set flds then ''#include <string>'' @ newline else [])
         @ (if ''Timestamp'' \<in> cppType ` set flds
            then ''#include '' @ [CHR 0x22] @ ''tinyorm/mysql4cpp/timestamp.h'' @ [CHR 0x22] @ newline else [])
         @ newline @ ''entity('' @ dbToCpp table True @ '') {'' @ newline
         @ tab @ ''tableName('' @ table @ '');'' @ newline @ newline
         @ concat cols
         @ (if length indices > 0 then newline else [])
         @ concat (map index_line indices)
         @ ''};'')
       (rmapM column_line flds)"

section \<open>gen\<close>

text \<open>
  The file it writes, if it does: \<open>None\<close> when the table has no columns. \<open>meta\<close> is the
  connection that \<^verbatim>\<open>loadFromDB\<close> makes.
\<close>

definition gen :: "json \<Rightarrow> (string \<Rightarrow> text_answer) \<Rightarrow> sqlconn \<Rightarrow> string \<Rightarrow> string \<Rightarrow> string
    \<Rightarrow> (string \<times> string) option res option" where
  "gen conf info meta dbName dir table =
     obind (loadFromDB conf info meta dbName table ([], [], [])) (\<lambda>(flds, indices, nti).
       if length flds = 0 then Some (Inr None)
       else Some (rmap (\<lambda>txt. Some (dir @ ''/'' @ dbToCpp table False @ ''.h'', txt)) (header_text table flds indices)))"

section \<open>main\<close>

definition gen_parser :: "parser thrown" where
  "gen_parser =
     (let str = (\<lambda>name short desc need dflt r. case r of Inl e \<Rightarrow> Inl e
            | Inr p \<Rightarrow> add_value name short desc need T_String (VString dflt) Default_Reader p)
      in str ''table'' CHR ''t'' ''tables for generating'' False []
        (str ''db'' CHR ''s'' ''database name'' True []
        (str ''password'' CHR ''p'' ''password of database'' True []
        (str ''username'' CHR ''u'' ''username of database'' True []
        (str ''dir'' CHR ''d'' ''generating directory'' False ''.'' (Inr parser_new))))))"

fun string_of :: "opt_value thrown \<Rightarrow> string" where
  "string_of (Inr (VString s)) = s"
| "string_of _ = []"

text \<open>The lines it prints and the files it writes, in order; a later file replaces an earlier one.\<close>

fun gen_tables :: "env \<Rightarrow> process \<Rightarrow> sqlconn \<Rightarrow> string \<Rightarrow> string \<Rightarrow> nat \<Rightarrow> string list
    \<Rightarrow> (string list \<times> (string \<times> string) list) res option" where
  "gen_tables env pr c dbName dir i [] = Some (Inr ([], []))"
| "gen_tables env pr c dbName dir i (t # ts) =
     obind (gen (en_conf env) (en_info env) (meta_conn env pr c i) dbName dir t) (\<lambda>file.
     obind (gen_tables env pr c dbName dir (i + 1) ts) (\<lambda>(out, files).
       Some (Inr (case file of
          None \<Rightarrow> ((''generate model for table '' @ t @ '' --- failed'') # out, files)
        | Some f \<Rightarrow> ((''generate model for table '' @ t @ '' --- success'') # out, f # files)))))"

text \<open>\<open>Inl\<close> is a process that ends in \<^verbatim>\<open>parse_check\<close>, with its exit code. An
  exception that nothing catches ends it as well; there is none.\<close>

definition gen_main :: "env \<Rightarrow> string list \<Rightarrow> process \<Rightarrow> (int + string list \<times> (string \<times> string) list \<times> process) res option" where
  "gen_main env argv pr =
     (case gen_parser of
        Inl e \<Rightarrow> Some (Inl UB)
      | Inr p0 \<Rightarrow> (case parse_check argv p0 of
          Inl e \<Rightarrow> Some (Inl UB)
        | Inr (Exits code txt) \<Rightarrow> Some (Inr (Inl code))
        | Inr (Goes_On p) \<Rightarrow>
            let opt = (\<lambda>name. string_of (get T_String name p));
                dbName = opt ''db''; tbs = split (opt ''table'') '',''
            in obind (Some (DB_new ''localhost'' 3306 (opt ''username'') (opt ''password'') dbName pr)) (\<lambda>(d, pr).
               obind (Some (DB_getConn env pr)) (\<lambda>(c, pr).
               obind (gen_tables env pr c dbName (opt ''dir'') 0 tbs) (\<lambda>(out, files).
               obind (Some (close_conn c pr)) (\<lambda>pr.
               obind (Some (DB_delete pr)) (\<lambda>pr.
                 Some (Inr (Inr (out @ [''done''], files, pr))))))))))"

end
