(* ===== verification/Model_Gen_Laws.thy ===== *)
theory Model_Gen_Laws
  imports Model_Gen
begin

text \<open>
  What the generator writes is what the reflection reads: the tags of a generated column give
  back the column of the schema they were made from.
\<close>

section \<open>The tags as items\<close>

definition column_items :: "string \<Rightarrow> string \<Rightarrow> field_meta \<Rightarrow> string list \<Rightarrow> tag_item list" where
  "column_items n t f ws = [Named n, Typed (if autoInc f \<and> \<not> isPk f then t @ '' auto_increment'' else t)]
     @ (if isPk f then [Words (''pk'' # (if autoInc f then [''auto_increment''] else []))] else [])
     @ (if notNull f then [Words [''not'', ''null'']] else [])
     @ (if defaultVal f \<noteq> [] then [Words [''default'', defaultVal f]] else [])
     @ (if ws \<noteq> [] then [Words ws] else [])"

definition tag_keywords :: "string list" where
  "tag_keywords = [''pk'', ''primary_key'', ''primary key'', ''auto_increment'', ''auto increment'', ''ignore'',
     ''index'', ''unique'', ''not'', ''default'']"

text \<open>Names and types of two or more characters without commas; a default of one word; extra words
  in lower case that mean nothing else.\<close>

definition generable :: "field_meta \<Rightarrow> string \<Rightarrow> string \<Rightarrow> string list \<Rightarrow> bool" where
  "generable f n t ws \<longleftrightarrow> columnName f = Some n \<and> columnType f = Some t \<and> plain n \<and> plain t
     \<and> (isPk f \<longrightarrow> notNull f) \<and> (defaultVal f = [] \<or> word_ok (defaultVal f))
     \<and> extra f = join '' '' ws \<and> (ws = [] \<or> 2 \<le> length (join '' '' ws))
     \<and> (\<forall>w \<in> set ws. word_ok w \<and> toLowerCase w = w \<and> w \<notin> set tag_keywords)"

lemma join_items: "join sep (xs @ ys) = (if xs = [] then join sep ys else if ys = [] then join sep xs
    else join sep xs @ sep @ join sep ys)"
proof (induction xs)
  case (Cons x xs)
  then show ?case by (cases xs; cases ys) auto
qed simp

lemma column_tags_items:
  assumes "extra f = join '' '' ws" "ws \<noteq> [] \<Longrightarrow> join '' '' ws \<noteq> []"
  shows "column_tags n t f = tag_text (column_items n t f ws)"
proof -
  have "length (extra f) > 0 \<longleftrightarrow> ws \<noteq> []" using assms by auto
  then show ?thesis using assms(1)
    by (simp add: column_tags_def tag_text_def column_items_def join_items)
qed

lemma column_items_ok:
  assumes "generable f n t ws"
  shows "\<forall>it \<in> set (column_items n t f ws). item_ok it"
proof -
  have "plain t" using assms by (simp add: generable_def)
  moreover obtain c cs where "t = c # cs" using calculation by (cases t) (auto simp: plain_def)
  moreover have "\<not> isspace CHR ''t''" by code_simp
  ultimately have 1: "item_ok (Typed t)" "item_ok (Typed (t @ '' auto_increment''))"
    by (simp_all add: plain_def)
  have w: "word_ok ''pk''" "word_ok ''auto_increment''" "word_ok ''not''" "word_ok ''null''" "word_ok ''default''"
    by code_simp+
  have 2: "item_ok (Words [''pk''])" "item_ok (Words [''pk'', ''auto_increment''])" "item_ok (Words [''not'', ''null''])"
    using w by simp_all
  have 3: "defaultVal f \<noteq> [] \<Longrightarrow> item_ok (Words [''default'', defaultVal f])"
    using w assms by (simp add: generable_def)
  have 4: "item_ok (Named n)" "ws \<noteq> [] \<Longrightarrow> item_ok (Words ws)" using assms by (simp_all add: generable_def)
  show ?thesis using 1 2 3 4 by (auto simp: column_items_def simp del: item_ok.simps)
qed

section \<open>What the items do\<close>

lemma ext_step_plain:
  assumes "toLowerCase w = w" "w \<notin> set tag_keywords"
  shows "ext_step w (f, False, False) = (f\<lparr>extra := (if extra f = [] then w else extra f @ '' '' @ w)\<rparr>, False, False)"
  using assms by (simp add: ext_step_def tag_keywords_def)

lemma ext_words:
  assumes "\<forall>w \<in> set ws. toLowerCase w = w \<and> w \<notin> set tag_keywords \<and> w \<noteq> []"
  shows "fold ext_step ws (f, False, False) = (f\<lparr>extra :=
    (if ws = [] then extra f else if extra f = [] then join '' '' ws else extra f @ '' '' @ join '' '' ws)\<rparr>, False, False)"
  using assms
proof (induction ws arbitrary: f)
  case (Cons w ws)
  show ?case
  proof (cases ws)
    case Nil
    then show ?thesis using Cons.prems ext_step_plain[of w f] by simp
  next
    case (Cons v vs)
    then have "join '' '' (w # ws) = w @ '' '' @ join '' '' ws" by simp
    moreover have "fold ext_step (w # ws) (f, False, False)
        = fold ext_step ws (f\<lparr>extra := (if extra f = [] then w else extra f @ '' '' @ w)\<rparr>, False, False)"
      using Cons.prems ext_step_plain[of w f] by simp
    ultimately show ?thesis using Cons.IH Cons.prems Cons by (auto simp del: join.simps)
  qed
qed simp

lemma ext_known:
  "fold ext_step [''pk''] (f, False, False) = (add_index INDEX_TYPE_PRI (f\<lparr>isPk := True\<rparr>), False, False)"
  "fold ext_step [''pk'', ''auto_increment''] (f, False, False)
     = ((add_index INDEX_TYPE_PRI (f\<lparr>isPk := True\<rparr>))\<lparr>autoInc := True\<rparr>, False, False)"
  "fold ext_step [''not'', ''null''] (f, False, False) = (f\<lparr>notNull := True\<rparr>, False, False)"
  "fold ext_step [''default'', d] (f, False, False) = (f\<lparr>defaultVal := d\<rparr>, False, True)"
proof -
  have "toLowerCase ''pk'' = ''pk''" "toLowerCase ''auto_increment'' = ''auto_increment''" "toLowerCase ''not'' = ''not''"
    "toLowerCase ''null'' = ''null''" "toLowerCase ''default'' = ''default''" by code_simp+
  then show "fold ext_step [''pk''] (f, False, False) = (add_index INDEX_TYPE_PRI (f\<lparr>isPk := True\<rparr>), False, False)"
    "fold ext_step [''pk'', ''auto_increment''] (f, False, False)
       = ((add_index INDEX_TYPE_PRI (f\<lparr>isPk := True\<rparr>))\<lparr>autoInc := True\<rparr>, False, False)"
    "fold ext_step [''not'', ''null''] (f, False, False) = (f\<lparr>notNull := True\<rparr>, False, False)"
    "fold ext_step [''default'', d] (f, False, False) = (f\<lparr>defaultVal := d\<rparr>, False, True)"
    by (simp_all add: ext_step_def)
qed

lemma add_index_simps [simp]:
  "columnName (add_index k f) = columnName f" "columnType (add_index k f) = columnType f" "isPk (add_index k f) = isPk f"
  "autoInc (add_index k f) = autoInc f" "notNull (add_index k f) = notNull f" "defaultVal (add_index k f) = defaultVal f"
  "extra (add_index k f) = extra f" "ignored (add_index k f) = ignored f"
  by (simp_all add: add_index_def)

lemma fold_items: "fold item_effect [] f = f" "fold item_effect (it # its) f = fold item_effect its (item_effect it f)"
  by simp_all

definition read_back :: "string \<Rightarrow> string \<Rightarrow> int \<Rightarrow> string \<Rightarrow> field_meta" where
  "read_back member type off tags = FieldMeta_of member \<lparr>meta_type = type, meta_offset = off, meta_tag = tags\<rparr>"

lemma read_back_fields:
  fixes member type :: string and off :: int
  assumes g: "generable f n t ws"
  defines "r \<equiv> read_back member type off (column_tags n t f)"
  shows "columnName r = Some n" "columnType r = Some (if autoInc f \<and> \<not> isPk f then t @ '' auto_increment'' else t)"
    "isPk r = isPk f" "autoInc r = (isPk f \<and> autoInc f)" "notNull r = notNull f" "defaultVal r = defaultVal f"
    "extra r = extra f"
proof -
  have ws: "\<forall>w \<in> set ws. toLowerCase w = w \<and> w \<notin> set tag_keywords \<and> w \<noteq> []" "ws \<noteq> [] \<Longrightarrow> join '' '' ws \<noteq> []"
  proof -
    show "\<forall>w \<in> set ws. toLowerCase w = w \<and> w \<notin> set tag_keywords \<and> w \<noteq> []"
      using g unfolding generable_def word_ok_def by blast
    have "ws = [] \<or> 2 \<le> length (join '' '' ws)" using g unfolding generable_def by blast
    then show "ws \<noteq> [] \<Longrightarrow> join '' '' ws \<noteq> []" by (elim disjE) auto
  qed
  have tags: "column_tags n t f = tag_text (column_items n t f ws)"
    by (rule column_tags_items) (use g ws(2) in \<open>auto simp: generable_def\<close>)
  have r: "r = field_finish (fold item_effect (column_items n t f ws) (field_start member type off))"
    unfolding r_def read_back_def tags
    by (rule FieldMeta_of_items[OF _ column_items_ok[OF g]]) (simp add: column_items_def)
  have "columnName r = Some n \<and> columnType r = Some (if autoInc f \<and> \<not> isPk f then t @ '' auto_increment'' else t)
    \<and> isPk r = isPk f \<and> autoInc r = (isPk f \<and> autoInc f) \<and> notNull r = notNull f \<and> defaultVal r = defaultVal f
    \<and> extra r = extra f"
    using g unfolding r
    by (simp add: column_items_def field_finish_def field_start_def FieldMeta_default_def ext_known ext_words[OF ws(1)]
        generable_def fold_items del: fold.simps)
  then show "columnName r = Some n" "columnType r = Some (if autoInc f \<and> \<not> isPk f then t @ '' auto_increment'' else t)"
    "isPk r = isPk f" "autoInc r = (isPk f \<and> autoInc f)" "notNull r = notNull f" "defaultVal r = defaultVal f"
    "extra r = extra f" by blast+
qed

section \<open>Property\<close>


definition demo_updated :: field_meta where
  "demo_updated = FieldMeta_default\<lparr>columnName := Some ''updated'', columnType := Some ''datetime'', notNull := True,
     defaultVal := ''0'', extra := ''on update''\<rparr>"


end
