(* ===== verification/Double_Arith.thy ===== *)
theory Double_Arith
  imports Complex_Main Decimal "HOL-Library.Log_Nat"
begin

text \<open>
  The \<^verbatim>\<open>double\<close> arithmetic the sources use: values of 64 bits in the IEEE binary64 format, sums
  and products rounded to the nearest value (ties to the even one), the conversion of an
  integer to \<^verbatim>\<open>double\<close> and back to a 64-bit integer by truncation. A finite value is a pair
  \<open>m\<close>, \<open>e\<close> that stands for \<open>m * 2 ^ e\<close>; the signs of zeros play no part in these operations.
\<close>

datatype dbl = Finite int int | Infinite bool | NaN

definition dbl_of_bits :: "64 word \<Rightarrow> dbl" where
  "dbl_of_bits w =
     (let sign = bit w 63; ex = uint w div 2 ^ 52 mod 2048; fr = uint w mod 2 ^ 52; neg = (if sign then - 1 else 1)
      in if ex = 2047 then (if fr = 0 then Infinite sign else NaN)
         else if ex = 0 then Finite (neg * fr) (- 1074)
         else Finite (neg * (2 ^ 52 + fr)) (ex - 1075))"

text \<open>\<open>m / 2 ^ s\<close>, rounded to the nearest integer, to the even one of two.\<close>

definition round_half_even :: "int \<Rightarrow> nat \<Rightarrow> int" where
  "round_half_even m s =
     (let q = \<bar>m\<bar> div 2 ^ s; r = \<bar>m\<bar> mod 2 ^ s
      in sgn m * (if 2 ^ s < 2 * r \<or> (2 * r = 2 ^ s \<and> odd q) then q + 1 else q))"

definition dbl_pack :: "int \<Rightarrow> int \<Rightarrow> dbl" where
  "dbl_pack m e = (if 1024 < bitlen \<bar>m\<bar> + e then Infinite (m < 0) else Finite m e)"

text \<open>A significand has 53 bits, and no value has a bit below \<open>2 ^ - 1074\<close>.\<close>

definition dbl_round :: "int \<Rightarrow> int \<Rightarrow> dbl" where
  "dbl_round m e =
     (let s = max (bitlen \<bar>m\<bar> - 53) (- 1074 - e)
      in if s \<le> 0 then dbl_pack m e else dbl_pack (round_half_even m (nat s)) (e + s))"

definition dbl_of_int :: "int \<Rightarrow> dbl" where
  "dbl_of_int i = dbl_round i 0"

fun dbl_mult :: "dbl \<Rightarrow> dbl \<Rightarrow> dbl" where
  "dbl_mult (Finite m e) (Finite m' e') = dbl_round (m * m') (e + e')"
| "dbl_mult (Infinite s) (Finite m e) = (if m = 0 then NaN else Infinite (s \<noteq> (m < 0)))"
| "dbl_mult (Finite m e) (Infinite s) = (if m = 0 then NaN else Infinite (s \<noteq> (m < 0)))"
| "dbl_mult (Infinite s) (Infinite s') = Infinite (s \<noteq> s')"
| "dbl_mult _ _ = NaN"

fun dbl_add :: "dbl \<Rightarrow> dbl \<Rightarrow> dbl" where
  "dbl_add (Finite m e) (Finite m' e') =
     (let k = min e e' in dbl_round (m * 2 ^ nat (e - k) + m' * 2 ^ nat (e' - k)) k)"
| "dbl_add (Infinite s) (Finite m e) = Infinite s"
| "dbl_add (Finite m e) (Infinite s) = Infinite s"
| "dbl_add (Infinite s) (Infinite s') = (if s = s' then Infinite s else NaN)"
| "dbl_add _ _ = NaN"

text \<open>Conversion to a signed integer of 64 bits: undefined out of its range.\<close>

definition dbl_trunc :: "int \<Rightarrow> int \<Rightarrow> int" where
  "dbl_trunc m e = (if 0 \<le> e then m * 2 ^ nat e else sgn m * (\<bar>m\<bar> div 2 ^ nat (- e)))"

fun dbl_to_i64 :: "dbl \<Rightarrow> int res" where
  "dbl_to_i64 (Finite m e) = i64 (dbl_trunc m e)"
| "dbl_to_i64 _ = Inl UB"

section \<open>Rounding errors\<close>

text \<open>The real number a finite value stands for.\<close>

definition dval :: "int \<Rightarrow> int \<Rightarrow> real" where
  "dval m e = of_int m * 2 powi e"

lemma round_half_even_error: "2 * \<bar>round_half_even m s * 2 ^ s - m\<bar> \<le> 2 ^ s"
proof -
  define q r where "q = \<bar>m\<bar> div 2 ^ s" and "r = \<bar>m\<bar> mod 2 ^ s"
  have m: "\<bar>m\<bar> = q * 2 ^ s + r" "0 \<le> r" "r < 2 ^ s"
    using div_mult_mod_eq[of "\<bar>m\<bar>" "2 ^ s"] by (simp_all add: q_def r_def)
  define q' where "q' = (if 2 ^ s < 2 * r \<or> (2 * r = 2 ^ s \<and> odd q) then q + 1 else q)"
  have "2 * \<bar>q' * 2 ^ s - \<bar>m\<bar>\<bar> \<le> 2 ^ s"
    using m by (auto simp: q'_def distrib_right)
  moreover have "round_half_even m s = sgn m * q'"
    by (simp add: round_half_even_def q'_def q_def r_def Let_def)
  moreover have "\<bar>sgn m * q' * 2 ^ s - m\<bar> = \<bar>q' * 2 ^ s - \<bar>m\<bar>\<bar>" if "m \<noteq> 0"
    using that by (cases "m > 0") auto
  ultimately show ?thesis by (cases "m = 0") auto
qed

lemma round_half_even_exact:
  assumes "2 ^ s dvd m"
  shows "round_half_even m s * 2 ^ s = m"
proof -
  have "\<bar>m\<bar> mod 2 ^ s = 0" "\<bar>m\<bar> div 2 ^ s * 2 ^ s = \<bar>m\<bar>" using assms by auto
  moreover have "(0::int) \<noteq> 2 ^ s" by simp
  ultimately show ?thesis
    by (simp add: round_half_even_def Let_def mult.assoc sgn_mult_abs del: dvd_div_mult_self)
qed

lemma dval_scale: "k \<le> e \<Longrightarrow> dval (m * 2 ^ nat (e - k)) k = dval m e"
  by (simp add: dval_def mult.assoc flip: power_int_nonneg_exp power_int_add)

lemma dval_scale_nat: "dval (m * 2 ^ s) e = dval m (e + int s)"
  using dval_scale[of e "e + int s" m] by simp

lemma bitlen_le_dval:
  assumes "\<bar>dval m e\<bar> < 2 powi k" "m \<noteq> 0"
  shows "bitlen \<bar>m\<bar> + e \<le> k"
proof -
  have "(2::int) ^ nat (bitlen \<bar>m\<bar> - 1) \<le> \<bar>m\<bar>" "1 \<le> bitlen \<bar>m\<bar>"
    using bitlen_bounds[of "\<bar>m\<bar>"] assms(2) bitlen_eq_zero_iff[of "\<bar>m\<bar>"] bitlen_nonneg[of "\<bar>m\<bar>"] by auto
  then have "(2::real) powi (bitlen \<bar>m\<bar> - 1) \<le> of_int \<bar>m\<bar>"
    by (simp add: power_int_nonneg_exp del: of_int_abs)
  then have "(2::real) powi (bitlen \<bar>m\<bar> - 1) * 2 powi e \<le> \<bar>dval m e\<bar>"
    by (simp add: dval_def abs_mult)
  then have "(2::real) powi (bitlen \<bar>m\<bar> - 1 + e) < 2 powi k"
    using assms(1) by (simp add: power_int_add)
  then have "bitlen \<bar>m\<bar> - 1 + e < k"
    using power_int_increasing[of k "bitlen \<bar>m\<bar> - 1 + e" "2::real"] by linarith
  then show ?thesis by simp
qed

lemma dbl_pack_finite: "\<bar>dval m e\<bar> < 2 powi 1024 \<Longrightarrow> e \<le> 1024 \<Longrightarrow> dbl_pack m e = Finite m e"
  using bitlen_le_dval[of m e 1024] by (cases "m = 0") (simp_all add: dbl_pack_def)

text \<open>
  A value below \<open>2 ^ k\<close> with \<open>k \<le> 53\<close> is rounded by at most half of \<open>2 ^ (k - 53)\<close>, and not at all
  when it is an integer.
\<close>

lemma dbl_round_near:
  assumes "- 1074 \<le> e" "e \<le> 1024" "\<bar>dval m e\<bar> < 2 powi k" "k \<le> 53"
  shows "\<exists>m' e'. dbl_round m e = Finite m' e' \<and> - 1074 \<le> e' \<and> e' \<le> 1024
    \<and> \<bar>dval m' e' - dval m e\<bar> \<le> 2 powi (k - 54) \<and> (dval m e \<in> \<int> \<longrightarrow> dval m' e' = dval m e)"
proof -
  let ?s = "bitlen \<bar>m\<bar> - 53"
  have big: "(2::real) powi k \<le> 2 powi 53" using assms(4) by (intro power_int_increasing) auto
  show ?thesis
  proof (cases "?s \<le> 0")
    case True
    have "\<bar>dval m e\<bar> < 2 powi 1024" using assms(3) big by (auto intro: order_less_le_trans)
    then show ?thesis
      using True assms(1,2) by (simp add: dbl_round_def dbl_pack_finite)
  next
    case False
    then have m: "m \<noteq> 0" by auto
    let ?r = "round_half_even m (nat ?s)"
    have s: "e + ?s \<le> k - 53" using bitlen_le_dval[OF assms(3) m] by simp
    have "dval ?r (e + ?s) = dval (?r * 2 ^ nat ?s) e" using False by (simp add: dval_scale_nat)
    moreover have "dval (?r * 2 ^ nat ?s) e - dval m e = of_int (?r * 2 ^ nat ?s - m) * 2 powi e"
      by (simp add: dval_def left_diff_distrib)
    ultimately have diff: "dval ?r (e + ?s) - dval m e = of_int (?r * 2 ^ nat ?s - m) * 2 powi e"
      by simp
    have "(2::real) * of_int \<bar>?r * 2 ^ nat ?s - m\<bar> \<le> 2 ^ nat ?s"
      using round_half_even_error[of m "nat ?s"]
      by (metis of_int_le_iff of_int_mult of_int_numeral of_int_power)
    then have "2 * \<bar>dval ?r (e + ?s) - dval m e\<bar> \<le> 2 ^ nat ?s * 2 powi e"
      unfolding diff abs_mult by (simp add: mult_right_mono flip: mult.assoc)
    also have "\<dots> = 2 powi (e + ?s)"
      using False by (simp add: power_int_add mult.commute flip: power_int_nonneg_exp)
    also have "\<dots> \<le> 2 powi (k - 53)" using s by (intro power_int_increasing) auto
    also have "\<dots> = 2 * 2 powi (k - 54)"
      using power_int_add_1'[of "2::real" "k - 54"] by simp
    finally have near: "\<bar>dval ?r (e + ?s) - dval m e\<bar> \<le> 2 powi (k - 54)" by simp
    have exact: "dval ?r (e + ?s) = dval m e" if int: "dval m e \<in> \<int>"
    proof -
      obtain N where "dval m e = of_int N" using int by (rule Ints_cases)
      then have "of_int m * 2 powi e * 2 powi (- e) = (of_int N * 2 powi (- e) :: real)"
        by (simp add: dval_def)
      then have "(of_int m :: real) = of_int N * 2 ^ nat (- e)"
        using s assms(4) False by (simp add: mult.assoc flip: power_int_add power_int_nonneg_exp)
      then have "m = N * 2 ^ nat (- e)"
        by (metis of_int_eq_iff of_int_mult of_int_numeral of_int_power)
      moreover have "(2::int) ^ nat ?s dvd 2 ^ nat (- e)" using s assms(4) by (intro le_imp_power_dvd) auto
      ultimately have "?r * 2 ^ nat ?s = m" by (intro round_half_even_exact) simp
      then show ?thesis using diff by simp
    qed
    have "(2::real) powi (k - 54) \<le> 2 powi 53" using assms(4) by (intro power_int_increasing) auto
    then have "\<bar>dval ?r (e + ?s)\<bar> < 2 powi 53 + 2 powi 53"
      using near assms(3) big by linarith
    also have "(2::real) powi 53 + 2 powi 53 \<le> 2 powi 1024" by simp
    finally have "dbl_pack ?r (e + ?s) = Finite ?r (e + ?s)"
      using s assms(4) by (intro dbl_pack_finite) auto
    then show ?thesis
      using False near exact s assms(1,4) by (intro exI conjI) (auto simp: dbl_round_def Let_def max_def)
  qed
qed

lemma dbl_trunc_near: "\<bar>of_int (dbl_trunc m e) - dval m e\<bar> < 1"
    and dbl_trunc_exact: "dval m e \<in> \<int> \<Longrightarrow> of_int (dbl_trunc m e) = dval m e"
proof -
  show near: "\<bar>of_int (dbl_trunc m e) - dval m e\<bar> < 1"
  proof (cases "0 \<le> e")
    case True
    then show ?thesis by (simp add: dbl_trunc_def dval_def power_int_nonneg_exp)
  next
    case False
    define d where "d = (2::int) ^ nat (- e)"
    have d: "0 < d" "dval m e = of_int m / of_int d"
      using False by (simp_all add: d_def dval_def power_int_def field_simps)
    define q r where "q = \<bar>m\<bar> div d" and "r = \<bar>m\<bar> mod d"
    have "\<bar>m\<bar> = q * d + r" "0 \<le> r" "r < d"
      using d(1) div_mult_mod_eq[of "\<bar>m\<bar>" d] by (simp_all add: q_def r_def)
    then have "\<bar>sgn m * q * d - m\<bar> < d"
      using d(1) by (cases "m = 0"; cases "m > 0") auto
    then have "\<bar>sgn m * (\<bar>m\<bar> div d) * d - m\<bar> < d" by (simp only: q_def)
    then have "(of_int \<bar>sgn m * (\<bar>m\<bar> div d) * d - m\<bar> :: real) < of_int d" by (simp only: of_int_less_iff)
    then have "\<bar>of_int (sgn m * (\<bar>m\<bar> div d)) * of_int d - (of_int m :: real)\<bar> < of_int d"
      by (simp only: of_int_abs of_int_diff of_int_mult)
    moreover have "of_int (dbl_trunc m e) - dval m e
        = (of_int (sgn m * (\<bar>m\<bar> div d)) * of_int d - of_int m) / (of_int d :: real)"
      using False d(1) by (simp add: dbl_trunc_def d(2) flip: d_def) (simp add: field_simps)
    ultimately show ?thesis using d(1) by (simp add: abs_divide)
  qed
  show "of_int (dbl_trunc m e) = dval m e" if int: "dval m e \<in> \<int>"
  proof -
    obtain N where N: "dval m e = of_int N" using int by (rule Ints_cases)
    then have "\<bar>dbl_trunc m e - N\<bar> < 1" using near by linarith
    then show ?thesis using N by simp
  qed
qed

end
