(* ===== verification/Timestamp_Seconds.thy ===== *)
theory Timestamp_Seconds
  imports Timestamp Double_Arith
begin

text \<open>
  \<^verbatim>\<open>Timestamp::addSeconds(double)\<close>: the sum of the microseconds, an integer, and a product is
  formed in \<^verbatim>\<open>double\<close> and converted back. What it adds is right to two microseconds for a
  timestamp below \<open>2 ^ 52\<close> microseconds, in the year 2112; from \<open>2 ^ 53\<close> on a timestamp changes even when nothing
  is added.
\<close>

definition addSeconds :: "64 word \<Rightarrow> timestamp \<Rightarrow> timestamp res" where
  "addSeconds seconds ts =
     dbl_to_i64 (dbl_add (dbl_of_int ts) (dbl_mult (dbl_of_bits seconds) (dbl_of_int microSecondsPerSecond)))"

lemma dbl_of_bits_range:
  assumes "dbl_of_bits w = Finite m e"
  shows "- 1074 \<le> e" "e \<le> 971"
proof -
  have "0 \<le> uint w div 2 ^ 52 mod 2048" "uint w div 2 ^ 52 mod 2048 < 2048"
    by (rule pos_mod_sign pos_mod_bound, simp)+
  moreover have "uint w div 2 ^ 52 mod 2048 \<noteq> 2047"
    using assms by (auto simp: dbl_of_bits_def Let_def split: if_splits)
  ultimately show "- 1074 \<le> e" "e \<le> 971"
    using assms by (auto simp: dbl_of_bits_def Let_def split: if_splits)
qed

lemma dbl_of_int_exact:
  assumes "\<bar>i\<bar> < 2 ^ 53"
  shows "dbl_of_int i = Finite i 0"
proof -
  have "\<bar>dval i 0\<bar> < 2 powi 53" using assms by (simp add: dval_def flip: of_int_abs)
  then show ?thesis
    using bitlen_le_dval[of i 0 53] by (cases "i = 0") (simp_all add: dbl_of_int_def dbl_round_def dbl_pack_def)
qed

lemma million_exact: "dbl_of_int microSecondsPerSecond = Finite 1000000 0"
  by (simp add: dbl_of_int_exact microSecondsPerSecond_def)

lemma dval_mult: "dval (m * n) e = dval m e * of_int n"
  by (simp add: dval_def)

lemma dval_0: "dval i 0 = of_int i"
  by (simp add: dval_def)

lemma dval_add: "dval (m + n) e = dval m e + dval n e"
  by (simp add: dval_def distrib_right)

lemma sum_bound:
  fixes a :: real
  assumes "\<bar>a\<bar> \<le> 2 ^ 52 - 1" "\<bar>p - q\<bar> \<le> 1 / 4" "\<bar>q\<bar> < 2 ^ 52"
  shows "\<bar>a + p\<bar> < 2 ^ 53"
proof -
  have "\<bar>a + p\<bar> \<le> \<bar>a\<bar> + \<bar>p - q\<bar> + \<bar>q\<bar>" by simp
  also have "\<dots> < 2 ^ 53" using assms by simp
  finally show ?thesis .
qed

lemma result_bound:
  fixes a :: real
  assumes "\<bar>t - (a + q)\<bar> < 2" "\<bar>q\<bar> < 2 ^ 52" "\<bar>a\<bar> \<le> 2 ^ 52 - 1"
  shows "\<bar>t\<bar> < 2 ^ 54"
proof -
  have "\<bar>t\<bar> \<le> \<bar>t - (a + q)\<bar> + (\<bar>a\<bar> + \<bar>q\<bar>)" by simp
  also have "\<dots> < 2 ^ 54" using assms by simp
  finally show ?thesis .
qed

text \<open>The three roundings, of the product, of the sum and of the result.\<close>

lemma addSeconds_near:
  assumes sec: "dbl_of_bits sec = Finite m e"
    and ts: "\<bar>ts\<bar> < 2 ^ 52" and prod: "\<bar>dval m e * 1000000\<bar> < 2 ^ 52"
  shows "\<exists>t. addSeconds sec ts = Inr t \<and> \<bar>of_int t - (of_int ts + dval m e * 1000000)\<bar> < 2
    \<and> (dval m e * 1000000 \<in> \<int> \<longrightarrow> of_int t = of_int ts + dval m e * 1000000)"
proof -
  note range = dbl_of_bits_range[OF sec]
  have "\<bar>dval (m * 1000000) e\<bar> < 2 powi 52" using prod by (simp add: dval_mult)
  then obtain p f where p: "dbl_round (m * 1000000) e = Finite p f" "- 1074 \<le> f" "f \<le> 1024"
      "\<bar>dval p f - dval (m * 1000000) e\<bar> \<le> 2 powi (52 - 54)"
      "dval (m * 1000000) e \<in> \<int> \<longrightarrow> dval p f = dval (m * 1000000) e"
    using dbl_round_near[of e "m * 1000000" 52] range by auto
  let ?k = "min 0 f"
  let ?n = "ts * 2 ^ nat (0 - ?k) + p * 2 ^ nat (f - ?k)"
  have n: "dval ?n ?k = of_int ts + dval p f"
    using dval_scale[of ?k 0 ts] dval_scale[of ?k f p] by (simp add: dval_add dval_0)
  have near: "\<bar>dval p f - dval m e * 1000000\<bar> \<le> 1 / 4"
    using p(4) by (simp add: dval_mult power_int_minus)
  have exact: "dval p f = dval m e * 1000000" if "dval m e * 1000000 \<in> \<int>"
    using p(5) that by (simp add: dval_mult)
  have "\<bar>of_int ts :: real\<bar> \<le> 2 ^ 52 - 1" using ts by (simp flip: of_int_abs)
  then have "\<bar>of_int ts + dval p f\<bar> < 2 ^ 53" using near prod by (rule sum_bound)
  then have small: "\<bar>dval ?n ?k\<bar> < 2 powi 53" using n by simp
  have k: "- 1074 \<le> ?k" "?k \<le> 1024" using p(2) by simp_all
  obtain s g where s: "dbl_round ?n ?k = Finite s g"
      "\<bar>dval s g - dval ?n ?k\<bar> \<le> 2 powi (53 - 54)" "dval ?n ?k \<in> \<int> \<longrightarrow> dval s g = dval ?n ?k"
    using dbl_round_near[OF k small order_refl] by blast
  have s_near: "\<bar>dval s g - (of_int ts + dval p f)\<bar> \<le> 1 / 2"
    using s(2) n by (simp add: power_int_minus)
  have "\<bar>of_int (dbl_trunc s g) - dval s g\<bar> < 1" by (rule dbl_trunc_near)
  then have all: "\<bar>of_int (dbl_trunc s g) - (of_int ts + dval m e * 1000000)\<bar> < 2"
    using s_near near by linarith
  then have "\<bar>of_int (dbl_trunc s g) :: real\<bar> < 2 ^ 54"
    using prod \<open>\<bar>of_int ts :: real\<bar> \<le> 2 ^ 52 - 1\<close> by (intro result_bound)
  then have "\<bar>dbl_trunc s g\<bar> < 2 ^ 54" by (simp flip: of_int_abs)
  then have "addSeconds sec ts = Inr (dbl_trunc s g)"
    using ts p(1) s(1) by (simp add: addSeconds_def sec million_exact dbl_of_int_exact Let_def)
  moreover have "of_int (dbl_trunc s g) = of_int ts + dval m e * 1000000" if int: "dval m e * 1000000 \<in> \<int>"
  proof -
    have "dval ?n ?k \<in> \<int>" using int exact[OF int] n by simp
    then show ?thesis using s(3) exact[OF int] n by (simp add: dbl_trunc_exact)
  qed
  ultimately show ?thesis using all by blast
qed

text \<open>
  C34: Adding seconds to a timestamp. For a finite number of seconds, whatever its bits, and
  with timestamp and summand below \<open>2 ^ 52\<close> microseconds, the result is less than two
  microseconds off, and exact when the summand is a whole number of microseconds: the
  roundings of the product, of the sum and of the conversion do not add up to more.
\<close>

theorem addSeconds_precise:
  assumes "dbl_of_bits sec = Finite m e"
    and "\<bar>ts\<bar> < 2 ^ 52" and "\<bar>dval m e * 1000000\<bar> < 2 ^ 52"
  shows "\<exists>t. addSeconds sec ts = Inr t \<and> \<bar>of_int t - (of_int ts + dval m e * 1000000)\<bar> < 2
    \<and> (dval m e * 1000000 \<in> \<int> \<longrightarrow> of_int t = of_int ts + dval m e * 1000000)"
  using assms by (rule addSeconds_near)

text \<open>One and a half seconds.\<close>

lemma bits_of_1_5: "dbl_of_bits 0x3FF8000000000000 = Finite (3 * 2 ^ 51) (- 52)"
  by code_simp

theorem addSeconds_precise_witness: "addSeconds 0x3FF8000000000000 1667552759000001 = Inr 1667552760500001"
proof -
  have dval: "dval (3 * 2 ^ 51) (- 52) * 1000000 = of_int 1500000" by (simp add: dval_def power_int_minus)
  obtain t where "addSeconds 0x3FF8000000000000 1667552759000001 = Inr t"
      "real_of_int t = of_int 1667552759000001 + of_int 1500000"
    using addSeconds_precise[OF bits_of_1_5, of 1667552759000001] unfolding dval by auto
  then show ?thesis by simp
qed

text \<open>
  Beyond \<open>2 ^ 53\<close> the microseconds are not values of \<^verbatim>\<open>double\<close>: adding no time moves a timestamp.
  No number of seconds that is infinite or not a number can be added.
\<close>

lemma addSeconds_zero_moves: "addSeconds 0 (2 ^ 53 + 1) = Inr (2 ^ 53)"
  by code_simp

lemma addSeconds_not_finite:
  "dbl_of_bits sec = Infinite s \<or> dbl_of_bits sec = NaN \<Longrightarrow> \<bar>ts\<bar> < 2 ^ 53 \<Longrightarrow> addSeconds sec ts = Inl UB"
  by (auto simp: addSeconds_def million_exact dbl_of_int_exact)

end
