(* ===== verification/Redeploy.thy ===== *)
theory Redeploy
  imports Db_Demo
begin

text \<open>
  Deployments of one program after another: what a first process leaves in the data file, and
  what a second process with the same entities makes of it. This composes the model of the
  pool, the models, their migration and the data file.
\<close>

section \<open>What an entity stands for in the data file\<close>

definition entity_saved :: "entity \<Rightarrow> saved_model res" where
  "entity_saved e = (let (ty, b) = e in
     rbind (getClassName ty) (\<lambda>cls. rbind (Model_new ty b True) (\<lambda>m.
       rmap (\<lambda>t. \<lparr>sv_class = cls, sv_table = t, sv_fields = m_metadata m, sv_indices = m_indices m\<rparr>)
         (getTableName m))))"

definition entity_ok :: "json \<Rightarrow> entity \<Rightarrow> bool" where
  "entity_ok conf e \<longleftrightarrow> (case entity_saved e of Inl _ \<Rightarrow> False | Inr sm \<Rightarrow>
     model_ok conf sm \<and> distinct (map getColumnName (sv_fields sm))
     \<and> (\<forall>(k, i) \<in> set (sv_indices sm). distinct (ix_columns i)))"

text \<open>The statics of an entity hold its model.\<close>

definition static_model :: "entity \<Rightarrow> prev \<Rightarrow> bool" where
  "static_model e pv \<longleftrightarrow> (\<exists>cls. entity_saved e = Inr (saved_of cls pv))"

lemma entity_saved_eq_Inr:
  "entity_saved (ty, b) = Inr sm \<longleftrightarrow> (\<exists>m. Model_new ty b True = Inr m \<and> getClassName ty = Inr (sv_class sm)
     \<and> getTableName m = Inr (sv_table sm) \<and> sv_fields sm = m_metadata m \<and> sv_indices sm = m_indices m)"
  by (cases sm) (auto simp: entity_saved_def rbind_eq_Inr_iff rmap_eq_Inr_iff)

lemma Model_new_typeid: "Model_new ty b c = Inr m \<Longrightarrow> m_typeid m = ty \<and> c"
  by (auto simp: Model_new_def split: prod.splits if_splits)

section \<open>A pool that can lend\<close>

text \<open>Every idle connection has its handle; ids are positive.\<close>

definition ready :: "settings \<Rightarrow> process \<Rightarrow> bool" where
  "ready s pr \<longleftrightarrow> process_fine s pr \<and> 1 \<le> pr_gid pr
     \<and> (\<forall>c \<in> ran (connections (pool_of (pr_pool pr))). isOpen c)"

definition same_statics :: "process \<Rightarrow> process \<Rightarrow> bool" where
  "same_statics pr pr' \<longleftrightarrow> pr_db pr' = pr_db pr \<and> pr_prev pr' = pr_prev pr \<and> pr_files pr' = pr_files pr"

definition server_accepts :: "env \<Rightarrow> bool" where
  "server_accepts env \<longleftrightarrow> picks (en_pick env) \<and> sorts (en_sorter env) \<and> en_answers env = (\<lambda>h. good_answers)"

lemma finite_lent [simp, intro]: "finite (lent pr)"
  by (simp add: lent_def split: pool_pointer.splits)

lemma getConn_ready:
  assumes ready: "ready s pr" and env: "server_accepts env" and room: "int (card (lent pr)) < poolSize s"
    and gid: "pr_gid pr < 2147483647"
  shows "\<exists>c i pr'. DB_getConn env pr = Inr (c, pr') \<and> isOpen c \<and> c_pool c \<and> c_id c = Some i \<and> i \<notin> lent pr
    \<and> ready s pr' \<and> lent pr' = insert i (lent pr) \<and> same_statics pr pr' \<and> pr_gid pr' \<le> pr_gid pr + 1"
proof -
  from ready obtain p where p: "pr_pool pr = Live p" "pool_fine s p (pr_gid pr)" "1 \<le> pr_gid pr"
      "\<forall>c \<in> ran (connections p). isOpen c" by (auto simp: ready_def process_fine_def)
  have set: "p_settings p = Some s" and ok: "pool_ok s p (pr_gid pr)" using p(2) by (simp_all add: pool_fine_def)
  have env': "picks (en_pick env)" "en_answers env (pr_heap pr) = good_answers" using env by (simp_all add: server_accepts_def)
  let ?take = "take_conn good_answers (pr_heap pr) (en_pick env) s p (pr_gid pr)"
  have "\<exists>c p' g. ?take = Inr (c, p', g) \<and> isOpen c \<and> (\<exists>i. c_id c = Some i \<and> i \<in> set (used p')) \<and> 1 \<le> g \<and> g \<le> pr_gid pr + 1
    \<and> (\<forall>c \<in> ran (connections p'). isOpen c)"
  proof (cases "idle p = []")
    case True
    have "card (lent pr) = length (used p)" using p(1) pool_okD(2)[OF ok] by (simp add: lent_def distinct_card)
    then have "total p < poolSize s" using room True by (simp add: total_def)
    from take_conn_fresh[OF True this p(3) gid] p(3,4) show ?thesis by (simp add: isOpen_def)
  next
    case False
    then have "en_pick env (idle p) \<in> set (idle p)" using env'(1) by (simp add: picks_def)
    then obtain c where c: "connections p (en_pick env (idle p)) = Some c" using pool_okD(4)[OF ok] by blast
    then have "isOpen c" using p(4) by (auto simp: ran_def)
    then show ?thesis using take_conn_reuse[where pick = "en_pick env", OF False c] pool_okD(5)[OF ok c] p(3,4)
      by (auto simp: ran_def split: if_splits)
  qed
  then obtain c p' g i where t: "?take = Inr (c, p', g)" "isOpen c" "c_id c = Some i" "i \<in> set (used p')" "1 \<le> g"
      "g \<le> pr_gid pr + 1" "\<forall>c \<in> ran (connections p'). isOpen c" by blast
  let ?pr' = "pr\<lparr>pr_pool := Live p', pr_gid := g, pr_heap := Suc (pr_heap pr)\<rparr>"
  obtain k where "get_loop good_answers (pr_heap pr) (en_pick env) s (\<lambda>i. (p, pr_gid pr)) 0 = rmap (Pair k) ?take"
    using get_loop_const by blast
  then have get: "DB_getConn env pr = Inr (c, ?pr')"
    using p(1) set t(1) env'(2) by (simp add: DB_getConn_def with_pool_def borrow_def getConn_def)
  have "process_fine s pr" using ready by (simp add: ready_def)
  from DB_getConn_fine[OF this env'(1) get] t have "process_fine s ?pr'" "i \<notin> lent pr" "c_pool c"
      "lent ?pr' = insert i (lent pr)" by (auto simp: lent_def split: if_splits)
  then show ?thesis using get t by (intro exI[of _ c] exI[of _ i] exI[of _ ?pr']) (simp add: ready_def same_statics_def)
qed

lemma close_ready:
  assumes ready: "ready s pr" and c: "isOpen c" "c_pool c" "c_id c = Some i"
  shows "\<exists>pr'. close_conn c pr = Inr pr' \<and> ready s pr' \<and> lent pr' = lent pr - {i} \<and> same_statics pr pr' \<and> pr_gid pr' = pr_gid pr"
proof -
  have fine: "process_fine s pr" using ready by (simp add: ready_def)
  then obtain p where p: "pr_pool pr = Live p" by (auto simp: process_fine_def)
  obtain pr' where pr': "close_conn c pr = Inr pr'" "process_fine s pr'" "lent pr' = lent pr - {i}"
    using close_conn_fine[OF fine c(3)] c(2) by blast
  moreover have "same_statics pr pr' \<and> pr_gid pr' = pr_gid pr \<and> (\<forall>c \<in> ran (connections (pool_of (pr_pool pr'))). isOpen c)"
    using pr'(1) ready p c
    by (fastforce simp: close_conn_def with_pool_def SqlConn_close_eq[OF c(3)] same_statics_def ready_def ran_def
        split: if_splits)
  ultimately show ?thesis using ready by (auto simp: ready_def)
qed

section \<open>What a deployment leaves\<close>

lemma Model_AutoMigrate_leaves:
  assumes "Model_AutoMigrate env m c pr = Some (Inr (sqls, m', pr'))" "m_typeid m = ty"
  shows "\<exists>pv. pr_prev pr' = (pr_prev pr)(ty := pv) \<and> getTableName m = Inr (tablenamePrev pv)
      \<and> fieldsPrev pv = m_metadata m \<and> indicesPrev pv = m_indices m \<and> (\<exists>cls. getClassName ty = Inr cls)
    \<and> pr_db pr' = pr_db pr \<and> pr_files pr' = pr_files pr"
proof -
  have keep: "pr_prev pr2 = pr_prev pr1 \<and> pr_db pr2 = pr_db pr1 \<and> pr_files pr2 = pr_files pr1"
    if "DB_getConn env pr1 = Inr (mc, pr2)" for pr1 mc pr2
    using that by (auto simp: DB_getConn_def with_pool_def borrow_def rmap_eq_Inr_iff split: pool_pointer.splits)
  have keep': "pr_prev pr2 = pr_prev pr1 \<and> pr_db pr2 = pr_db pr1 \<and> pr_files pr2 = pr_files pr1"
    if "close_conn mc pr1 = Inr pr2" for pr1 mc pr2
    using that by (auto simp: close_conn_def with_pool_def rmap_eq_Inr_iff split: pool_pointer.splits if_splits)
  from assms show ?thesis
    by (auto simp: Model_AutoMigrate_def obind_eq_Inr rmap_eq_Inr_iff Let_def dest!: keep keep' AutoMigrate_leaves)
qed

lemma doMigrate_leaves:
  assumes "doMigrate env d (ty, b) pr = Some (Inr (sqls, pr'))"
  shows "\<exists>pv. static_model (ty, b) pv \<and> pr_prev pr' = (pr_prev pr)(ty := pv) \<and> pr_files pr' = pr_files pr
    \<and> pr_db pr' = (pr_db pr)(ty := (if pr_db pr ty = [] then d_name d else pr_db pr ty))"
proof -
  from assms obtain m c pr1 m' pr2 where mk: "DB_model env d (ty, b) pr = Inr (m, c, pr1)"
    and mig: "Model_AutoMigrate env m c pr1 = Some (Inr (sqls, m', pr2))" and close: "close_conn c pr2 = Inr pr'"
    by (auto simp: doMigrate_def obind_eq_Inr rmap_eq_Inr_iff)
  from mk have pr1: "Model_new ty b (isOpen c) = Inr m" "pr_prev pr1 = pr_prev pr" "pr_files pr1 = pr_files pr"
      "pr_db pr1 = (pr_db pr)(ty := (if pr_db pr ty = [] then d_name d else pr_db pr ty))"
    by (auto simp: DB_model_def DB_getConn_def with_pool_def borrow_def rbind_eq_Inr_iff rmap_eq_Inr_iff Let_def
        split: pool_pointer.splits)
  then have new: "Model_new ty b True = Inr m" "m_typeid m = ty" using Model_new_typeid[OF pr1(1)] by auto
  from close have "pr_prev pr' = pr_prev pr2 \<and> pr_db pr' = pr_db pr2 \<and> pr_files pr' = pr_files pr2"
    by (auto simp: close_conn_def with_pool_def rmap_eq_Inr_iff split: pool_pointer.splits if_splits)
  with Model_AutoMigrate_leaves[OF mig new(2)] pr1 new show ?thesis
    by (auto simp: static_model_def entity_saved_eq_Inr saved_of_def)
qed

lemma migrate_all_leaves:
  assumes "migrate_all env d es pr = Some (Inr (sqls, pr'))" "distinct (map fst es)"
  shows "(\<forall>(ty, b) \<in> set es. static_model (ty, b) (pr_prev pr' ty)
      \<and> pr_db pr' ty = (if pr_db pr ty = [] then d_name d else pr_db pr ty))
    \<and> (\<forall>ty. ty \<notin> fst ` set es \<longrightarrow> pr_prev pr' ty = pr_prev pr ty \<and> pr_db pr' ty = pr_db pr ty)
    \<and> pr_files pr' = pr_files pr"
  using assms
proof (induction es arbitrary: pr sqls)
  case (Cons e es)
  obtain ty b where e: "e = (ty, b)" by (cases e)
  from Cons.prems(1) obtain s1 pr1 s2 where first: "doMigrate env d (ty, b) pr = Some (Inr (s1, pr1))"
    and rest: "migrate_all env d es pr1 = Some (Inr (s2, pr'))" by (auto simp: obind_eq_Inr e)
  have new: "ty \<notin> fst ` set es" "distinct (map fst es)" using Cons.prems(2) by (simp_all add: e)
  note IH = Cons.IH[OF rest new(2)]
  from doMigrate_leaves[OF first] obtain pv where pv: "static_model (ty, b) pv" "pr_prev pr1 = (pr_prev pr)(ty := pv)"
      "pr_files pr1 = pr_files pr" "pr_db pr1 = (pr_db pr)(ty := (if pr_db pr ty = [] then d_name d else pr_db pr ty))" by blast
  have "static_model (ty', b') (pr_prev pr' ty') \<and> pr_db pr' ty' = (if pr_db pr ty' = [] then d_name d else pr_db pr ty')"
    if "(ty', b') \<in> set (e # es)" for ty' b'
  proof (cases "(ty', b') \<in> set es")
    case True
    then have "ty' \<noteq> ty" using new(1) by force
    then show ?thesis using IH True pv by auto
  next
    case False
    then show ?thesis using that IH new(1) pv e by auto
  qed
  then show ?case using IH pv new(1) e by auto
qed simp

text \<open>The data file, when every entity belongs to one database.\<close>

lemma save_all_file:
  assumes "\<forall>(ty, b) \<in> set es. pr_db pr ty = D \<and> static_model (ty, b) (pr_prev pr ty)"
    and "\<forall>e \<in> set es. entity_ok conf e" "pr_files pr D = Some before"
  shows "\<exists>sms pr'. rmapM entity_saved es = Inr sms \<and> save_all conf es pr = Inr pr'
    \<and> pr_files pr' D = Some (before @ data_file conf sms)"
  using assms
proof (induction es arbitrary: pr before)
  case Nil
  then show ?case by (simp add: data_file_def)
next
  case (Cons e es)
  obtain ty b where e: "e = (ty, b)" by (cases e)
  from Cons.prems(1) obtain cls where db: "pr_db pr ty = D" and cls: "entity_saved (ty, b) = Inr (saved_of cls (pr_prev pr ty))"
    by (auto simp: e static_model_def)
  have ok: "model_ok conf (saved_of cls (pr_prev pr ty))" using Cons.prems(2) cls by (simp add: e entity_ok_def)
  have "getClassName ty = Inr cls" using cls by (auto simp: entity_saved_eq_Inr saved_of_def)
  with saveModel_bytes[OF ok] have content: "Model_saveModel conf ty (pr_prev pr ty)
      = Inr (HEADER_MARKER # sv_rest conf (saved_of cls (pr_prev pr ty)))"
    by (simp add: Model_saveModel_def saved_of_def)
  let ?before = "before @ HEADER_MARKER # sv_rest conf (saved_of cls (pr_prev pr ty))"
  let ?pr = "pr\<lparr>pr_files := (pr_files pr)(D \<mapsto> ?before)\<rparr>"
  have "save_all conf (e # es) pr = save_all conf es ?pr" using Cons.prems(3) content db by (simp add: e Let_def)
  moreover from Cons.IH[of ?pr ?before] Cons.prems(1,2) obtain sms pr' where
    "rmapM entity_saved es = Inr sms" "save_all conf es ?pr = Inr pr'"
    "pr_files pr' D = Some (?before @ data_file conf sms)" by auto
  ultimately show ?case using cls by (simp add: e data_file_def)
qed

text \<open>Once the migrations have returned, so does the whole.\<close>

lemma DB_AutoMigrate_returns:
  assumes mig: "migrate_all env d es pr = Some (Inr (sqls, pr1))"
    and dist: "distinct (map fst es)" and dbs: "\<forall>(ty, b) \<in> set es. pr_db pr ty \<in> {[], d_name d}"
    and ok: "\<forall>e \<in> set es. entity_ok (en_conf env) e"
  shows "\<exists>sms pr'. rmapM entity_saved es = Inr sms \<and> DB_AutoMigrate env d es pr = Some (Inr (sqls, pr'))
    \<and> pr_files pr' (d_name d) = Some (data_file (en_conf env) sms) \<and> lent pr' = lent pr1"
proof -
  let ?pr = "pr1\<lparr>pr_files := (pr_files pr1)(d_name d \<mapsto> [])\<rparr>"
  have "\<forall>(ty, b) \<in> set es. pr_db ?pr ty = d_name d \<and> static_model (ty, b) (pr_prev ?pr ty)"
    using migrate_all_leaves[OF mig dist] dbs by fastforce
  from save_all_file[OF this ok, of "[]"] obtain sms pr' where
    save: "rmapM entity_saved es = Inr sms" "save_all (en_conf env) es ?pr = Inr pr'"
      "pr_files pr' (d_name d) = Some (data_file (en_conf env) sms)" by auto
  moreover have "lent pr' = lent pr1" using save_all_pool[OF save(2)] by (simp add: lent_def)
  ultimately show ?thesis using mig by (simp add: DB_AutoMigrate_def obind_def)
qed

section \<open>The next deployment\<close>

lemma Model_AutoMigrate_unchanged:
  assumes ready: "ready s pr" and env: "server_accepts env" and room: "int (card (lent pr)) < poolSize s"
    and gid: "pr_gid pr < 2147483647"
    and stored: "pr_files pr (pr_db pr (m_typeid m)) = Some (data_file (en_conf env) sms)"
    and sms: "\<forall>x \<in> set sms. model_ok (en_conf env) x" "distinct (map sv_class sms)" "sm \<in> set sms"
    and m: "getClassName (m_typeid m) = Inr (sv_class sm)" "getTableName m = Inr (sv_table sm)"
      "sv_fields sm = m_metadata m" "sv_indices sm = m_indices m"
    and model: "distinct (map getColumnName (m_metadata m))"
      "\<forall>(k, i) \<in> set (m_indices m). distinct (ix_columns i)"
    and fresh: "pr_prev pr (m_typeid m) = prev_empty"
  shows "\<exists>m' pr'. Model_AutoMigrate env m c pr = Some (Inr ([], m', pr')) \<and> ready s pr' \<and> lent pr' = lent pr
    \<and> pr_gid pr' \<le> pr_gid pr + 1"
proof -
  let ?db = "pr_db pr (m_typeid m)" and ?file = "data_file (en_conf env) sms"
  from getConn_ready[OF ready env room gid] obtain mc j pr1 where mc: "DB_getConn env pr = Inr (mc, pr1)" "isOpen mc"
      "c_pool mc" "c_id mc = Some j" "j \<notin> lent pr" "ready s pr1" "lent pr1 = insert j (lent pr)"
      "same_statics pr pr1" "pr_gid pr1 \<le> pr_gid pr + 1" by blast
  have st: "pr_files pr1 ?db = Some ?file" "pr_db pr1 (m_typeid m) = ?db" "pr_prev pr1 (m_typeid m) = prev_empty"
    using mc(8) stored fresh by (simp_all add: same_statics_def)
  have sort: "sorts (en_sorter env)" using env by (simp add: server_accepts_def)
  note same = migrate_unchanged[OF sms m model sort]
  from same(1)[of "en_info env" "meta_conn env pr1 c" "en_update env" mc ?db] obtain m' pv where
    run: "AutoMigrate (en_conf env) (en_sorter env) (Some ?file) (en_info env) (meta_conn env pr1 c)
      (en_update env) mc ?db m prev_empty = Some (Inr ([], m', pv))" by blast
  have calls: "schema_calls env pr1 c (sv_class sm) m = 0"
    using same(2) st by (auto simp: schema_calls_def prev_empty_def)
  let ?pr1 = "pr1\<lparr>pr_prev := (pr_prev pr1)(m_typeid m := pv)\<rparr>"
  have "ready s ?pr1" using mc(6) by (simp add: ready_def process_fine_def)
  from close_ready[OF this mc(2,3,4)] obtain pr2 where pr2: "close_conn mc ?pr1 = Inr pr2" "ready s pr2"
      "lent pr2 = lent ?pr1 - {j}" "pr_gid pr2 = pr_gid ?pr1" by blast
  have "Model_AutoMigrate env m c pr = Some (Inr ([], m', pr2))"
    using mc(1) run st m(1) calls pr2(1) by (simp add: Model_AutoMigrate_def obind_def)
  moreover have "lent pr2 = lent pr" using pr2(3) mc(5,7) by (auto simp: lent_def)
  ultimately show ?thesis using pr2(2,4) mc(9) by auto
qed

lemma doMigrate_unchanged:
  assumes ready: "ready s pr" and env: "server_accepts env" and room: "int (card (lent pr)) + 2 \<le> poolSize s"
    and gid: "pr_gid pr < 2147483646"
    and stored: "pr_files pr (d_name d) = Some (data_file (en_conf env) sms)"
    and sms: "\<forall>x \<in> set sms. model_ok (en_conf env) x" "distinct (map sv_class sms)" "sm \<in> set sms"
    and e: "entity_saved (ty, b) = Inr sm" "entity_ok (en_conf env) (ty, b)"
    and fresh: "pr_prev pr ty = prev_empty" "pr_db pr ty = []"
  shows "\<exists>pr'. doMigrate env d (ty, b) pr = Some (Inr ([], pr')) \<and> ready s pr' \<and> lent pr' = lent pr
    \<and> pr_gid pr' \<le> pr_gid pr + 2"
proof -
  from e(1) obtain m where m: "Model_new ty b True = Inr m" "getClassName ty = Inr (sv_class sm)"
      "getTableName m = Inr (sv_table sm)" "sv_fields sm = m_metadata m" "sv_indices sm = m_indices m"
    by (auto simp: entity_saved_eq_Inr)
  have ty: "m_typeid m = ty" using Model_new_typeid[OF m(1)] by simp
  have model: "distinct (map getColumnName (m_metadata m))" "\<forall>(k, i) \<in> set (m_indices m). distinct (ix_columns i)"
    using e by (simp_all add: entity_ok_def m(4,5))
  from getConn_ready[OF ready env] room gid obtain c i pr1 where c: "DB_getConn env pr = Inr (c, pr1)" "isOpen c" "c_pool c"
      "c_id c = Some i" "i \<notin> lent pr" "ready s pr1" "lent pr1 = insert i (lent pr)" "same_statics pr pr1"
      "pr_gid pr1 \<le> pr_gid pr + 1" by auto
  let ?pr1 = "pr1\<lparr>pr_db := (pr_db pr1)(ty := d_name d)\<rparr>"
  obtain h where "c_handle c = Some h" using c(2) by (auto simp: isOpen_def)
  then have mk: "DB_model env d (ty, b) pr = Inr (m, c, ?pr1)"
    using c m(1) fresh(2) by (simp add: DB_model_def setAutocommit_def with_handle_def same_statics_def Let_def)
  have pr1: "ready s ?pr1" "lent ?pr1 = insert i (lent pr)" "pr_files ?pr1 (pr_db ?pr1 ty) = Some (data_file (en_conf env) sms)"
      "pr_prev ?pr1 ty = prev_empty"
    using c(6,7,8) stored fresh(1) by (simp_all add: ready_def process_fine_def lent_def same_statics_def)
  have "int (card (lent ?pr1)) < poolSize s" "pr_gid ?pr1 < 2147483647"
    using room gid c(5,9) pr1(2) finite_lent[of pr] by auto
  from Model_AutoMigrate_unchanged[OF pr1(1) env this, of m sms sm c, unfolded ty, OF pr1(3) sms m(2-5) model pr1(4)]
  obtain m' pr2 where mig: "Model_AutoMigrate env m c ?pr1 = Some (Inr ([], m', pr2))" "ready s pr2"
      "lent pr2 = lent ?pr1" "pr_gid pr2 \<le> pr_gid ?pr1 + 1" by blast
  from close_ready[OF mig(2) c(2,3,4)] obtain pr3 where pr3: "close_conn c pr2 = Inr pr3" "ready s pr3"
      "lent pr3 = lent pr2 - {i}" "pr_gid pr3 = pr_gid pr2" by blast
  have "doMigrate env d (ty, b) pr = Some (Inr ([], pr3))"
    using mk mig(1) pr3(1) by (simp add: doMigrate_def obind_def)
  moreover have "lent pr3 = lent pr" using pr3(3) mig(3) pr1(2) c(5) by auto
  ultimately show ?thesis using pr3 mig(4) c(9) by auto
qed

lemma migrate_all_unchanged:
  assumes "ready s pr" "server_accepts env" "int (card (lent pr)) + 2 \<le> poolSize s"
    and "pr_gid pr + 2 * int (length es) < 2147483647"
    and "pr_files pr (d_name d) = Some (data_file (en_conf env) sms)"
    and "\<forall>x \<in> set sms. model_ok (en_conf env) x" "distinct (map sv_class sms)"
    and "\<forall>e \<in> set es. entity_ok (en_conf env) e \<and> (\<exists>sm \<in> set sms. entity_saved e = Inr sm)"
    and "distinct (map fst es)" "\<forall>(ty, b) \<in> set es. pr_prev pr ty = prev_empty \<and> pr_db pr ty = []"
  shows "\<exists>pr'. migrate_all env d es pr = Some (Inr ([], pr')) \<and> ready s pr' \<and> lent pr' = lent pr"
  using assms
proof (induction es arbitrary: pr)
  case (Cons e es)
  obtain ty b where e: "e = (ty, b)" by (cases e)
  from Cons.prems(8) obtain sm where sm: "sm \<in> set sms" "entity_saved (ty, b) = Inr sm" "entity_ok (en_conf env) (ty, b)"
    by (auto simp: e)
  have gid: "pr_gid pr < 2147483646" using Cons.prems(4) by simp
  have fresh: "pr_prev pr ty = prev_empty" "pr_db pr ty = []" using Cons.prems(10) by (auto simp: e)
  from doMigrate_unchanged[OF Cons.prems(1-3) gid Cons.prems(5-7) sm fresh] obtain pr1 where
    pr1: "doMigrate env d (ty, b) pr = Some (Inr ([], pr1))" "ready s pr1" "lent pr1 = lent pr" "pr_gid pr1 \<le> pr_gid pr + 2" by blast
  note left = doMigrate_leaves[OF pr1(1)]
  have "\<exists>pr'. migrate_all env d es pr1 = Some (Inr ([], pr')) \<and> ready s pr' \<and> lent pr' = lent pr1"
  proof (rule Cons.IH)
    show "\<forall>(ty, b) \<in> set es. pr_prev pr1 ty = prev_empty \<and> pr_db pr1 ty = []"
      using left Cons.prems(9,10) by (force simp: e)
  qed (use Cons.prems pr1 left in auto)
  then show ?case using pr1 by (auto simp: e obind_def)
qed simp

lemma DB_new_ready:
  "\<exists>d pr s. DB_new host port username password dbname (process_start files) = Inr (d, pr) \<and> d_name d = dbname
    \<and> ready s pr \<and> poolSize s = 10 \<and> lent pr = {} \<and> pr_gid pr = 1 \<and> pr_files pr = files
    \<and> pr_prev pr = (\<lambda>ty. prev_empty) \<and> pr_db pr = (\<lambda>ty. [])"
proof -
  let ?s = "\<lparr>p_host = host, p_username = username, p_password = password, p_port = port, p_db = dbname, poolSize = 10,
    maxWait = 1000, maxRetry = 5, waitInterval = 200, testOnBorrow = True, testSql = ''select 1''\<rparr>"
  let ?pr = "(process_start files)\<lparr>pr_pool := Live (ConnectionPool_new\<lparr>p_settings := Some ?s\<rparr>)\<rparr>"
  let ?d = "\<lparr>d_host = host, d_port = port, d_username = username, d_password = password, d_name = dbname, d_autoCommit = True\<rparr>"
  have "DB_new host port username password dbname (process_start files) = Inr (?d, ?pr)"
    by (simp add: DB_new_def getInstance_def with_pool_def configure_def cdiv_def i32_def process_start_def)
  moreover have "ready ?s ?pr"
    by (simp add: ready_def process_fine_def pool_fine_def pool_ok_def total_def ConnectionPool_new_def process_start_def)
  ultimately show ?thesis
    by (intro exI[of _ ?d] exI[of _ ?pr] exI[of _ ?s]) (simp add: lent_def ConnectionPool_new_def process_start_def)
qed

lemma rmapM_entity_saved:
  assumes "rmapM entity_saved es = Inr sms" "\<forall>e \<in> set es. entity_ok conf e" "distinct (map (getClassName \<circ> fst) es)"
  shows "\<forall>x \<in> set sms. model_ok conf x" "distinct (map sv_class sms)"
    "\<forall>e \<in> set es. \<exists>sm \<in> set sms. entity_saved e = Inr sm"
proof -
  show "\<forall>e \<in> set es. \<exists>sm \<in> set sms. entity_saved e = Inr sm" using rmapM_Inr_mem(1)[OF assms(1)] by blast
  show "\<forall>x \<in> set sms. model_ok conf x"
    using rmapM_Inr_mem(2)[OF assms(1)] assms(2) by (fastforce simp: entity_ok_def)
  have "list_all2 (\<lambda>e sm. (getClassName \<circ> fst) e = (Inr \<circ> sv_class) sm) es sms"
    by (rule list_all2_mono[OF rmapM_Inr_all2[OF assms(1)]]) (auto simp: entity_saved_def rbind_eq_Inr_iff rmap_eq_Inr_iff)
  then have "map (getClassName \<circ> fst) es = map (Inr \<circ> sv_class) sms"
    by (simp add: list_all2_conv_all_nth list_eq_iff_nth_eq)
  then have "distinct (map Inr (map sv_class sms) :: string res list)" using assms(3) by simp
  then show "distinct (map sv_class sms)" by (rule distinct_map[THEN iffD1, THEN conjunct1])
qed

section \<open>Properties\<close>

text \<open>
  C3: Deploying again changes nothing. When a process has migrated its entities, over any
  server and from any state in which their statics belong to that database, a later process
  that starts with the data file it left, opens the same database and migrates the same
  entities sends no statement at all, whatever the schema of the server says, leaves the data
  file as it is, and has given back all its connections.
\<close>

theorem redeploy_sends_nothing:
  assumes first: "DB_AutoMigrate env0 d0 es pr0 = Some (Inr (sqls, pr1))"
    and dbs: "\<forall>(ty, b) \<in> set es. pr_db pr0 ty \<in> {[], d_name d0}"
    and entities: "\<forall>e \<in> set es. entity_ok (en_conf env) e" "distinct (map (getClassName \<circ> fst) es)"
    and rules: "en_conf env0 = en_conf env" and server: "server_accepts env" and few: "length es < 1000000000"
  shows "\<exists>d pr2 pr3. DB_new host port username password (d_name d0) (process_start (pr_files pr1)) = Inr (d, pr2)
    \<and> DB_AutoMigrate env d es pr2 = Some (Inr ([], pr3))
    \<and> pr_files pr3 (d_name d0) = pr_files pr1 (d_name d0) \<and> lent pr3 = {}"
proof -
  have "distinct (map fst es)" using entities(2) by (metis distinct_map map_map)
  note dist = this
  from first obtain pr1' where mig: "migrate_all env0 d0 es pr0 = Some (Inr (sqls, pr1'))"
    by (auto simp: DB_AutoMigrate_def obind_eq_Inr rmap_eq_Inr_iff)
  from DB_AutoMigrate_returns[OF mig dist dbs] entities(1) rules first obtain sms where
    sms: "rmapM entity_saved es = Inr sms" "pr_files pr1 (d_name d0) = Some (data_file (en_conf env) sms)" by auto
  note saved = rmapM_entity_saved[OF sms(1) entities]
  obtain d pr2 s where pr2: "DB_new host port username password (d_name d0) (process_start (pr_files pr1)) = Inr (d, pr2)"
    "d_name d = d_name d0" "ready s pr2" "poolSize s = 10" "lent pr2 = {}" "pr_gid pr2 = 1" "pr_files pr2 = pr_files pr1"
    "pr_prev pr2 = (\<lambda>ty. prev_empty)" "pr_db pr2 = (\<lambda>ty. [])" using DB_new_ready by blast
  have "\<exists>pr'. migrate_all env d es pr2 = Some (Inr ([], pr')) \<and> ready s pr' \<and> lent pr' = lent pr2"
    using saved entities(1) few pr2 sms(2) dist by (intro migrate_all_unchanged[OF pr2(3) server, where sms = sms]) auto
  then obtain pr' where pr': "migrate_all env d es pr2 = Some (Inr ([], pr'))" "lent pr' = {}" using pr2(5) by auto
  have "\<forall>(ty, b) \<in> set es. pr_db pr2 ty \<in> {[], d_name d}" using pr2(9) by auto
  from DB_AutoMigrate_returns[OF pr'(1) dist this entities(1)] sms(1) pr2(2) obtain pr3 where
    "DB_AutoMigrate env d es pr2 = Some (Inr ([], pr3))" "lent pr3 = lent pr'"
    "pr_files pr3 (d_name d0) = Some (data_file (en_conf env) sms)" by auto
  then show ?thesis using pr2(1) sms(2) pr'(2) by auto
qed

section \<open>Witness\<close>

definition demo_item :: entity where
  "demo_item = (''4Item'', register_all (\<lambda>n. if n = ''id'' then 0 else 8)
      [Column ''id'' ''int'' (Some ''pk, type = int''), Column ''title'' ''std::string'' (Some ''type = varchar(20), index'')])"

text \<open>The models of the two entities.\<close>

definition demo_pk :: field_meta where
  "demo_pk = FieldMeta_default\<lparr>fieldName := ''id'', cppType := ''int'', columnType := Some ''int'', isPk := True,
     hasIndex := True, notNull := True,
     fieldIndex := \<lparr>ix_type = INDEX_TYPE_PRI, ix_name = ''PRIMARY'', ix_columns = [''id'']\<rparr>, fieldOffset := Some 0\<rparr>"

definition demo_text :: field_meta where
  "demo_text = FieldMeta_default\<lparr>fieldName := ''title'', cppType := ''std::string'', columnType := Some ''varchar(20)'',
     hasIndex := True,
     fieldIndex := \<lparr>ix_type = INDEX_TYPE_MUL, ix_name = ''title'', ix_columns = [''title'']\<rparr>, fieldOffset := Some 8\<rparr>"

lemma demo_saved:
  "entity_saved demo_entity = Inr \<lparr>sv_class = ''User'', sv_table = ''t_user'', sv_fields = [demo_pk],
     sv_indices = [(''PRIMARY'', fieldIndex demo_pk)]\<rparr>"
  "entity_saved demo_item = Inr \<lparr>sv_class = ''Item'', sv_table = ''item'', sv_fields = [demo_pk, demo_text],
     sv_indices = [(''PRIMARY'', fieldIndex demo_pk), (''title'', fieldIndex demo_text)]\<rparr>"
  by code_simp+

lemma demo_names: "cppToDb ''id'' = ''id''" "cppToDb ''title'' = ''title''"
  by code_simp+

lemma demo_entities_ok: "entity_ok JNull demo_entity" "entity_ok JNull demo_item"
  by (simp_all add: entity_ok_def demo_saved demo_names demo_pk_def demo_text_def demo_defs model_ok_def names_ok_def sep_ok_def
      field_ok_def index_ok_def sv_body_def model_body_def columns_bytes_def indices_bytes_def column_body_def
      index_body_def str_field_def)

lemma demo_class_names: "distinct (map (getClassName \<circ> fst) [demo_entity, demo_item])"
  by code_simp

lemma demo_first_migration: "map_option (rmap fst) (migrate_all demo_env demo_dbo [demo_entity, demo_item] demo_process)
  = Some (Inr [''CREATE TABLE t_user(id int PRIMARY KEY)'',
      ''CREATE TABLE item(id int PRIMARY KEY, title varchar(20), INDEX title(title))''])"
  by code_simp

theorem redeploy_witness:
  "\<exists>sqls pr1 d pr2 pr3. DB_AutoMigrate demo_env demo_dbo [demo_entity, demo_item] demo_process = Some (Inr (sqls, pr1))
    \<and> length sqls = 2
    \<and> DB_new ''h'' 3306 ''u'' ''p'' ''d'' (process_start (pr_files pr1)) = Inr (d, pr2)
    \<and> DB_AutoMigrate demo_env d [demo_entity, demo_item] pr2 = Some (Inr ([], pr3))"
proof -
  let ?es = "[demo_entity, demo_item]"
  obtain sqls pr where mig: "migrate_all demo_env demo_dbo ?es demo_process = Some (Inr (sqls, pr))" "length sqls = 2"
    using demo_first_migration by (auto simp: rmap_eq_Inr_iff)
  have dbs: "\<forall>(ty, b) \<in> set ?es. pr_db demo_process ty \<in> {[], d_name demo_dbo}"
    by (simp add: demo_process_def process_start_def split: prod.splits)
  have ok: "\<forall>e \<in> set ?es. entity_ok (en_conf demo_env) e"
    using demo_entities_ok by (simp add: demo_env_def)
  have "distinct (map fst ?es)" using demo_class_names by auto
  from DB_AutoMigrate_returns[OF mig(1) this dbs ok] obtain pr1 where
    run: "DB_AutoMigrate demo_env demo_dbo ?es demo_process = Some (Inr (sqls, pr1))" by blast
  have "server_accepts demo_env"
    by (simp add: server_accepts_def demo_env_def picks_hd sorts_insertion)
  then have "\<exists>d pr2 pr3. DB_new ''h'' 3306 ''u'' ''p'' (d_name demo_dbo) (process_start (pr_files pr1)) = Inr (d, pr2)
    \<and> DB_AutoMigrate demo_env d ?es pr2 = Some (Inr ([], pr3))
    \<and> pr_files pr3 (d_name demo_dbo) = pr_files pr1 (d_name demo_dbo) \<and> lent pr3 = {}"
    using demo_class_names by (intro redeploy_sends_nothing[OF run dbs ok]) simp_all
  then show ?thesis using run mig(2) by (auto simp: demo_dbo_def)
qed

end
