(* ===== verification/Spec2Isabelle.thy ===== *)
theory Spec2Isabelle
  imports Data_File_Reload Query_Objects Db_Demo Model_Gen_Laws Timestamp_Seconds Redeploy
begin

text \<open>
  tinyORM, an object-relational mapper for MySQL in C++ (\<^verbatim>\<open>src/tinyorm\<close>): the program as
  definitions, and what its components guarantee.

  \<^bold>\<open>The program.\<close> An entity is a class whose columns are declared with macros
  (\<^verbatim>\<open>reflection.h\<close>); each declaration carries a tag that says how the column looks in the
  database (\<^verbatim>\<open>datatype.h\<close>, \<^verbatim>\<open>naming.h\<close>, \<^verbatim>\<open>conf.h\<close>, \<^verbatim>\<open>rules.json\<close>). A \<^verbatim>\<open>DB\<close> (\<^verbatim>\<open>db.h\<close>) owns a
  pool of connections (\<^verbatim>\<open>mysql4cpp/connectionpool.cpp\<close>) and makes a \<^verbatim>\<open>Model\<close> (\<^verbatim>\<open>model.h\<close>) for
  an entity, which builds SQL, binds parameters to a prepared statement
  (\<^verbatim>\<open>mysql4cpp/statement.cpp\<close>) and reads objects from its result
  (\<^verbatim>\<open>preparedresult.cpp\<close>, \<^verbatim>\<open>sqlresult.cpp\<close>, \<^verbatim>\<open>result.cpp\<close>). \<^verbatim>\<open>AutoMigrate\<close> compares an entity with
  its previous version, from a binary data file (\<^verbatim>\<open>dataloader.h\<close>, \<^verbatim>\<open>bytearray.h\<close>) or from the
  information schema (\<^verbatim>\<open>databasemetadata.cpp\<close>), and sends the statements that lead from one to
  the other. The generator (\<^verbatim>\<open>generator/ModelGen.cpp\<close>, with the option parser
  \<^verbatim>\<open>cmdline/cmdline.h\<close>) writes entities from a schema.

  \<^bold>\<open>Outcomes.\<close> An operation that can fail returns a \<open>res\<close>: \<open>Inr\<close> a value, or \<open>Inl\<close> a
  fault, which is an exception of the standard library or \<open>UB\<close>, undefined behaviour. A loop that
  may not end is an option around it, \<open>None\<close> when it does not. Machine integers are words or
  \<open>int\<close> with the overflow written out; text is a list of characters, file contents a list of
  bytes; \<^verbatim>\<open>unordered_map\<close>s are lists of entries, and no fact depends on their order.

  \<^bold>\<open>Theories.\<close>
  \<^item> \<open>Prelude\<close>: outcomes, characters, joining and tokens, maps. \<open>Decimal\<close>: decimal texts.
  \<^item> \<open>Str_Util\<close> (\<^verbatim>\<open>common.cpp\<close>), \<open>Config_Rules\<close> (\<^verbatim>\<open>conf.h\<close>, \<^verbatim>\<open>rules.json\<close>), \<open>Naming\<close>
    (\<^verbatim>\<open>naming.h\<close>): the code's index loops, proved equal to tokens, trimming, snake and camel case.
  \<^item> \<open>Datatypes\<close> (\<^verbatim>\<open>datatype.h\<close>) and \<open>Reflection\<close> (\<^verbatim>\<open>reflection.h\<close>, the constructor of
    \<^verbatim>\<open>Model\<close>): indices, columns and the tag parser, with what it does on well-formed tags;
    registration, whose order does not matter.
  \<^item> \<open>Byte_Array\<close>, \<open>Data_File\<close> and its laws (\<open>_Roundtrip\<close>, \<open>_Load\<close>, \<open>_Reload\<close>): the
    records of the data file as bytes, the writer and the loader as a state machine over the
    file; what is saved for any number of models is loaded again, and the lengths for which it
    is not.
  \<^item> \<open>Timestamp\<close>, \<open>Calendar\<close>, \<open>Timestamp_Text\<close> (\<^verbatim>\<open>timestamp.cpp\<close>): time points, their text
    and MySQL's broken-down time; \<^verbatim>\<open>mktime\<close> and \<^verbatim>\<open>localtime\<close> are arguments, instantiated for UTC.
    \<open>Double_Arith\<close>, \<open>Timestamp_Seconds\<close>: \<^verbatim>\<open>addSeconds(double)\<close> in rounded binary64 arithmetic, with
    the bound of its error.
  \<^item> \<open>Statement\<close>, \<open>Results\<close>, \<open>Statement_Laws\<close>: binds with their buffers, execution, cursors;
    an invariant of every statement, and what a result cell reads.
  \<^item> \<open>Query\<close> with \<open>Query_Laws\<close>, \<open>Query_Params\<close>, \<open>Query_Objects\<close> (\<^verbatim>\<open>model.h\<close>): the
    builder, the SQL it sends, the order of the parameters, objects written and read back.
  \<^item> \<open>Sql_Conn\<close> (\<^verbatim>\<open>sqlconn.cpp\<close>, \<^verbatim>\<open>databasemetadata.cpp\<close>), \<open>Pool\<close> (\<^verbatim>\<open>connectionpool.cpp\<close>),
    \<open>Pool_Laws\<close>, \<open>Pool_Use\<close>: connections that are moved, the pool whose operations are atomic
    between the waits of \<^verbatim>\<open>getConn\<close>, every interleaving of its clients with its invariant, and
    the contract \<open>lease_pool\<close> of a pool of resources, which the connection pool meets.
  \<^item> \<open>Schema_Load\<close> (\<^verbatim>\<open>loadFromDB\<close>), \<open>Migration\<close> (commands, their texts, \<^verbatim>\<open>AutoMigrate\<close>),
    \<open>Migration_Laws\<close>, \<open>Migration_Props\<close>, \<open>Migration_Demo\<close>: a table as an abstract schema,
    the effect of a command on it, and the proof that a migration leads to the model in
    whatever order \<^verbatim>\<open>sort\<close> leaves commands of one priority.
  \<^item> \<open>Db_Life\<close> (\<^verbatim>\<open>db.h\<close>, \<^verbatim>\<open>database.cpp\<close>), \<open>Db_Props\<close>, \<open>Db_Demo\<close>: the state of a process, the
    singleton pool and the statics of the models, and \<^verbatim>\<open>DB::AutoMigrate\<close> over several entities.
    \<open>Redeploy\<close>: two processes one after the other, from the pool down to the bytes of the data
    file; the second finds nothing to migrate.
  \<^item> \<open>Cmdline\<close>, \<open>Cmdline_Laws\<close> (\<^verbatim>\<open>cmdline.h\<close>), \<open>Model_Gen\<close>, \<open>Model_Gen_Laws\<close>
    (\<^verbatim>\<open>ModelGen.cpp\<close>): option parsing, and headers whose columns read back as the schema's.

  \<^bold>\<open>Arguments of the model.\<close> What is not in the repository's own code is an argument: the
  answers of the MySQL server and its C library (results, error texts, whether a connection or a
  statement succeeds), the parsed \<^verbatim>\<open>rules.json\<close>, the C library's clock and calendar, the order of
  \<^verbatim>\<open>std::sort\<close> on equal elements and of \<^verbatim>\<open>unordered_set::begin\<close>, the offsets of class members.

  \<^bold>\<open>Bounds.\<close> No fuel is used. Loops over a file or a result are option-valued and proved to
  return where they do; the wait loop of \<^verbatim>\<open>getConn\<close> ends by its retry counter.

  \<^bold>\<open>Not modelled.\<close> The vendored JSON, logging and MySQL client code; the console log; the
  example programs and the tests of the option parser; memory exhaustion; option types other than \<^verbatim>\<open>string\<close> and \<^verbatim>\<open>int\<close>.
\<close>

end
